(* ===== verification/Nmfs_Prelude.thy ===== *)
theory Nmfs_Prelude
  imports Main "HOL-Library.Word" "HOL-Library.AList"
begin

unbundle bit_operations_syntax

text \<open>
  Shared vocabulary of the development: the exceptions of the C++ code, programs that pass a
  state and may throw or fail to return, byte buffers (\<open>char\<close> arrays) with the little-endian
  encoding of x86-64, decimal printing, and the container operations of \<open>tsl::robin_map\<close>.

  A \<open>char\<close> of C++ is a byte, so buffers and \<open>std::string\<close>s are both \<open>char list\<close>.
\<close>

section \<open>Exceptions and programs\<close>

text \<open>
  The exception classes the code throws. \<open>Crash\<close> marks undefined behaviour: a read outside
  an array, or a null pointer that is dereferenced.
\<close>

datatype exn =
    Runtime_error string
  | Logic_error string
  | No_such_object nat
  | No_entry
  | Permission_denied
  | Not_leader
  | Crash string

text \<open>
  A program maps a state to \<open>None\<close> when it does not return, and otherwise to its result
  (\<open>Inl\<close> an exception, \<open>Inr\<close> a value) with the state it leaves. The state survives an
  exception, as the objects of the program do. A \<open>step\<close> is a program that always returns.
\<close>

type_synonym ('a, 's) step = "'s \<Rightarrow> (exn + 'a) \<times> 's"
type_synonym ('a, 's) outcome = "((exn + 'a) \<times> 's) option"
type_synonym ('a, 's) prog = "'s \<Rightarrow> ('a, 's) outcome"
type_synonym bytes = "char list"

definition ret :: "'a \<Rightarrow> ('a, 's) prog" where
  "ret x s = Some (Inr x, s)"

definition throw :: "exn \<Rightarrow> ('a, 's) prog" where
  "throw e s = Some (Inl e, s)"

definition bnd :: "('a, 's) prog \<Rightarrow> ('a \<Rightarrow> ('b, 's) prog) \<Rightarrow> ('b, 's) prog" where
  "bnd m f s =
     (case m s of
        None \<Rightarrow> None
      | Some (Inl e, s') \<Rightarrow> Some (Inl e, s')
      | Some (Inr x, s') \<Rightarrow> f x s')"

definition catch :: "('a, 's) prog \<Rightarrow> (exn \<Rightarrow> ('a, 's) prog) \<Rightarrow> ('a, 's) prog" where
  "catch m h s =
     (case m s of
        None \<Rightarrow> None
      | Some (Inl e, s') \<Rightarrow> h e s'
      | Some (Inr x, s') \<Rightarrow> Some (Inr x, s'))"

definition lift :: "('a, 's) step \<Rightarrow> ('a, 's) prog" where
  "lift m s = Some (m s)"

text \<open>Running a program on one component of a larger state.\<close>

definition zoom :: "('t \<Rightarrow> 's) \<Rightarrow> ('s \<Rightarrow> 't \<Rightarrow> 't) \<Rightarrow> ('a, 's) prog \<Rightarrow> ('a, 't) prog" where
  "zoom get put m t = map_option (\<lambda>(r, s'). (r, put s' t)) (m (get t))"

text \<open>Reading and changing the state\<close>

definition gets :: "('s \<Rightarrow> 'a) \<Rightarrow> ('a, 's) prog" where
  "gets f s = Some (Inr (f s), s)"

definition modify :: "('s \<Rightarrow> 's) \<Rightarrow> (unit, 's) prog" where
  "modify f s = Some (Inr (), f s)"

definition from_result :: "exn + 'a \<Rightarrow> ('a, 's) prog" where
  "from_result r s = Some (r, s)"

named_theorems prog_simps "unfolding of the program combinators"

lemma ret_apply [prog_simps]: "ret x s = Some (Inr x, s)"
  by (simp add: ret_def)

lemma throw_apply [prog_simps]: "throw e s = Some (Inl e, s)"
  by (simp add: throw_def)

lemma gets_apply [prog_simps]: "gets f s = Some (Inr (f s), s)"
  by (simp add: gets_def)

lemma modify_apply [prog_simps]: "modify f s = Some (Inr (), f s)"
  by (simp add: modify_def)

lemma from_result_apply [prog_simps]: "from_result r s = Some (r, s)"
  by (simp add: from_result_def)

lemma bnd_gets [simp]: "bnd (gets f) g s = g (f s) s"
  by (simp add: bnd_def gets_def)

lemma bnd_modify [simp]: "bnd (modify f) g s = g () (f s)"
  by (simp add: bnd_def modify_def)

lemma bnd_from_result [simp]: "bnd (from_result (Inr x)) f = f x" "bnd (from_result (Inl e)) f = throw e"
  by (simp_all add: fun_eq_iff bnd_def from_result_def throw_def)

lemma bnd_Some_Inr [prog_simps]: "m s = Some (Inr x, s') \<Longrightarrow> bnd m f s = f x s'"
  by (simp add: bnd_def)

lemma bnd_Some_Inl [prog_simps]: "m s = Some (Inl e, s') \<Longrightarrow> bnd m f s = Some (Inl e, s')"
  by (simp add: bnd_def)

lemma bnd_None [prog_simps]: "m s = None \<Longrightarrow> bnd m f s = None"
  by (simp add: bnd_def)

lemma bnd_ret [simp]: "bnd (ret x) f = f x"
  by (simp add: fun_eq_iff bnd_def ret_def)

lemma bnd_throw [simp]: "bnd (throw e) f = throw e"
  by (simp add: fun_eq_iff bnd_def throw_def)

lemma bnd_ret_right [simp]: "bnd m ret = m"
  by (auto simp: fun_eq_iff bnd_def ret_def split: option.splits sum.splits)

lemma bnd_assoc: "bnd (bnd m f) g = bnd m (\<lambda>x. bnd (f x) g)"
  by (auto simp: fun_eq_iff bnd_def split: option.splits sum.splits prod.splits)

lemma bnd_eq_Inr_iff:
  "bnd m f s = Some (Inr y, t) \<longleftrightarrow> (\<exists>x s'. m s = Some (Inr x, s') \<and> f x s' = Some (Inr y, t))"
  by (auto simp: bnd_def split: option.splits sum.splits prod.splits)

lemma catch_Some_Inr [prog_simps]: "m s = Some (Inr x, s') \<Longrightarrow> catch m h s = Some (Inr x, s')"
  by (simp add: catch_def)

lemma catch_Some_Inl [prog_simps]: "m s = Some (Inl e, s') \<Longrightarrow> catch m h s = h e s'"
  by (simp add: catch_def)

lemma lift_apply [prog_simps]: "lift m s = Some (m s)"
  by (simp add: lift_def)

lemma zoom_Some [prog_simps]:
  "m (get t) = Some (r, s') \<Longrightarrow> zoom get put m t = Some (r, put s' t)"
  by (simp add: zoom_def)

section \<open>Bytes and little-endian integers\<close>

text \<open>The object representation of a \<open>w\<close>-byte unsigned integer on x86-64.\<close>

fun enc_le :: "nat \<Rightarrow> nat \<Rightarrow> bytes" where
  "enc_le 0 v = []"
| "enc_le (Suc w) v = char_of (v mod 256) # enc_le w (v div 256)"

fun dec_le :: "bytes \<Rightarrow> nat" where
  "dec_le [] = 0"
| "dec_le (c # cs) = of_char c + 256 * dec_le cs"

lemma length_enc_le [simp]: "length (enc_le w v) = w"
  by (induction w arbitrary: v) auto

lemma of_char_less_256: "(of_char c :: nat) < 256"
  by (metis mod_less_divisor of_char_mod_256 zero_less_numeral)

lemma dec_enc_le [simp]: "dec_le (enc_le w v) = v mod 256 ^ w"
proof (induction w arbitrary: v)
  case (Suc w)
  then show ?case by (simp add: mod_mult2_eq)
qed simp

lemma dec_le_bound: "dec_le cs < 256 ^ length cs"
proof (induction cs)
  case (Cons c cs)
  have "(of_char c :: nat) + 256 * dec_le cs < 256 * Suc (dec_le cs)"
    using of_char_less_256 [of c] by simp
  also have "\<dots> \<le> 256 * 256 ^ length cs"
    using Cons by (intro mult_le_mono2) simp
  finally show ?case by simp
qed simp

lemma enc_dec_le [simp]: "length cs = w \<Longrightarrow> enc_le w (dec_le cs) = cs"
proof (induction cs arbitrary: w)
  case (Cons c cs)
  then show ?case
    using of_char_less_256 [of c] by auto
qed simp

lemma dec_enc_le_small: "v < 256 ^ w \<Longrightarrow> dec_le (enc_le w v) = v"
  by simp

lemma enc_le_inj: "enc_le w u = enc_le w v \<Longrightarrow> u < 256 ^ w \<Longrightarrow> v < 256 ^ w \<Longrightarrow> u = v"
  by (metis dec_enc_le_small)

text \<open>Words as the \<open>memcpy\<close> of an integer sees them.\<close>

definition enc32 :: "32 word \<Rightarrow> bytes" where "enc32 x = enc_le 4 (unat x)"
definition enc64 :: "64 word \<Rightarrow> bytes" where "enc64 x = enc_le 8 (unat x)"
definition dec32 :: "bytes \<Rightarrow> 32 word" where "dec32 cs = of_nat (dec_le cs)"
definition dec64 :: "bytes \<Rightarrow> 64 word" where "dec64 cs = of_nat (dec_le cs)"

lemma length_enc32 [simp]: "length (enc32 x) = 4"
  by (simp add: enc32_def)

lemma length_enc64 [simp]: "length (enc64 x) = 8"
  by (simp add: enc64_def)

lemma dec32_enc32 [simp]: "dec32 (enc32 x) = x"
proof -
  have "unat x < 256 ^ 4" using unsigned_less [of x] by simp
  then show ?thesis by (simp add: dec32_def enc32_def)
qed

lemma dec64_enc64 [simp]: "dec64 (enc64 x) = x"
proof -
  have "unat x < 256 ^ 8" using unsigned_less [of x] by simp
  then show ?thesis by (simp add: dec64_def enc64_def)
qed

lemma enc64_dec64: "length cs = 8 \<Longrightarrow> enc64 (dec64 cs) = cs"
  using dec_le_bound [of cs] by (simp add: dec64_def enc64_def unat_of_nat)

section \<open>Decimal numbers\<close>

text \<open>\<open>std::to_string\<close> on an unsigned integer.\<close>

fun to_string :: "nat \<Rightarrow> string" where
  "to_string n = (if n < 10 then [char_of (48 + n)] else to_string (n div 10) @ [char_of (48 + n mod 10)])"

declare to_string.simps [simp del]

lemma to_string_nonempty [simp]: "to_string n \<noteq> []"
  by (subst to_string.simps) simp

definition is_digit :: "char \<Rightarrow> bool" where
  "is_digit c \<longleftrightarrow> (48::nat) \<le> of_char c \<and> (of_char c :: nat) \<le> 57"

lemma to_string_digits: "c \<in> set (to_string n) \<Longrightarrow> is_digit c"
proof (induction n rule: to_string.induct)
  case (1 n)
  then show ?case
    by (cases "n < 10") (auto simp: to_string.simps [of n] is_digit_def)
qed

lemma to_string_small: "n < 10 \<Longrightarrow> to_string n = [char_of (48 + n)]"
  by (subst to_string.simps) simp

lemma to_string_big:
  "\<not> n < 10 \<Longrightarrow> to_string n = to_string (n div 10) @ [char_of (48 + n mod 10)]"
  by (subst to_string.simps) simp

lemma digit_char_inj:
  fixes i j :: nat
  assumes "char_of (48 + i) = (char_of (48 + j) :: char)" and "i < 10" and "j < 10"
  shows "i = j"
proof -
  from assms(1) have "(48 + i) mod 256 = (48 + j) mod 256"
    by (metis of_char_of)
  with assms(2,3) show ?thesis by simp
qed

lemma to_string_inj: "to_string m = to_string n \<Longrightarrow> m = n"
proof (induction m arbitrary: n rule: to_string.induct)
  case (1 m)
  consider "m < 10" "n < 10" | "m < 10" "\<not> n < 10" | "\<not> m < 10" "n < 10"
    | "\<not> m < 10" "\<not> n < 10" by blast
  then show ?case
  proof cases
    case 1
    with "1.prems" have "char_of (48 + m) = (char_of (48 + n) :: char)"
      by (simp only: to_string_small list.inject)
    then show ?thesis using 1 by (rule digit_char_inj)
  next
    case 2
    with "1.prems" have "to_string (n div 10) @ [char_of (48 + n mod 10)] = [char_of (48 + m)]"
      by (metis to_string_small to_string_big)
    then show ?thesis by simp
  next
    case 3
    with "1.prems" have "to_string (m div 10) @ [char_of (48 + m mod 10)] = [char_of (48 + n)]"
      by (metis to_string_small to_string_big)
    then show ?thesis by simp
  next
    case 4
    with "1.prems" have "to_string (m div 10) = to_string (n div 10)"
      and "char_of (48 + m mod 10) = (char_of (48 + n mod 10) :: char)"
      by (metis to_string_big append1_eq_conv)+
    with 4 "1.IH" have "m div 10 = n div 10" and "m mod 10 = n mod 10"
      by (auto intro: digit_char_inj)
    then show ?thesis by (metis div_mult_mod_eq)
  qed
qed

text \<open>A separator that no suffix contains makes the concatenation injective.\<close>

lemma append_sep_inj:
  assumes "xs @ c # us = ys @ c # vs" and "c \<notin> set us" and "c \<notin> set vs"
  shows "xs = ys \<and> us = vs"
  using assms
proof (induction xs arbitrary: ys)
  case Nil
  then show ?case by (cases ys) auto
next
  case (Cons x xs)
  then show ?case by (cases ys) auto
qed

section \<open>Writing into a byte sequence\<close>

abbreviation zero_byte :: char where "zero_byte \<equiv> CHR 0x00"

text \<open>Bytes \<open>bs\<close> stored at \<open>off\<close>; a gap before them reads as zeros.\<close>

definition overlay :: "bytes \<Rightarrow> nat \<Rightarrow> bytes \<Rightarrow> bytes" where
  "overlay c off bs = take off c @ replicate (off - length c) zero_byte @ bs @ drop (off + length bs) c"

lemma length_overlay [simp]: "length (overlay c off bs) = max (length c) (off + length bs)"
  by (simp add: overlay_def)

lemma overlay_nth:
  assumes "i < length (overlay c off bs)"
  shows "overlay c off bs ! i =
    (if i < off then (if i < length c then c ! i else zero_byte)
     else if i < off + length bs then bs ! (i - off) else c ! i)"
  using assms by (auto simp: overlay_def nth_append min_def)

lemma overlay_Nil: "off \<le> length c \<Longrightarrow> overlay c off [] = c"
  by (simp add: overlay_def)

lemma overlay_at_end: "overlay c (length c) bs = c @ bs"
  by (simp add: overlay_def)

text \<open>Two adjacent writes are one write of the concatenation.\<close>

lemma overlay_overlay_adjacent:
  assumes "off \<le> length c"
  shows "overlay (overlay c off xs) (off + length xs) ys = overlay c off (xs @ ys)"
proof (rule nth_equalityI)
  show "length (overlay (overlay c off xs) (off + length xs) ys) = length (overlay c off (xs @ ys))"
    by simp
next
  fix i assume i: "i < length (overlay (overlay c off xs) (off + length xs) ys)"
  show "overlay (overlay c off xs) (off + length xs) ys ! i = overlay c off (xs @ ys) ! i"
    using i assms by (auto simp: overlay_nth nth_append)
qed

text \<open>What a read of the written range returns, and what it leaves elsewhere.\<close>

lemma overlay_read_back: "take (length bs) (drop off (overlay c off bs)) = bs"
  by (simp add: overlay_def)

lemma overlay_read_before:
  "n + k \<le> off \<Longrightarrow> n + k \<le> length c \<Longrightarrow> take k (drop n (overlay c off bs)) = take k (drop n c)"
  by (rule nth_equalityI) (auto simp: overlay_nth)

lemma overlay_read_after:
  "off + length bs \<le> n \<Longrightarrow> take k (drop n (overlay c off bs)) = take k (drop n c)"
  by (rule nth_equalityI) (auto simp: overlay_nth)

section \<open>Containers\<close>

text \<open>
  \<open>tsl::robin_map\<close> as an association list with distinct keys. The list order stands for the
  iteration order, which the container leaves unspecified: statements about traversals hold
  for every list.
\<close>

type_synonym ('k, 'v) robin_map = "('k \<times> 'v) list"

abbreviation rm_find :: "('k, 'v) robin_map \<Rightarrow> 'k \<Rightarrow> 'v option" where
  "rm_find \<equiv> map_of"

text \<open>\<open>insert({k, v})\<close>: no effect when the key is present; the flag is \<open>ret.second\<close>.\<close>

definition rm_insert :: "'k \<Rightarrow> 'v \<Rightarrow> ('k, 'v) robin_map \<Rightarrow> ('k, 'v) robin_map \<times> bool" where
  "rm_insert k v m = (case rm_find m k of None \<Rightarrow> (m @ [(k, v)], True) | Some _ \<Rightarrow> (m, False))"

text \<open>\<open>ret.first.value() = v\<close>: overwrite the value at a present key.\<close>

abbreviation rm_set :: "'k \<Rightarrow> 'v \<Rightarrow> ('k, 'v) robin_map \<Rightarrow> ('k, 'v) robin_map" where
  "rm_set \<equiv> AList.update"

abbreviation rm_erase :: "'k \<Rightarrow> ('k, 'v) robin_map \<Rightarrow> ('k, 'v) robin_map" where
  "rm_erase \<equiv> AList.delete"

abbreviation rm_wf :: "('k, 'v) robin_map \<Rightarrow> bool" where
  "rm_wf m \<equiv> distinct (map fst m)"

declare map_of_append [simp del]

lemma rm_insert_new: "rm_find m k = None \<Longrightarrow> rm_insert k v m = (m @ [(k, v)], True)"
  by (simp add: rm_insert_def)

lemma rm_insert_old: "rm_find m k = Some w \<Longrightarrow> rm_insert k v m = (m, False)"
  by (simp add: rm_insert_def)

lemma map_of_snoc: "rm_find m k = None \<Longrightarrow> map_of (m @ [(k, v)]) = (map_of m)(k \<mapsto> v)"
  by (auto simp: fun_eq_iff map_add_def map_of_append split: option.splits)

lemma rm_wf_snoc: "rm_wf m \<Longrightarrow> rm_find m k = None \<Longrightarrow> rm_wf (m @ [(k, v)])"
  by (auto simp: map_of_eq_None_iff)

lemma rm_wf_set: "rm_wf m \<Longrightarrow> rm_wf (rm_set k v m)"
  by (rule distinct_update)

lemma rm_wf_erase: "rm_wf m \<Longrightarrow> rm_wf (rm_erase k m)"
  by (rule distinct_delete)

lemma rm_find_set: "map_of (rm_set k v m) = (map_of m)(k \<mapsto> v)"
  by (rule update_conv')

lemma rm_find_erase: "map_of (rm_erase k m) = (map_of m)(k := None)"
  by (rule delete_conv')

lemmas rm_simps = map_of_snoc rm_find_set rm_find_erase rm_insert_new rm_insert_old
lemmas rm_wf_intros = rm_wf_snoc rm_wf_set rm_wf_erase

end
