(* ===== verification/Uuid.thy ===== *)
theory Uuid
  imports Nmfs_Prelude
begin

text \<open>
  Inode numbers (\<open>util/uuid.cpp\<close>). A \<open>boost::uuids::uuid\<close> is an array of 16 bytes; the code
  moves it through messages as two 64-bit integers copied from its halves.
\<close>

type_synonym uuid = bytes

abbreviation is_uuid :: "uuid \<Rightarrow> bool" where
  "is_uuid u \<equiv> length u = 16"

definition nil_uuid :: uuid where
  "nil_uuid = replicate 16 zero_byte"

text \<open>\<open>uuid::is_nil\<close>\<close>

definition is_nil :: "uuid \<Rightarrow> bool" where
  "is_nil u \<longleftrightarrow> (\<forall>c \<in> set u. c = zero_byte)"

definition get_prefix_from_uuid :: "uuid \<Rightarrow> 64 word" where
  "get_prefix_from_uuid uid = dec64 (take 8 uid)"

definition get_postfix_from_uuid :: "uuid \<Rightarrow> 64 word" where
  "get_postfix_from_uuid uid = dec64 (take 8 (drop 8 uid))"

definition splice_prefix_and_postfix :: "64 word \<Rightarrow> 64 word \<Rightarrow> uuid" where
  "splice_prefix_and_postfix prefix postfix =
     (let spliced = replicate 16 zero_byte;
          spliced = overlay spliced 0 (enc64 prefix)
      in overlay spliced 8 (enc64 postfix))"

text \<open>\<open>root_ino.data[15] = root_ino.data[15] + 1\<close> in 8-bit arithmetic\<close>

definition get_root_ino :: uuid where
  "get_root_ino = nil_uuid[15 := char_of ((of_char (nil_uuid ! 15) + 1) mod 256 :: nat)]"

lemma is_uuid_nil [simp]: "is_uuid nil_uuid"
  by (simp add: nil_uuid_def)

lemma is_uuid_root [simp]: "is_uuid get_root_ino"
  by (simp add: get_root_ino_def)

lemma is_uuid_splice [simp]: "is_uuid (splice_prefix_and_postfix p q)"
  by (simp add: splice_prefix_and_postfix_def Let_def)

lemma splice_eq: "splice_prefix_and_postfix p q = enc64 p @ enc64 q"
  by (simp add: splice_prefix_and_postfix_def overlay_def)

lemma is_nil_iff: "is_uuid u \<Longrightarrow> is_nil u \<longleftrightarrow> u = nil_uuid"
  unfolding is_nil_def nil_uuid_def by (metis in_set_replicate replicate_eqI)

lemma root_ino_not_nil [simp]: "\<not> is_nil get_root_ino"
  by code_simp

lemma splice_prefix_postfix:
  assumes "is_uuid u"
  shows "splice_prefix_and_postfix (get_prefix_from_uuid u) (get_postfix_from_uuid u) = u"
proof -
  from assms have "enc64 (dec64 (take 8 u)) = take 8 u"
    and "enc64 (dec64 (take 8 (drop 8 u))) = take 8 (drop 8 u)"
    by (simp_all add: enc64_dec64)
  with assms show ?thesis
    by (simp add: splice_eq get_prefix_from_uuid_def get_postfix_from_uuid_def)
qed

lemma prefix_splice [simp]: "get_prefix_from_uuid (splice_prefix_and_postfix p q) = p"
  by (simp add: splice_eq get_prefix_from_uuid_def)

lemma postfix_splice [simp]: "get_postfix_from_uuid (splice_prefix_and_postfix p q) = q"
  by (simp add: splice_eq get_postfix_from_uuid_def)

section \<open>Properties\<close>

text \<open>A UUID survives its passage through a message: splicing the prefix and the postfix that
  the sender computes gives back the UUID.\<close>

theorem uuid_message_roundtrip:
  assumes "is_uuid u"
  shows "splice_prefix_and_postfix (get_prefix_from_uuid u) (get_postfix_from_uuid u) = u"
  using assms by (rule splice_prefix_postfix)

theorem uuid_message_roundtrip_witness:
  "splice_prefix_and_postfix (get_prefix_from_uuid get_root_ino) (get_postfix_from_uuid get_root_ino) = get_root_ino"
  by (rule uuid_message_roundtrip) simp

end
