(* ===== verification/External.thy ===== *)
theory External
  imports Uuid
begin

text \<open>
  The code outside the repository that the program calls, as one record of functions that every
  definition using it takes as an argument: \<open>librados\<close> (\<open>ioctx\<close>), Boost's textual form of a
  UUID. Nothing is assumed about them here; the laws the program relies on are the locales
  \<open>librados\<close> (theory Rados_Io) and \<open>boost_uuid\<close> below.
\<close>

text \<open>
  \<open>io_read key len off\<close>, \<open>io_write key bytes off\<close>, \<open>io_stat key\<close>, \<open>io_remove key\<close> and
  \<open>io_trunc key size\<close> return the \<open>int\<close> of the C++ call (negative: an errno), with the
  bytes read or the size found, and the state of the pool.
\<close>

record 's ext =
  io_read :: "string \<Rightarrow> nat \<Rightarrow> nat \<Rightarrow> 's \<Rightarrow> (int \<times> bytes) \<times> 's"
  io_write :: "string \<Rightarrow> bytes \<Rightarrow> nat \<Rightarrow> 's \<Rightarrow> int \<times> 's"
  io_stat :: "string \<Rightarrow> 's \<Rightarrow> (int \<times> nat) \<times> 's"
  io_remove :: "string \<Rightarrow> 's \<Rightarrow> int \<times> 's"
  io_trunc :: "string \<Rightarrow> nat \<Rightarrow> 's \<Rightarrow> int \<times> 's"
  uuid_text :: "uuid \<Rightarrow> string"

text \<open>\<open>uuid_to_string(id)\<close> of \<open>util/uuid.cpp\<close> returns Boost's \<open>to_string(id)\<close>.\<close>

definition uuid_to_string :: "'s ext \<Rightarrow> uuid \<Rightarrow> string" where
  "uuid_to_string X u = uuid_text X u"

text \<open>Distinct UUIDs print differently.\<close>

locale boost_uuid =
  fixes X :: "'s ext"
  assumes uuid_text_inj: "is_uuid u \<Longrightarrow> is_uuid v \<Longrightarrow> uuid_text X u = uuid_text X v \<Longrightarrow> u = v"
begin

lemma uuid_to_string_eq_iff:
  "is_uuid u \<Longrightarrow> is_uuid v \<Longrightarrow> uuid_to_string X u = uuid_to_string X v \<longleftrightarrow> u = v"
  by (auto simp: uuid_to_string_def dest: uuid_text_inj)

end

end
