(* ===== verification/Rados_Spec.thy ===== *)
theory Rados_Spec
  imports Rados_Io
begin

text \<open>
  What the striping layer promises. \<open>librados\<close> states the documented behaviour of the calls
  into a healthy cluster, seen through \<open>objs\<close>, the objects of the pool. \<open>stripe_rep M p c\<close>
  relates the objects of one file to its content \<open>c\<close>. Each operation of \<open>rados_io\<close> is shown
  to act on \<open>c\<close> as the plain byte-sequence operation does, and to leave other files alone.
\<close>

section \<open>Keys are unambiguous\<close>

lemma hash_not_in_to_string: "CHR ''#'' \<notin> set (to_string n)"
  using to_string_digits by (force simp: is_digit_def)

lemma obj_key_inj [simp]: "obj_key p n = obj_key q m \<longleftrightarrow> p = q \<and> n = m"
proof
  assume "obj_key p n = obj_key q m"
  then have "p = q \<and> to_string n = to_string m"
    using append_sep_inj [of p "CHR ''#''" "to_string n" q "to_string m"] hash_not_in_to_string
    by (simp add: obj_key_def get_postfix_def)
  then show "p = q \<and> n = m" using to_string_inj by blast
qed simp

lemma get_prefix_inj: "get_prefix a @ x = get_prefix b @ y \<longleftrightarrow> a = b \<and> x = y"
  by (cases a; cases b) auto

lemma pool_key_inj [simp]: "pool_key a x = pool_key b y \<longleftrightarrow> a = b \<and> x = y"
  by (simp add: pool_key_def get_prefix_inj)

section \<open>Chunks\<close>

lemma drop_bit_div: "drop_bit OBJ_BITS (n::nat) = n div OBJ_SIZE"
  by (simp add: drop_bit_eq_div OBJ_SIZE_pow)

lemma push_bit_mult: "push_bit OBJ_BITS (n::nat) = n * OBJ_SIZE"
  by (simp add: push_bit_eq_mult OBJ_SIZE_pow)

lemma chunk_within: "mask_lo cursor + chunk_len cursor stop \<le> OBJ_SIZE"
proof -
  have "chunk_len cursor stop \<le> next_bound cursor - cursor" by (simp add: chunk_len_def)
  moreover have "cursor div OBJ_SIZE * OBJ_SIZE + mask_lo cursor = cursor" by (simp add: mask_lo_mod)
  moreover have "mask_lo cursor < OBJ_SIZE" by (simp add: mask_lo_mod)
  ultimately show ?thesis unfolding next_bound_eq mult_Suc by linarith
qed

lemma chunk_pos: "cursor < stop \<Longrightarrow> 0 < chunk_len cursor stop"
  using next_bound_greater [of cursor] by (simp add: chunk_len_def)

lemma chunk_le: "chunk_len cursor stop \<le> stop - cursor"
  by (simp add: chunk_len_def)

text \<open>After a chunk the loop stands at its end, or past the stop.\<close>

lemma chunk_next:
  "cursor < stop \<Longrightarrow> (next_bound cursor = cursor + chunk_len cursor stop \<and> next_bound cursor \<le> stop)
     \<or> (stop < next_bound cursor \<and> cursor + chunk_len cursor stop = stop)"
  using next_bound_greater [of cursor] by (auto simp: chunk_len_def min_def)

lemma cursor_div_mod: "cursor div OBJ_SIZE * OBJ_SIZE + mask_lo cursor = cursor"
  by (simp add: mask_lo_mod)

lemma cursor_floor_le: "cursor div OBJ_SIZE * OBJ_SIZE \<le> cursor"
  using cursor_div_mod [of cursor] by linarith

text \<open>Induction along the loops\<close>

lemma chunk_induct [case_names chunk]:
  assumes "\<And>cursor. (cursor < stop \<Longrightarrow> P (next_bound cursor)) \<Longrightarrow> P cursor"
  shows "P cursor"
proof (induction "stop - cursor" arbitrary: cursor rule: less_induct)
  case less
  show ?case
    by (rule assms, rule less) (use next_bound_greater [of cursor] in simp)
qed

text \<open>Every value the loops compute is an \<open>off_t\<close>.\<close>

lemma chunk_fits_off_t:
  "cursor < stop \<Longrightarrow> stop + OBJ_SIZE \<le> 2 ^ 63 \<Longrightarrow> next_bound cursor < 2 ^ 63"
  using cursor_floor_le [of cursor] unfolding next_bound_eq mult_Suc by linarith

text \<open>\<open>zerofill\<close> writes what the loop of \<open>write\<close> would write from a buffer of zeros.\<close>

lemma zerofill_loop_eq_write_loop:
  assumes "min (stop - cursor) OBJ_SIZE \<le> z"
  shows "zerofill_loop X p cursor stop (replicate z zero_byte) s =
    (case write_loop X p cursor stop (replicate (stop - cursor) zero_byte) acc s of
       (Inl e, s') \<Rightarrow> (Inl e, s') | (Inr _, s') \<Rightarrow> (Inr (), s'))"
  using assms
proof (induction cursor arbitrary: acc s rule: chunk_induct [of stop])
  case (chunk cursor)
  show ?case
  proof (cases "cursor < stop")
    case True
    have len: "chunk_len cursor stop \<le> z" "chunk_len cursor stop \<le> stop - cursor"
      "stop - cursor - chunk_len cursor stop = stop - next_bound cursor"
      using chunk.prems chunk_le [of cursor stop] chunk_within [of cursor stop] chunk_next [OF True] by auto
    have IH: "zerofill_loop X p (next_bound cursor) stop (replicate z zero_byte) s1 =
      (case write_loop X p (next_bound cursor) stop (replicate (stop - next_bound cursor) zero_byte) a1 s1 of
         (Inl e, s') \<Rightarrow> (Inl e, s') | (Inr _, s') \<Rightarrow> (Inr (), s'))" for a1 s1
      using chunk.prems True next_bound_greater [of cursor] by (intro chunk.IH) auto
    obtain r s1 where w: "write_obj X (obj_key p (drop_bit OBJ_BITS cursor))
        (replicate (chunk_len cursor stop) zero_byte) (mask_lo cursor) s = (r, s1)" by fastforce
    show ?thesis
      using True len w IH [of s1 "acc + projr r"]
      by (cases r) (simp_all add: zerofill_loop.simps [of X p cursor] write_loop.simps [of X p cursor]
          Let_def min_absorb1)
  qed (simp add: zerofill_loop.simps write_loop.simps)
qed

section \<open>The objects of a file\<close>

definition stripe_rep :: "(string \<rightharpoonup> bytes) \<Rightarrow> string \<Rightarrow> bytes \<Rightarrow> bool" where
  "stripe_rep M p c \<longleftrightarrow>
     (\<forall>n. case M (obj_key p n) of
            None \<Rightarrow> length c \<le> n * OBJ_SIZE
          | Some bs \<Rightarrow> n * OBJ_SIZE \<le> length c \<and> bs = take OBJ_SIZE (drop (n * OBJ_SIZE) c))"

text \<open>Objects that do not belong to file \<open>p\<close> are the same in both pools.\<close>

definition same_elsewhere :: "string \<Rightarrow> (string \<rightharpoonup> bytes) \<Rightarrow> (string \<rightharpoonup> bytes) \<Rightarrow> bool" where
  "same_elsewhere p M M1 \<longleftrightarrow> (\<forall>k. (\<forall>n. k \<noteq> obj_key p n) \<longrightarrow> M1 k = M k)"

lemma same_elsewhere_refl [simp]: "same_elsewhere p M M"
  by (simp add: same_elsewhere_def)

lemma same_elsewhere_trans:
  "same_elsewhere p M M1 \<Longrightarrow> same_elsewhere p M1 M2 \<Longrightarrow> same_elsewhere p M M2"
  by (simp add: same_elsewhere_def)

lemma same_elsewhere_upd [simp]: "same_elsewhere p M (M(obj_key p n := v))"
  by (simp add: same_elsewhere_def)

lemma stripe_rep_elsewhere:
  "same_elsewhere p M M1 \<Longrightarrow> q \<noteq> p \<Longrightarrow> stripe_rep M1 q c \<longleftrightarrow> stripe_rep M q c"
  by (simp add: stripe_rep_def same_elsewhere_def)

lemma stripe_None: "stripe_rep M p c \<Longrightarrow> M (obj_key p n) = None \<Longrightarrow> length c \<le> n * OBJ_SIZE"
  by (drule stripe_rep_def [THEN iffD1, THEN spec, of _ _ _ n]) simp

lemma stripe_Some:
  "stripe_rep M p c \<Longrightarrow> M (obj_key p n) = Some bs \<Longrightarrow>
     n * OBJ_SIZE \<le> length c \<and> bs = take OBJ_SIZE (drop (n * OBJ_SIZE) c)"
  by (drule stripe_rep_def [THEN iffD1, THEN spec, of _ _ _ n]) simp

lemma stripe_repI:
  assumes "\<And>n. M (obj_key p n) = None \<Longrightarrow> length c \<le> n * OBJ_SIZE"
    and "\<And>n bs. M (obj_key p n) = Some bs \<Longrightarrow> n * OBJ_SIZE \<le> length c \<and> bs = take OBJ_SIZE (drop (n * OBJ_SIZE) c)"
  shows "stripe_rep M p c"
  using assms by (auto simp: stripe_rep_def split: option.splits)

lemma stripe_empty: "(\<And>n. M (obj_key p n) = None) \<Longrightarrow> stripe_rep M p []"
  by (simp add: stripe_rep_def)

lemma slot_less: "m < n \<Longrightarrow> m * OBJ_SIZE + OBJ_SIZE \<le> n * OBJ_SIZE"
  using mult_le_mono1 [of "Suc m" n OBJ_SIZE] by simp

lemma slot_measure: "n * OBJ_SIZE \<le> len \<Longrightarrow> Suc len - Suc n * OBJ_SIZE < Suc len - n * OBJ_SIZE"
  unfolding mult_Suc using OBJ_SIZE_pos by linarith

text \<open>Objects are a prefix: after a missing one all are missing.\<close>

lemma stripe_later_absent:
  "stripe_rep M p c \<Longrightarrow> M (obj_key p n) = None \<Longrightarrow> n \<le> m \<Longrightarrow> M (obj_key p m) = None"
  using slot_less [of n m] stripe_None [of M p c n] stripe_Some [of M p c m] OBJ_SIZE_pos
  by (cases "m = n"; cases "M (obj_key p m)") auto

text \<open>One chunk written into its object is the chunk written into the content.\<close>

abbreviation obj_or_empty :: "(string \<rightharpoonup> bytes) \<Rightarrow> string \<Rightarrow> bytes" where
  "obj_or_empty M k \<equiv> (case M k of None \<Rightarrow> [] | Some b \<Rightarrow> b)"

lemma stripe_old_object:
  assumes "stripe_rep M p c" and "cursor \<le> length c"
  shows "obj_or_empty M (obj_key p (cursor div OBJ_SIZE)) = take OBJ_SIZE (drop (cursor div OBJ_SIZE * OBJ_SIZE) c)"
  using stripe_None [OF assms(1)] stripe_Some [OF assms(1)] by (auto split: option.splits)

lemma slice_overlay:
  assumes "n * OBJ_SIZE + lo \<le> length c" and "lo + length bs \<le> OBJ_SIZE"
  shows "overlay (take OBJ_SIZE (drop (n * OBJ_SIZE) c)) lo bs =
    take OBJ_SIZE (drop (n * OBJ_SIZE) (overlay c (n * OBJ_SIZE + lo) bs))"
proof (rule nth_equalityI)
  fix i assume "i < length (overlay (take OBJ_SIZE (drop (n * OBJ_SIZE) c)) lo bs)"
  then show "overlay (take OBJ_SIZE (drop (n * OBJ_SIZE) c)) lo bs ! i =
      take OBJ_SIZE (drop (n * OBJ_SIZE) (overlay c (n * OBJ_SIZE + lo) bs)) ! i"
    using assms by (auto simp: overlay_nth)
qed (use assms in auto)

lemma stripe_write:
  assumes rep: "stripe_rep M p c" and le: "cursor \<le> length c" and bs: "bs \<noteq> []"
    and fits: "mask_lo cursor + length bs \<le> OBJ_SIZE"
  defines "k \<equiv> obj_key p (cursor div OBJ_SIZE)"
  shows "stripe_rep (M(k \<mapsto> overlay (obj_or_empty M k) (mask_lo cursor) bs)) p (overlay c cursor bs)"
    (is "stripe_rep ?M p ?c")
proof (rule stripe_repI)
  let ?n = "cursor div OBJ_SIZE"
  have cur: "?n * OBJ_SIZE + mask_lo cursor = cursor" by (rule cursor_div_mod)
  have upto: "cursor + length bs \<le> ?n * OBJ_SIZE + OBJ_SIZE" using cur fits by linarith
  fix m
  {
    assume "?M (obj_key p m) = None"
    then have mn: "m \<noteq> ?n" and none: "M (obj_key p m) = None" by (auto simp: k_def split: if_splits)
    from stripe_None [OF rep none] have len: "length c \<le> m * OBJ_SIZE" .
    have "?n < m"
    proof (rule ccontr)
      assume "\<not> ?n < m"
      with mn have "m < ?n" by simp
      from slot_less [OF this] cur le len OBJ_SIZE_pos show False by linarith
    qed
    from slot_less [OF this] upto len show "length ?c \<le> m * OBJ_SIZE" by simp
  next
    fix d assume d: "?M (obj_key p m) = Some d"
    show "m * OBJ_SIZE \<le> length ?c \<and> d = take OBJ_SIZE (drop (m * OBJ_SIZE) ?c)"
    proof (cases "m = ?n")
      case True
      with d have "d = overlay (take OBJ_SIZE (drop (?n * OBJ_SIZE) c)) (mask_lo cursor) bs"
        by (simp add: k_def stripe_old_object [OF rep le])
      moreover have "\<dots> = take OBJ_SIZE (drop (?n * OBJ_SIZE) ?c)"
        using slice_overlay [of ?n "mask_lo cursor" c bs] cur le fits by simp
      ultimately show ?thesis using True cur le by simp
    next
      case False
      with d have "M (obj_key p m) = Some d" by (simp add: k_def)
      from stripe_Some [OF rep this] have m: "m * OBJ_SIZE \<le> length c"
        "d = take OBJ_SIZE (drop (m * OBJ_SIZE) c)" by auto
      from False consider "m < ?n" | "?n < m" by linarith
      then have "take OBJ_SIZE (drop (m * OBJ_SIZE) ?c) = take OBJ_SIZE (drop (m * OBJ_SIZE) c)"
      proof cases
        case 1
        from slot_less [OF this] cur le show ?thesis by (intro overlay_read_before) linarith+
      next
        case 2
        from slot_less [OF this] upto show ?thesis by (intro overlay_read_after) linarith
      qed
      with m show ?thesis by simp
    qed
  }
qed

text \<open>All objects of file \<open>p\<close> from number \<open>n\<close> on are gone.\<close>

definition drop_objs :: "string \<Rightarrow> nat \<Rightarrow> (string \<rightharpoonup> bytes) \<Rightarrow> (string \<rightharpoonup> bytes)" where
  "drop_objs p n M = (\<lambda>k. if \<exists>m \<ge> n. k = obj_key p m then None else M k)"

lemma drop_objs_key: "drop_objs p n M (obj_key p m) = (if n \<le> m then None else M (obj_key p m))"
  by (auto simp: drop_objs_def)

lemma drop_objs_elsewhere [simp]: "same_elsewhere p M (drop_objs p n M)"
  by (auto simp: same_elsewhere_def drop_objs_def)

lemma drop_objs_Suc: "drop_objs p (Suc n) (M(obj_key p n := None)) = drop_objs p n M"
proof
  fix k show "drop_objs p (Suc n) (M(obj_key p n := None)) k = drop_objs p n M k"
  proof (cases "\<exists>m. k = obj_key p m")
    case True
    then show ?thesis by (auto simp: drop_objs_key)
  qed (auto simp: drop_objs_def)
qed

lemma drop_objs_none: "(\<And>m. n \<le> m \<Longrightarrow> M (obj_key p m) = None) \<Longrightarrow> drop_objs p n M = M"
  by (auto simp: drop_objs_def fun_eq_iff)

lemma stripe_drop_all: "stripe_rep (drop_objs p 0 M) p []"
  by (rule stripe_empty) (simp add: drop_objs_key)

lemma stripe_truncate:
  assumes rep: "stripe_rep M p c" and off: "off \<le> length c" and d: "M (obj_key p (off div OBJ_SIZE)) = Some d"
  shows "stripe_rep (drop_objs p (Suc (off div OBJ_SIZE)) (M(obj_key p (off div OBJ_SIZE) \<mapsto> take (mask_lo off) d)))
    p (take off c)" (is "stripe_rep ?M p ?c")
proof (rule stripe_repI)
  let ?n = "off div OBJ_SIZE"
  have cur: "?n * OBJ_SIZE + mask_lo off = off" by (rule cursor_div_mod)
  have lo: "mask_lo off < OBJ_SIZE" by (simp add: mask_lo_mod)
  have diff: "off - ?n * OBJ_SIZE = mask_lo off" using cur by linarith
  fix m
  {
    assume "?M (obj_key p m) = None"
    then consider "?n < m" | "m < ?n" "M (obj_key p m) = None"
      by (auto simp: drop_objs_key split: if_splits)
    then show "length ?c \<le> m * OBJ_SIZE"
    proof cases
      case 1
      from slot_less [OF this] cur lo off show ?thesis by simp
    next
      case 2
      from stripe_None [OF rep this(2)] slot_less [OF this(1)] cur off OBJ_SIZE_pos show ?thesis by linarith
    qed
  next
    fix b assume b: "?M (obj_key p m) = Some b"
    then have m: "m \<le> ?n" by (auto simp: drop_objs_key split: if_splits)
    show "m * OBJ_SIZE \<le> length ?c \<and> b = take OBJ_SIZE (drop (m * OBJ_SIZE) ?c)"
    proof (cases "m = ?n")
      case True
      with b stripe_Some [OF rep d] show ?thesis
        using cur lo off by (auto simp: drop_objs_key drop_take diff min_def)
    next
      case False
      with m have "m < ?n" by simp
      with b stripe_Some [OF rep, of m b] slot_less [OF this] cur off show ?thesis
        by (auto simp: drop_objs_key drop_take min_def)
    qed
  }
qed

section \<open>The documented behaviour of librados\<close>

locale librados =
  fixes X :: "'s ext" and objs :: "'s \<Rightarrow> string \<rightharpoonup> bytes"
  assumes stat_absent:
      "objs s k = None \<Longrightarrow> \<exists>n s'. io_stat X k s = ((- ENOENT, n), s') \<and> objs s' = objs s"
    and stat_present:
      "objs s k = Some c \<Longrightarrow> \<exists>r s'. io_stat X k s = ((r, length c), s') \<and> 0 \<le> r \<and> objs s' = objs s"
    and read_absent:
      "objs s k = None \<Longrightarrow> \<exists>b s'. io_read X k len off s = ((- ENOENT, b), s') \<and> objs s' = objs s"
    and read_present:
      "objs s k = Some c \<Longrightarrow>
         \<exists>s'. io_read X k len off s = ((int (length (take len (drop off c))), take len (drop off c)), s')
              \<and> objs s' = objs s"
    and write_ok:
      "bs \<noteq> [] \<Longrightarrow>
         \<exists>r s'. io_write X k bs off s = (r, s') \<and> 0 \<le> r
              \<and> objs s' = (objs s)(k \<mapsto> overlay (obj_or_empty (objs s) k) off bs)"
    and remove_absent:
      "objs s k = None \<Longrightarrow> \<exists>s'. io_remove X k s = (- ENOENT, s') \<and> objs s' = objs s"
    and remove_present:
      "objs s k = Some c \<Longrightarrow> \<exists>r s'. io_remove X k s = (r, s') \<and> 0 \<le> r \<and> objs s' = (objs s)(k := None)"
    and trunc_present:
      "objs s k = Some c \<Longrightarrow>
         \<exists>s'. io_trunc X k n s = (0, s')
              \<and> objs s' = (objs s)(k \<mapsto> take n (c @ replicate (n - length c) zero_byte))"
begin

text \<open>One object\<close>

lemma read_obj_absent:
  "objs s k = None \<Longrightarrow> \<exists>s'. read_obj X k len off s = (Inl (No_such_object 0), s') \<and> objs s' = objs s"
  using read_absent [of s k len off] by (auto simp: read_obj_def ENOENT_def)

lemma read_obj_present:
  "objs s k = Some c \<Longrightarrow> \<exists>s'. read_obj X k len off s = (Inr (take len (drop off c)), s') \<and> objs s' = objs s"
  using read_present [of s k c len off] by (auto simp: read_obj_def min_def)

lemma write_obj_ok:
  "bs \<noteq> [] \<Longrightarrow> \<exists>s'. write_obj X k bs off s = (Inr (length bs), s')
     \<and> objs s' = (objs s)(k \<mapsto> overlay (obj_or_empty (objs s) k) off bs)"
  using write_ok [of bs k off s] by (auto simp: write_obj_def)

lemma truncate_obj_present:
  "objs s k = Some c \<Longrightarrow> \<exists>s'. truncate_obj X k n s = (Inr (), s')
     \<and> objs s' = (objs s)(k \<mapsto> take n (c @ replicate (n - length c) zero_byte))"
  using trunc_present [of s k c n] by (auto simp: truncate_obj_def)

text \<open>Writing a chunk keeps the representation.\<close>

lemma write_chunk:
  assumes "stripe_rep (objs s) p c" and "cursor \<le> length c" and "bs \<noteq> []"
    and "mask_lo cursor + length bs \<le> OBJ_SIZE"
  obtains s' where "write_obj X (obj_key p (drop_bit OBJ_BITS cursor)) bs (mask_lo cursor) s = (Inr (length bs), s')"
    and "stripe_rep (objs s') p (overlay c cursor bs)" and "same_elsewhere p (objs s) (objs s')"
proof -
  obtain s' where w: "write_obj X (obj_key p (drop_bit OBJ_BITS cursor)) bs (mask_lo cursor) s = (Inr (length bs), s')"
    and o: "objs s' = (objs s)(obj_key p (cursor div OBJ_SIZE) \<mapsto>
      overlay (obj_or_empty (objs s) (obj_key p (cursor div OBJ_SIZE))) (mask_lo cursor) bs)"
    using write_obj_ok [OF assms(3)] unfolding drop_bit_div by blast
  show thesis
    using w stripe_write [OF assms] by (intro that [of s']) (auto simp: o)
qed

lemma write_loop_ok:
  assumes "stripe_rep (objs s) p c" and "length bs = stop - cursor" and "bs = [] \<or> cursor \<le> length c"
  shows "\<exists>s'. write_loop X p cursor stop bs acc s = (Inr (acc + length bs), s')
    \<and> stripe_rep (objs s') p (if bs = [] then c else overlay c cursor bs)
    \<and> same_elsewhere p (objs s) (objs s')"
  using assms
proof (induction cursor arbitrary: c bs acc s rule: chunk_induct [of stop])
  case (chunk cursor)
  show ?case
  proof (cases "cursor < stop")
    case False
    with chunk.prems show ?thesis by (simp add: write_loop.simps)
  next
    case True
    let ?k = "chunk_len cursor stop"
    have k: "0 < ?k" "?k \<le> length bs" using chunk_pos [OF True] chunk_le [of cursor stop] chunk.prems(2) by auto
    with chunk.prems(3) have le: "cursor \<le> length c" by auto
    from k have len: "length (take ?k bs) = ?k" by simp
    obtain s1 where w: "write_obj X (obj_key p (drop_bit OBJ_BITS cursor)) (take ?k bs) (mask_lo cursor) s = (Inr ?k, s1)"
      and rep: "stripe_rep (objs s1) p (overlay c cursor (take ?k bs))"
      and el: "same_elsewhere p (objs s) (objs s1)"
      using write_chunk [OF chunk.prems(1) le, of "take ?k bs"] k chunk_within [of cursor stop] len
      by (metis length_0_conv not_gr_zero)
    have nxt: "length (drop ?k bs) = stop - next_bound cursor"
      and reach: "drop ?k bs = [] \<or> next_bound cursor = cursor + ?k"
      using chunk_next [OF True] k chunk.prems(2) by auto
    have le1: "drop ?k bs = [] \<or> next_bound cursor \<le> length (overlay c cursor (take ?k bs))"
      using reach len by auto
    obtain s2 where loop: "write_loop X p (next_bound cursor) stop (drop ?k bs) (acc + ?k) s1
        = (Inr (acc + ?k + length (drop ?k bs)), s2)"
      and rep2: "stripe_rep (objs s2) p (if drop ?k bs = [] then overlay c cursor (take ?k bs)
        else overlay (overlay c cursor (take ?k bs)) (next_bound cursor) (drop ?k bs))"
      and el2: "same_elsewhere p (objs s1) (objs s2)"
      using chunk.IH [OF True rep nxt le1] by blast
    have "(if drop ?k bs = [] then overlay c cursor (take ?k bs)
        else overlay (overlay c cursor (take ?k bs)) (next_bound cursor) (drop ?k bs)) = overlay c cursor bs"
      using reach overlay_overlay_adjacent [OF le, of "take ?k bs" "drop ?k bs"] len by auto
    with w loop rep2 el el2 k True show ?thesis
      by (auto simp: write_loop.simps [of X p cursor] Let_def intro: same_elsewhere_trans)
  qed
qed

text \<open>Reading: the bytes stored are those of the content, whether the call returns or throws.\<close>

lemma read_loop_ok:
  assumes "stripe_rep (objs s) p c"
  shows "\<exists>r s'. read_loop X p cursor stop val s = (r, val @ take (stop - cursor) (drop cursor c), s')
    \<and> objs s' = objs s
    \<and> (r = Inr (length (val @ take (stop - cursor) (drop cursor c)))
       \<or> r = Inl (No_such_object (length (val @ take (stop - cursor) (drop cursor c)))) \<and> length c < stop)"
  using assms
proof (induction cursor arbitrary: val s rule: chunk_induct [of stop])
  case (chunk cursor)
  show ?case
  proof (cases "cursor < stop")
    case False
    then show ?thesis by (simp add: read_loop.simps)
  next
    case True
    let ?k = "chunk_len cursor stop" and ?o = "obj_key p (cursor div OBJ_SIZE)"
    show ?thesis
    proof (cases "objs s ?o")
      case None
      from stripe_None [OF chunk.prems this] cursor_floor_le [of cursor] have "length c \<le> cursor" by linarith
      with True read_obj_absent [OF None, of ?k "mask_lo cursor"] show ?thesis
        by (auto simp: read_loop.simps [of X p cursor] drop_bit_div)
    next
      case (Some d)
      from stripe_Some [OF chunk.prems this] have "take ?k (drop (mask_lo cursor) d) = take ?k (drop cursor c)"
        using chunk_within [of cursor stop] cursor_div_mod [of cursor, unfolded add.commute [of "_ * _"]]
        by (auto simp: drop_take min_def)
      with read_obj_present [OF Some, of ?k "mask_lo cursor"] obtain s1
        where r: "read_obj X ?o ?k (mask_lo cursor) s = (Inr (take ?k (drop cursor c)), s1)"
          and o: "objs s1 = objs s" by auto
      have split: "take ?k (drop cursor c) @ take (stop - next_bound cursor) (drop (next_bound cursor) c)
          = take (stop - cursor) (drop cursor c)"
        using chunk_next [OF True]
      proof
        assume *: "next_bound cursor = cursor + ?k \<and> next_bound cursor \<le> stop"
        then have "stop - cursor = ?k + (stop - next_bound cursor)" using True by linarith
        then have "take (stop - cursor) (drop cursor c) = take (?k + (stop - next_bound cursor)) (drop cursor c)"
          by (rule arg_cong)
        also have "\<dots> = take ?k (drop cursor c) @ take (stop - next_bound cursor) (drop (next_bound cursor) c)"
          using * by (simp only: take_add drop_drop add.commute)
        finally show ?thesis by (rule sym)
      next
        assume *: "stop < next_bound cursor \<and> cursor + ?k = stop"
        then have "stop - cursor = ?k" by linarith
        with * show ?thesis by simp
      qed
      have loop: "read_loop X p cursor stop val s = read_loop X p (next_bound cursor) stop (val @ take ?k (drop cursor c)) s1"
        using True r by (simp add: read_loop.simps [of X p cursor] drop_bit_div)
      from chunk.prems o have "stripe_rep (objs s1) p c" by simp
      from chunk.IH [OF True this, of "val @ take ?k (drop cursor c)"] show ?thesis
        unfolding loop append_assoc split o by blast
    qed
  qed
qed

text \<open>The search for the end of the file below an offset\<close>

lemma lb_scan_ok:
  assumes "stripe_rep (objs s) p c"
  shows "\<exists>f s'. lb_scan X p msg n s = (Inr f, s') \<and> objs s' = objs s
    \<and> (case f of None \<Rightarrow> c = [] \<and> (\<forall>m. objs s (obj_key p m) = None)
         | Some lb \<Rightarrow> lb = min (length c) (n * OBJ_SIZE + OBJ_SIZE)) \<and> (f = None \<longrightarrow> c = [])"
  using assms
proof (induction n arbitrary: s)
  case 0
  show ?case
  proof (cases "objs s (obj_key p 0)")
    case None
    from stat_absent [OF None] obtain z s1
      where st: "io_stat X (obj_key p 0) s = ((- ENOENT, z), s1)" "objs s1 = objs s" by auto
    have "c = []" using stripe_None [OF 0 None] by simp
    moreover have "objs s (obj_key p m) = None" for m using stripe_later_absent [OF 0 None] by simp
    ultimately show ?thesis using st by (simp add: lb_scan.simps [of X p msg 0] ENOENT_def)
  next
    case (Some d)
    from stat_present [OF Some] obtain r s1
      where st: "io_stat X (obj_key p 0) s = ((r, length d), s1)" "objs s1 = objs s" "0 \<le> r" by auto
    with stripe_Some [OF 0 Some] show ?thesis
      by (simp add: lb_scan.simps [of X p msg 0] push_bit_mult min.commute)
  qed
next
  case (Suc n)
  show ?case
  proof (cases "objs s (obj_key p (Suc n))")
    case None
    from stat_absent [OF None] obtain z s1
      where st: "io_stat X (obj_key p (Suc n)) s = ((- ENOENT, z), s1)" "objs s1 = objs s" by auto
    then have "lb_scan X p msg (Suc n) s = lb_scan X p msg n s1"
      by (simp add: lb_scan.simps [of X p msg "Suc n"] ENOENT_def)
    moreover have "length c \<le> n * OBJ_SIZE + OBJ_SIZE" using stripe_None [OF Suc.prems None] by simp
    ultimately show ?thesis using Suc.IH [of s1] Suc.prems st(2) by (fastforce split: option.splits)
  next
    case (Some d)
    from stat_present [OF Some] obtain r s1
      where st: "io_stat X (obj_key p (Suc n)) s = ((r, length d), s1)" "objs s1 = objs s" "0 \<le> r" by auto
    with stripe_Some [OF Suc.prems Some] show ?thesis
      by (simp add: lb_scan.simps [of X p msg "Suc n"] push_bit_mult min_def) linarith
  qed
qed

lemma zerofill_ok:
  assumes "stripe_rep (objs s) (pool_key cat key) c" and "length c = off"
  shows "\<exists>s'. zerofill X cat key len off s = (Inr (), s')
    \<and> stripe_rep (objs s') (pool_key cat key) (c @ replicate len zero_byte)
    \<and> same_elsewhere (pool_key cat key) (objs s) (objs s')"
  using write_loop_ok [OF assms(1), of "replicate len zero_byte" "off + len" off 0] assms(2)
  by (auto simp: zerofill_def zerofill_loop_eq_write_loop [where acc = 0] overlay_at_end split: if_splits)

lemma write_lb_ok:
  assumes "stripe_rep (objs s) p c"
  obtains f s' where "lb_scan X p msg (drop_bit OBJ_BITS off) s = (Inr f, s')" and "objs s' = objs s"
    and "(case f of None \<Rightarrow> 0 | Some lb \<Rightarrow> lb) < off \<longrightarrow> (case f of None \<Rightarrow> 0 | Some lb \<Rightarrow> lb) = length c"
    and "\<not> (case f of None \<Rightarrow> 0 | Some lb \<Rightarrow> lb) < off \<longrightarrow> off \<le> length c"
    and "f = None \<longrightarrow> c = []"
proof -
  obtain f s' where f: "lb_scan X p msg (off div OBJ_SIZE) s = (Inr f, s')" "objs s' = objs s"
    and lb: "case f of None \<Rightarrow> c = [] | Some lb \<Rightarrow> lb = min (length c) (off div OBJ_SIZE * OBJ_SIZE + OBJ_SIZE)"
    using lb_scan_ok [OF assms, of msg "off div OBJ_SIZE"] by (auto split: option.splits)
  have "off < off div OBJ_SIZE * OBJ_SIZE + OBJ_SIZE"
    using next_bound_greater [of off] by (simp add: next_bound_eq add.commute)
  with f lb show thesis
    by (intro that [of f s']) (auto simp: drop_bit_div split: option.splits)
qed

lemma rados_write_ok:
  assumes rep: "stripe_rep (objs s) (pool_key cat key) c"
  shows "\<exists>s'. rados_write X cat key bs off s = (Inr (length bs), s')
    \<and> stripe_rep (objs s') (pool_key cat key) (if bs = [] then c @ replicate (off - length c) zero_byte else overlay c off bs)
    \<and> same_elsewhere (pool_key cat key) (objs s) (objs s')"
proof -
  let ?p = "pool_key cat key"
  define lb where "lb f = (case f of None \<Rightarrow> 0 | Some (n::nat) \<Rightarrow> n)" for f
  obtain f s1 where f: "lb_scan X ?p ''rados_io::write() failed (stat() failed)'' (drop_bit OBJ_BITS off) s = (Inr f, s1)"
    "objs s1 = objs s" "lb f < off \<longrightarrow> lb f = length c" "\<not> lb f < off \<longrightarrow> off \<le> length c"
    using write_lb_ok [OF rep] unfolding lb_def by metis
  let ?c = "c @ replicate (off - length c) zero_byte"
  have "\<exists>s2. (if lb f < off then zerofill X cat key (off - lb f) (lb f) s1 else (Inr (), s1)) = (Inr (), s2)
      \<and> stripe_rep (objs s2) ?p ?c \<and> same_elsewhere ?p (objs s) (objs s2)"
    using zerofill_ok [of s1 cat key c "lb f" "off - lb f"] f(2-) rep by (cases "lb f < off") auto
  then obtain s2 where s2: "(if lb f < off then zerofill X cat key (off - lb f) (lb f) s1 else (Inr (), s1)) = (Inr (), s2)"
    "stripe_rep (objs s2) ?p ?c" "same_elsewhere ?p (objs s) (objs s2)" by blast
  obtain s3 where s3: "write_loop X ?p off (off + length bs) bs 0 s2 = (Inr (length bs), s3)"
    "stripe_rep (objs s3) ?p (if bs = [] then ?c else overlay ?c off bs)" "same_elsewhere ?p (objs s2) (objs s3)"
    using write_loop_ok [OF s2(2), of bs "off + length bs" off 0] by (force simp: le_diff_conv)
  have "overlay ?c off bs = overlay c off bs"
    by (rule nth_equalityI) (auto simp: overlay_nth nth_append)
  moreover have "rados_write X cat key bs off s = (Inr (length bs), s3)"
    using f(1) s2(1) s3(1)
    by (cases f; cases "lb f < off") (simp_all add: rados_write_def Let_def lb_def)
  ultimately show ?thesis using s3 s2(3) by (auto intro: same_elsewhere_trans)
qed

lemma rados_read_ok:
  assumes "stripe_rep (objs s) (pool_key cat key) c"
  shows "\<exists>r s'. rados_read X cat key len off s = (r, take len (drop off c), s') \<and> objs s' = objs s
    \<and> (r = Inr (length (take len (drop off c)))
       \<or> r = Inl (No_such_object (length (take len (drop off c)))) \<and> length c < off + len)"
  using read_loop_ok [OF assms, of off "off + len" "[]"] unfolding rados_read_def by simp

text \<open>The loops that run to the first missing object\<close>

lemma stat_loop_ok:
  assumes "stripe_rep (objs s) p c" and "n * OBJ_SIZE \<le> length c \<or> n = 0 \<or> objs s (obj_key p n) = None"
  shows "\<exists>s'. stat_loop X p n z s =
      Some (Inr (n \<noteq> 0 \<or> objs s (obj_key p 0) \<noteq> None, z + length (drop (n * OBJ_SIZE) c)), s') \<and> objs s' = objs s"
  using assms
proof (induction "Suc (length c) - n * OBJ_SIZE" arbitrary: n z s rule: less_induct)
  case less
  show ?case
  proof (cases "objs s (obj_key p n)")
    case None
    with stat_absent [OF None] stripe_None [OF less.prems(1) None] show ?thesis
      by (auto simp: stat_loop.simps [of X p n])
  next
    case (Some d)
    from stripe_Some [OF less.prems(1) Some]
    have d: "n * OBJ_SIZE \<le> length c" "d = take OBJ_SIZE (drop (n * OBJ_SIZE) c)" by auto
    from stat_present [OF Some] obtain r s1
      where st: "io_stat X (obj_key p n) s = ((r, length d), s1)" "0 \<le> r" "objs s1 = objs s" by auto
    have step: "stat_loop X p n z s = stat_loop X p (Suc n) (z + length d) s1"
      using st by (simp add: stat_loop.simps [of X p n] ENOENT_def)
    have "Suc (length c) - Suc n * OBJ_SIZE < Suc (length c) - n * OBJ_SIZE"
      using d(1) by (rule slot_measure)
    moreover have "Suc n * OBJ_SIZE \<le> length c \<or> Suc n = 0 \<or> objs s1 (obj_key p (Suc n)) = None"
      using stripe_Some [OF less.prems(1), of "Suc n"] st(3) by (cases "objs s (obj_key p (Suc n))") auto
    ultimately obtain s' where
      "stat_loop X p (Suc n) (z + length d) s1 =
        Some (Inr (True, z + length d + length (drop (Suc n * OBJ_SIZE) c)), s')" "objs s' = objs s1"
      using less.hyps [of "Suc n" s1 "z + length d"] less.prems(1) st(3) by auto
    moreover have "length d + length (drop (Suc n * OBJ_SIZE) c) = length (drop (n * OBJ_SIZE) c)"
      using d by simp
    ultimately show ?thesis using step st(3) Some
      by (cases "n = 0") auto
  qed
qed

lemma rados_stat_ok:
  assumes "stripe_rep (objs s) (pool_key cat key) c"
  shows "\<exists>s'. rados_stat X cat key s =
    Some (Inr (objs s (obj_key (pool_key cat key) 0) \<noteq> None, length c), s') \<and> objs s' = objs s"
  using stat_loop_ok [OF assms, of 0 0] by (simp add: rados_stat_def)

lemma remove_loop_ok:
  assumes "stripe_rep M p c" and "\<And>m. n \<le> m \<Longrightarrow> objs s (obj_key p m) = M (obj_key p m)"
  shows "\<exists>s'. remove_loop X p n s = Some (Inr (), s') \<and> objs s' = drop_objs p n (objs s)"
  using assms
proof (induction "Suc (length c) - n * OBJ_SIZE" arbitrary: n s rule: less_induct)
  case less
  show ?case
  proof (cases "M (obj_key p n)")
    case None
    then have "drop_objs p n (objs s) = objs s"
      using stripe_later_absent [OF less.prems(1) None] less.prems(2) by (intro drop_objs_none) simp
    with remove_absent [of s "obj_key p n"] None less.prems(2) [of n] show ?thesis
      by (auto simp: remove_loop.simps [of X p n])
  next
    case (Some d)
    from stripe_Some [OF less.prems(1) Some] have d: "n * OBJ_SIZE \<le> length c" by auto
    from remove_present [of s "obj_key p n" d] Some less.prems(2) [of n] obtain r s1
      where st: "io_remove X (obj_key p n) s = (r, s1)" "0 \<le> r" "objs s1 = (objs s)(obj_key p n := None)" by auto
    have "Suc (length c) - Suc n * OBJ_SIZE < Suc (length c) - n * OBJ_SIZE"
      using d by (rule slot_measure)
    then obtain s' where s': "remove_loop X p (Suc n) s1 = Some (Inr (), s')" "objs s' = drop_objs p (Suc n) (objs s1)"
      using less.hyps [of "Suc n" s1] less.prems st(3) by auto
    moreover have "drop_objs p (Suc n) (objs s1) = drop_objs p n (objs s)"
      by (simp add: st(3) drop_objs_Suc)
    ultimately show ?thesis using st by (simp add: remove_loop.simps [of X p n] ENOENT_def)
  qed
qed

lemma rados_remove_ok:
  assumes "stripe_rep (objs s) (pool_key cat key) c"
  shows "\<exists>s'. rados_remove X cat key s = Some (Inr (), s') \<and> objs s' = drop_objs (pool_key cat key) 0 (objs s)"
  using remove_loop_ok [OF assms] unfolding rados_remove_def by blast

lemma trunc_tail_loop_ok:
  assumes "stripe_rep M p c" and "\<And>m. n < m \<Longrightarrow> objs s (obj_key p m) = M (obj_key p m)"
  shows "\<exists>s'. trunc_tail_loop X p n s = Some (Inr 0, s') \<and> objs s' = drop_objs p (Suc n) (objs s)"
  using assms
proof (induction "Suc (length c) - Suc n * OBJ_SIZE" arbitrary: n s rule: less_induct)
  case less
  show ?case
  proof (cases "M (obj_key p (Suc n))")
    case None
    then have "drop_objs p (Suc n) (objs s) = objs s"
      using stripe_later_absent [OF less.prems(1) None] less.prems(2) by (intro drop_objs_none) simp
    with stat_absent [of s "obj_key p (Suc n)"] None less.prems(2) [of "Suc n"] show ?thesis
      by (auto simp: trunc_tail_loop.simps [of X p n] ENOENT_def)
  next
    case (Some d)
    from stripe_Some [OF less.prems(1) Some] have d: "Suc n * OBJ_SIZE \<le> length c" by auto
    from Some less.prems(2) [of "Suc n"] have here: "objs s (obj_key p (Suc n)) = Some d" by simp
    from stat_present [OF here] obtain r s1
      where st: "io_stat X (obj_key p (Suc n)) s = ((r, length d), s1)" "0 \<le> r" "objs s1 = objs s" by auto
    from remove_present [of s1 "obj_key p (Suc n)" d] here st(3) obtain r2 s2
      where rm: "io_remove X (obj_key p (Suc n)) s1 = (r2, s2)" "objs s2 = (objs s)(obj_key p (Suc n) := None)" by auto
    have "Suc (length c) - Suc (Suc n) * OBJ_SIZE < Suc (length c) - Suc n * OBJ_SIZE"
      using d by (rule slot_measure)
    then obtain s' where "trunc_tail_loop X p (Suc n) s2 = Some (Inr 0, s')"
      "objs s' = drop_objs p (Suc (Suc n)) (objs s2)"
      using less.hyps [of "Suc n" s2] less.prems rm(2) by auto
    with st rm show ?thesis
      by (simp add: trunc_tail_loop.simps [of X p n] drop_objs_Suc)
  qed
qed

text \<open>
  Truncation gives the first \<open>off\<close> bytes, extended with zeros. The case left out is a file cut
  to the length it has when that is a whole number of objects: there the code truncates an
  object that does not exist, on which the documentation of \<open>librados\<close> is silent.
\<close>

lemma rados_truncate_ok:
  assumes rep: "stripe_rep (objs s) (pool_key cat key) c"
    and not_edge: "\<not> (off = length c \<and> 0 < off \<and> off mod OBJ_SIZE = 0)"
  shows "\<exists>s'. rados_truncate X cat key off s = Some (Inr 0, s')
    \<and> stripe_rep (objs s') (pool_key cat key) (take off c @ replicate (off - length c) zero_byte)
    \<and> same_elsewhere (pool_key cat key) (objs s) (objs s')"
proof -
  let ?p = "pool_key cat key" and ?n = "off div OBJ_SIZE"
  let ?msg = "''rados_io::truncate() failed (stat() failed)''"
  obtain f s1 where f: "lb_scan X ?p ?msg (drop_bit OBJ_BITS off) s = (Inr f, s1)" and s1: "objs s1 = objs s"
    and lt: "(case f of None \<Rightarrow> 0 | Some lb \<Rightarrow> lb) < off \<longrightarrow> (case f of None \<Rightarrow> 0 | Some lb \<Rightarrow> lb) = length c"
    and ge: "\<not> (case f of None \<Rightarrow> 0 | Some lb \<Rightarrow> lb) < off \<longrightarrow> off \<le> length c"
    and none: "f = None \<longrightarrow> c = []"
    using write_lb_ok [OF rep] by metis
  have rep1: "stripe_rep (objs s1) ?p c" using rep s1 by simp
  consider (empty) "f = None" | (grow) lb where "f = Some lb" "lb < off"
    | (cut) lb where "f = Some lb" "\<not> lb < off" by (cases f) auto
  then show ?thesis
  proof cases
    case empty
    with none have "c = []" by simp
    with empty f s1 rep1 zerofill_ok [of s1 cat key c 0 off] show ?thesis
      by (auto simp: rados_truncate_def Let_def)
  next
    case grow
    with lt have "lb = length c" by simp
    with grow f s1 rep1 zerofill_ok [of s1 cat key c lb "off - lb"] show ?thesis
      by (auto simp: rados_truncate_def Let_def)
  next
    case cut
    with ge have off: "off \<le> length c" by simp
    have "objs s (obj_key ?p ?n) \<noteq> None"
    proof
      assume *: "objs s (obj_key ?p ?n) = None"
      from stripe_None [OF rep *] off cursor_floor_le [of off] have "off = length c" by linarith
      moreover from this stripe_None [OF rep *] cursor_div_mod [of off] have "off mod OBJ_SIZE = 0"
        unfolding mask_lo_mod by linarith
      moreover have "off \<noteq> 0"
      proof
        assume "off = 0"
        with f cut * stat_absent [of s "obj_key ?p 0"] show False
          by (auto simp: lb_scan.simps [of X ?p ?msg 0] ENOENT_def)
      qed
      ultimately show False using not_edge by simp
    qed
    then obtain d where d: "objs s (obj_key ?p ?n) = Some d" by blast
    have lo: "mask_lo off \<le> length d" "off - push_bit OBJ_BITS ?n = mask_lo off"
      using stripe_Some [OF rep d] off cursor_div_mod [of off] mod_less_divisor [OF OBJ_SIZE_pos, of off]
      by (auto simp: push_bit_mult mask_lo_mod [symmetric])
    from truncate_obj_present [of s1 "obj_key ?p ?n" d "mask_lo off"] d s1 lo obtain s2
      where tr: "truncate_obj X (obj_key ?p ?n) (mask_lo off) s1 = (Inr (), s2)"
        and s2: "objs s2 = (objs s)(obj_key ?p ?n \<mapsto> take (mask_lo off) d)" by auto
    obtain s3 where tl: "trunc_tail_loop X ?p ?n s2 = Some (Inr 0, s3)"
      and s3: "objs s3 = drop_objs ?p (Suc ?n) (objs s2)"
      using trunc_tail_loop_ok [OF rep, of ?n s2] s2 by auto
    have "stripe_rep (objs s3) ?p (take off c)"
      using stripe_truncate [OF rep off d] by (simp add: s3 s2)
    moreover have "same_elsewhere ?p (objs s) (objs s3)"
      unfolding s3 s2 by (rule same_elsewhere_trans [OF same_elsewhere_upd drop_objs_elsewhere])
    ultimately show ?thesis
      using cut f tr tl lo off by (simp add: rados_truncate_def Let_def drop_bit_div)
  qed
qed

end

end
