(* ===== verification/File_Store.thy ===== *)
theory File_Store
  imports Rados_Spec
begin

text \<open>
  The contract of the storage layer, as the metadata, journal and session code rely on it: named
  byte files that can be read, written at an offset, measured and removed, without interference
  between files. \<open>rados_io\<close> provides it on top of any cluster that behaves as \<open>librados\<close>
  documents, and the in-memory cluster at the end shows that such clusters exist.
\<close>

locale file_store =
  fixes fread :: "obj_category \<Rightarrow> string \<Rightarrow> nat \<Rightarrow> nat \<Rightarrow> 's \<Rightarrow> 's read_outcome"
    and fwrite :: "obj_category \<Rightarrow> string \<Rightarrow> bytes \<Rightarrow> nat \<Rightarrow> (nat, 's) step"
    and fstat :: "obj_category \<Rightarrow> string \<Rightarrow> (bool \<times> nat, 's) prog"
    and fremove :: "obj_category \<Rightarrow> string \<Rightarrow> (unit, 's) prog"
    and file_is :: "'s \<Rightarrow> obj_category \<Rightarrow> string \<Rightarrow> bytes \<Rightarrow> bool"
    and present :: "'s \<Rightarrow> obj_category \<Rightarrow> string \<Rightarrow> bool"
  assumes absent_empty: "file_is s a k c \<Longrightarrow> \<not> present s a k \<Longrightarrow> c = []"
    and fread_file: "file_is s a k c \<Longrightarrow>
      \<exists>r s'. fread a k len off s = (r, take len (drop off c), s')
        \<and> (\<forall>b j d. (file_is s' b j d \<longleftrightarrow> file_is s b j d) \<and> (present s' b j \<longleftrightarrow> present s b j))
        \<and> (r = Inr (length (take len (drop off c)))
           \<or> r = Inl (No_such_object (length (take len (drop off c)))) \<and> length c < off + len)"
    and fread_absent: "file_is s a k c \<Longrightarrow> \<not> present s a k \<Longrightarrow> 0 < len \<Longrightarrow>
      fst (fread a k len off s) = Inl (No_such_object 0)"
    and fread_first: "file_is s a k c \<Longrightarrow> present s a k \<Longrightarrow> len \<le> OBJ_SIZE \<Longrightarrow>
      fst (fread a k len 0 s) = Inr (length (take len c))"
    and fwrite_file: "file_is s a k c \<Longrightarrow> bs \<noteq> [] \<Longrightarrow>
      \<exists>s'. fwrite a k bs off s = (Inr (length bs), s') \<and> file_is s' a k (overlay c off bs) \<and> present s' a k
        \<and> (\<forall>b j d. (b, j) \<noteq> (a, k) \<longrightarrow> (file_is s' b j d \<longleftrightarrow> file_is s b j d) \<and> (present s' b j \<longleftrightarrow> present s b j))"
    and fstat_file: "file_is s a k c \<Longrightarrow>
      \<exists>s'. fstat a k s = Some (Inr (present s a k, length c), s')
        \<and> (\<forall>b j d. (file_is s' b j d \<longleftrightarrow> file_is s b j d) \<and> (present s' b j \<longleftrightarrow> present s b j))"
    and fremove_file: "file_is s a k c \<Longrightarrow>
      \<exists>s'. fremove a k s = Some (Inr (), s') \<and> file_is s' a k [] \<and> \<not> present s' a k
        \<and> (\<forall>b j d. (b, j) \<noteq> (a, k) \<longrightarrow> (file_is s' b j d \<longleftrightarrow> file_is s b j d) \<and> (present s' b j \<longleftrightarrow> present s b j))"
begin

text \<open>A file written from offset 0 reads back, whatever it held before.\<close>

lemma read_after_write:
  assumes "file_is s a k c" and "bs \<noteq> []" and "length bs \<le> OBJ_SIZE"
  obtains s1 s2 where "fwrite a k bs 0 s = (Inr (length bs), s1)"
    and "fread a k (length bs) 0 s1 = (Inr (length bs), bs, s2)"
proof -
  obtain s1 where w: "fwrite a k bs 0 s = (Inr (length bs), s1)"
    "file_is s1 a k (overlay c 0 bs)" "present s1 a k"
    using fwrite_file [OF assms(1,2)] by blast
  obtain r s2 where r: "fread a k (length bs) 0 s1 = (r, take (length bs) (drop 0 (overlay c 0 bs)), s2)"
    using fread_file [OF w(2)] by blast
  have "r = Inr (length bs)"
    using fread_first [OF w(2,3) assms(3)] r by simp
  with w(1) r overlay_read_back [of bs 0 c] show thesis by (intro that [of s1 s2]) simp_all
qed

text \<open>Appending at the size \<open>fstat\<close> reports, as the journal does.\<close>

lemma append_at_stat:
  assumes "file_is s a k c" and "bs \<noteq> []"
  obtains b s1 s2 where "fstat a k s = Some (Inr (b, length c), s1)"
    and "fwrite a k bs (length c) s1 = (Inr (length bs), s2)"
    and "file_is s2 a k (c @ bs)" and "present s2 a k"
    and "\<And>b j d. (b, j) \<noteq> (a, k) \<Longrightarrow> (file_is s2 b j d \<longleftrightarrow> file_is s b j d) \<and> (present s2 b j \<longleftrightarrow> present s b j)"
proof -
  obtain s1 where s1: "fstat a k s = Some (Inr (present s a k, length c), s1)" "file_is s1 a k c"
    "\<forall>b j d. (file_is s1 b j d \<longleftrightarrow> file_is s b j d) \<and> (present s1 b j \<longleftrightarrow> present s b j)"
    using fstat_file [OF assms(1)] assms(1) by blast
  with fwrite_file [OF s1(2) assms(2), of "length c"] show thesis
    unfolding overlay_at_end by (metis that)
qed

end

section \<open>RADOS files\<close>

definition rados_file :: "('s \<Rightarrow> string \<rightharpoonup> bytes) \<Rightarrow> 's \<Rightarrow> obj_category \<Rightarrow> string \<Rightarrow> bytes \<Rightarrow> bool" where
  "rados_file objs s a k c \<longleftrightarrow> stripe_rep (objs s) (pool_key a k) c"

definition rados_present :: "('s \<Rightarrow> string \<rightharpoonup> bytes) \<Rightarrow> 's \<Rightarrow> obj_category \<Rightarrow> string \<Rightarrow> bool" where
  "rados_present objs s a k \<longleftrightarrow> objs s (obj_key (pool_key a k) 0) \<noteq> None"

lemma rados_file_same:
  "objs s' = objs s \<Longrightarrow> (rados_file objs s' b j d \<longleftrightarrow> rados_file objs s b j d)
     \<and> (rados_present objs s' b j \<longleftrightarrow> rados_present objs s b j)"
  by (simp add: rados_file_def rados_present_def)

lemma rados_file_elsewhere:
  "same_elsewhere (pool_key a k) (objs s) (objs s') \<Longrightarrow> (b, j) \<noteq> (a, k) \<Longrightarrow>
     (rados_file objs s' b j d \<longleftrightarrow> rados_file objs s b j d)
     \<and> (rados_present objs s' b j \<longleftrightarrow> rados_present objs s b j)"
  by (auto simp: rados_file_def rados_present_def stripe_rep_elsewhere same_elsewhere_def)

lemma stripe_nonempty_present: "stripe_rep M p c \<Longrightarrow> c \<noteq> [] \<Longrightarrow> M (obj_key p 0) \<noteq> None"
  using stripe_None [of M p c 0] by auto

context librados
begin

lemma read_first_object:
  assumes rep: "stripe_rep (objs s) p c" and some: "objs s (obj_key p 0) \<noteq> None" and le: "len \<le> OBJ_SIZE"
  shows "fst (read_loop X p 0 len [] s) = Inr (length (take len c))"
proof (cases "len = 0")
  case False
  then have c: "drop_bit OBJ_BITS (0::nat) = 0" "mask_lo 0 = 0" "chunk_len 0 len = len" "next_bound 0 = OBJ_SIZE"
    using le by (simp_all add: mask_lo_mod chunk_len_def next_bound_eq)
  from some obtain d where d: "objs s (obj_key p 0) = Some d" by blast
  with read_obj_present [OF d, of len 0] stripe_Some [OF rep d] le obtain s1
    where "read_obj X (obj_key p 0) len 0 s = (Inr (take len c), s1)" by (auto simp: min_def)
  with False c le show ?thesis by (simp add: read_loop.simps)
qed (simp add: read_loop.simps)

lemma read_missing_object:
  assumes "stripe_rep (objs s) p c" and "objs s (obj_key p 0) = None" and "cursor < stop"
  shows "fst (read_loop X p cursor stop [] s) = Inl (No_such_object 0)"
proof -
  have "objs s (obj_key p (cursor div OBJ_SIZE)) = None"
    using stripe_later_absent [OF assms(1,2)] by simp
  from read_obj_absent [OF this, of "chunk_len cursor stop" "mask_lo cursor"] assms(3) show ?thesis
    by (auto simp: read_loop.simps [of X p cursor] drop_bit_div)
qed

end

sublocale librados \<subseteq> files: file_store "rados_read X" "rados_write X" "rados_stat X" "rados_remove X"
  "rados_file objs" "rados_present objs"
proof (unfold_locales, goal_cases)
  case (1 s a k c)
  then show ?case
    using stripe_nonempty_present [of "objs s" "pool_key a k" c]
    by (auto simp: rados_file_def rados_present_def)
next
  case (2 s a k c len off)
  from rados_read_ok [OF 2 [unfolded rados_file_def], of len off] obtain r s'
    where r: "rados_read X a k len off s = (r, take len (drop off c), s')" "objs s' = objs s"
      "r = Inr (length (take len (drop off c)))
       \<or> r = Inl (No_such_object (length (take len (drop off c)))) \<and> length c < off + len" by blast
  with rados_file_same [of objs s' s] show ?case by blast
next
  case (3 s a k c len off)
  then show ?case
    by (auto simp: rados_file_def rados_present_def rados_read_def read_missing_object)
next
  case (4 s a k c len)
  then show ?case
    by (simp add: rados_file_def rados_present_def rados_read_def read_first_object)
next
  case (5 s a k c bs off)
  from rados_write_ok [OF 5(1) [unfolded rados_file_def], of bs off] 5(2) obtain s'
    where w: "rados_write X a k bs off s = (Inr (length bs), s')"
      "rados_file objs s' a k (overlay c off bs)" "same_elsewhere (pool_key a k) (objs s) (objs s')"
    by (auto simp: rados_file_def)
  moreover have "rados_present objs s' a k"
    using w(2) 5(2) stripe_nonempty_present [of "objs s'" "pool_key a k" "overlay c off bs"]
    by (auto simp: rados_file_def rados_present_def overlay_def)
  ultimately show ?case using rados_file_elsewhere [OF w(3)] by blast
next
  case (6 s a k c)
  from rados_stat_ok [OF 6 [unfolded rados_file_def]] obtain s'
    where "rados_stat X a k s = Some (Inr (rados_present objs s a k, length c), s')" "objs s' = objs s"
    unfolding rados_present_def by blast
  with rados_file_same [of objs s' s] show ?case by blast
next
  case (7 s a k c)
  from rados_remove_ok [OF 7 [unfolded rados_file_def]] obtain s'
    where r: "rados_remove X a k s = Some (Inr (), s')" "objs s' = drop_objs (pool_key a k) 0 (objs s)" by blast
  have "rados_file objs s' a k []" "\<not> rados_present objs s' a k"
    by (simp_all add: rados_file_def rados_present_def r(2) stripe_drop_all drop_objs_key)
  moreover have "same_elsewhere (pool_key a k) (objs s) (objs s')" by (simp add: r(2))
  note rados_file_elsewhere [OF this]
  ultimately show ?case using r(1) by (intro exI [of _ s']) simp
qed

section \<open>The pool as a whole\<close>

text \<open>Every file of the pool is well formed, and two states agree on all files outside a set.\<close>

definition store_ok :: "('s \<Rightarrow> string \<rightharpoonup> bytes) \<Rightarrow> 's \<Rightarrow> bool" where
  "store_ok objs s \<longleftrightarrow> (\<forall>a k. \<exists>c. rados_file objs s a k c)"

definition files_same :: "('s \<Rightarrow> string \<rightharpoonup> bytes) \<Rightarrow> (obj_category \<times> string) set \<Rightarrow> 's \<Rightarrow> 's \<Rightarrow> bool" where
  "files_same objs W s s' \<longleftrightarrow>
     (\<forall>b j. (b, j) \<notin> W \<longrightarrow> (\<forall>d. rados_file objs s' b j d \<longleftrightarrow> rados_file objs s b j d)
        \<and> (rados_present objs s' b j \<longleftrightarrow> rados_present objs s b j))"

lemma files_same_refl [simp]: "files_same objs W s s"
  by (simp add: files_same_def)

lemma files_same_trans: "files_same objs V s s1 \<Longrightarrow> files_same objs W s1 s2 \<Longrightarrow> files_same objs (V \<union> W) s s2"
  by (simp add: files_same_def)

lemma files_same_mono: "files_same objs V s s' \<Longrightarrow> V \<subseteq> W \<Longrightarrow> files_same objs W s s'"
  unfolding files_same_def by blast

lemma files_same_file: "files_same objs W s s' \<Longrightarrow> (a, k) \<notin> W \<Longrightarrow> rados_file objs s' a k c \<longleftrightarrow> rados_file objs s a k c"
  by (simp add: files_same_def)

lemma files_same_present: "files_same objs W s s' \<Longrightarrow> (a, k) \<notin> W \<Longrightarrow> rados_present objs s' a k \<longleftrightarrow> rados_present objs s a k"
  by (simp add: files_same_def)

lemma store_ok_file: "store_ok objs s \<Longrightarrow> \<exists>c. rados_file objs s a k c"
  by (simp add: store_ok_def)

lemma store_ok_files_same:
  "store_ok objs s \<Longrightarrow> files_same objs W s s' \<Longrightarrow> (\<And>a k. (a, k) \<in> W \<Longrightarrow> \<exists>c. rados_file objs s' a k c) \<Longrightarrow> store_ok objs s'"
  unfolding store_ok_def files_same_def by metis

context librados
begin

lemma pool_write:
  assumes "rados_file objs s a k c" and "bs \<noteq> []"
  obtains s' where "rados_write X a k bs off s = (Inr (length bs), s')" and "rados_file objs s' a k (overlay c off bs)"
    and "rados_present objs s' a k" and "files_same objs {(a, k)} s s'"
    and "store_ok objs s \<Longrightarrow> store_ok objs s'"
proof -
  obtain s' where w: "rados_write X a k bs off s = (Inr (length bs), s')" "rados_file objs s' a k (overlay c off bs)"
    "rados_present objs s' a k"
    "\<forall>b j d. (b, j) \<noteq> (a, k) \<longrightarrow> (rados_file objs s' b j d \<longleftrightarrow> rados_file objs s b j d)
       \<and> (rados_present objs s' b j \<longleftrightarrow> rados_present objs s b j)"
    using files.fwrite_file [OF assms, of off] by blast
  from w(4) have same: "files_same objs {(a, k)} s s'" by (simp add: files_same_def)
  with w(2) have "store_ok objs s \<Longrightarrow> store_ok objs s'"
    by (rule_tac store_ok_files_same [OF _ same]) auto
  with w(1-3) same show thesis by (intro that)
qed

lemma pool_remove:
  assumes "rados_file objs s a k c"
  obtains s' where "rados_remove X a k s = Some (Inr (), s')" and "rados_file objs s' a k []"
    and "\<not> rados_present objs s' a k" and "files_same objs {(a, k)} s s'"
    and "store_ok objs s \<Longrightarrow> store_ok objs s'"
proof -
  obtain s' where w: "rados_remove X a k s = Some (Inr (), s')" "rados_file objs s' a k []" "\<not> rados_present objs s' a k"
    "\<forall>b j d. (b, j) \<noteq> (a, k) \<longrightarrow> (rados_file objs s' b j d \<longleftrightarrow> rados_file objs s b j d)
       \<and> (rados_present objs s' b j \<longleftrightarrow> rados_present objs s b j)"
    using files.fremove_file [OF assms] by blast
  from w(4) have same: "files_same objs {(a, k)} s s'" by (simp add: files_same_def)
  with w(2) have "store_ok objs s \<Longrightarrow> store_ok objs s'"
    by (rule_tac store_ok_files_same [OF _ same]) auto
  with w(1-3) same show thesis by (intro that)
qed

text \<open>A read inside the file succeeds; a read that starts at a present file's first byte does too.\<close>

lemma pool_read:
  assumes "rados_file objs s a k c" and "off + len \<le> length c \<or> off = 0 \<and> rados_present objs s a k \<and> len \<le> OBJ_SIZE"
  obtains s' where "rados_read X a k len off s = (Inr (length (take len (drop off c))), take len (drop off c), s')"
    and "files_same objs {} s s'"
proof -
  obtain r s' where r: "rados_read X a k len off s = (r, take len (drop off c), s')"
    "\<forall>b j d. (rados_file objs s' b j d \<longleftrightarrow> rados_file objs s b j d) \<and> (rados_present objs s' b j \<longleftrightarrow> rados_present objs s b j)"
    "r = Inr (length (take len (drop off c))) \<or> r = Inl (No_such_object (length (take len (drop off c)))) \<and> length c < off + len"
    using files.fread_file [OF assms(1), of len off] by blast
  from assms(2) have "r = Inr (length (take len (drop off c)))"
  proof
    assume "off = 0 \<and> rados_present objs s a k \<and> len \<le> OBJ_SIZE"
    with files.fread_first [OF assms(1), of len] r(1) show ?thesis by simp
  qed (use r(3) in auto)
  with r(1,2) show thesis by (intro that) (auto simp: files_same_def)
qed

lemma pool_stat:
  assumes "rados_file objs s a k c"
  obtains s' where "rados_stat X a k s = Some (Inr (rados_present objs s a k, length c), s')"
    and "files_same objs {} s s'"
  using files.fstat_file [OF assms] by (auto simp: files_same_def)

text \<open>The exact multiple of the block size at the end of a file is excluded: there the code
  truncates an object that need not exist.\<close>

lemma pool_truncate:
  assumes "rados_file objs s a k c" and "\<not> (off = length c \<and> 0 < off \<and> off mod OBJ_SIZE = 0)"
  obtains s' where "rados_truncate X a k off s = Some (Inr 0, s')"
    and "rados_file objs s' a k (take off c @ replicate (off - length c) zero_byte)"
    and "files_same objs {(a, k)} s s'"
proof -
  obtain s' where "rados_truncate X a k off s = Some (Inr 0, s')"
    and "stripe_rep (objs s') (pool_key a k) (take off c @ replicate (off - length c) zero_byte)"
    and el: "same_elsewhere (pool_key a k) (objs s) (objs s')"
    using rados_truncate_ok [OF assms(1) [unfolded rados_file_def] assms(2)] by blast
  moreover have "files_same objs {(a, k)} s s'"
    using rados_file_elsewhere [OF el] by (simp add: files_same_def)
  ultimately show thesis by (intro that) (simp_all add: rados_file_def)
qed

end

lemma store_ok_same: "files_same objs {} s s' \<Longrightarrow> store_ok objs s' \<longleftrightarrow> store_ok objs s"
  by (simp add: files_same_def store_ok_def)

text \<open>What the metadata code relies on: a cluster, and UUIDs that print differently.\<close>

locale cluster = librados X objs + boost_uuid X for X :: "'s ext" and objs :: "'s \<Rightarrow> string \<rightharpoonup> bytes"

section \<open>A cluster in memory\<close>

definition mem_ext :: "(string \<rightharpoonup> bytes) ext" where
  "mem_ext =
     \<lparr>io_read = (\<lambda>k len off M. case M k of
          None \<Rightarrow> ((- ENOENT, []), M)
        | Some c \<Rightarrow> ((int (length (take len (drop off c))), take len (drop off c)), M)),
      io_write = (\<lambda>k bs off M. (0, M(k \<mapsto> overlay (obj_or_empty M k) off bs))),
      io_stat = (\<lambda>k M. case M k of None \<Rightarrow> ((- ENOENT, 0), M) | Some c \<Rightarrow> ((0, length c), M)),
      io_remove = (\<lambda>k M. case M k of None \<Rightarrow> (- ENOENT, M) | Some _ \<Rightarrow> (0, M(k := None))),
      io_trunc = (\<lambda>k n M. case M k of
          None \<Rightarrow> (0, M)
        | Some c \<Rightarrow> (0, M(k \<mapsto> take n (c @ replicate (n - length c) zero_byte)))),
      uuid_text = (\<lambda>u. u)\<rparr>"

interpretation mem: cluster mem_ext "\<lambda>M. M"
  by unfold_locales (auto simp: mem_ext_def)

lemma mem_cluster: "cluster mem_ext (\<lambda>M. M)"
  by (rule mem.cluster_axioms)

lemma mem_librados: "librados mem_ext (\<lambda>M. M)"
  by (rule mem.librados_axioms)

text \<open>The empty cluster\<close>

lemma mem_empty_file: "rados_file (\<lambda>M. M) Map.empty a k []"
  by (simp add: rados_file_def stripe_empty)

lemma mem_empty_ok: "store_ok (\<lambda>M. M) Map.empty"
  using mem_empty_file by (auto simp: store_ok_def)

lemma mem_file_exists:
  assumes "c \<noteq> []"
  obtains M where "rados_file (\<lambda>M. M) M a k c" and "rados_present (\<lambda>M. M) M a k" and "store_ok (\<lambda>M. M) M"
proof -
  obtain M where M: "rados_file (\<lambda>M. M) M a k (overlay [] 0 c)" "rados_present (\<lambda>M. M) M a k"
    "store_ok (\<lambda>M. M) Map.empty \<Longrightarrow> store_ok (\<lambda>M. M) M"
    using mem.pool_write [OF mem_empty_file assms, of a k 0] by blast
  moreover have "overlay [] 0 c = c" by (simp add: overlay_def)
  ultimately show thesis using that mem_empty_ok by simp
qed

section \<open>Properties of the storage layer\<close>



text \<open>C33. \<open>rados_io::read\<close> refines reading a range of the byte sequence: the buffer receives exactly
  the bytes of the range that exist and the pool is unchanged; the call returns their number, and
  throws \<open>no_such_object\<close> with that number only when the range reaches past the end.\<close>

theorem rados_read_refines:
  assumes "librados X objs" and "rados_file objs s cat key c"
  shows "\<exists>r s'. rados_read X cat key len off s = (r, take len (drop off c), s') \<and> objs s' = objs s
    \<and> (r = Inr (length (take len (drop off c)))
       \<or> r = Inl (No_such_object (length (take len (drop off c)))) \<and> length c < off + len)"
  using librados.rados_read_ok [OF assms(1) assms(2) [unfolded rados_file_def]] by blast

theorem rados_read_refines_witness:
  "\<exists>M r M'. rados_read mem_ext DATA ''f'' 2 1 M = (r, ''bc'', M') \<and> M' = M
     \<and> (r = Inr 2 \<or> r = Inl (No_such_object 2) \<and> (3::nat) < 1 + 2)"
proof -
  obtain M where M: "rados_file (\<lambda>M. M) M DATA ''f'' ''abc''" using mem_file_exists [of "''abc''"] by blast
  from rados_read_refines [OF mem_librados M, of 2 1] show ?thesis by (simp add: numeral_2_eq_2) blast
qed

text \<open>\<open>rados_io::stat\<close> always returns: it reports whether the file exists and its exact
  length, and leaves the pool as it is.\<close>

theorem rados_stat_refines:
  assumes "librados X objs" and "rados_file objs s cat key c"
  shows "\<exists>s'. rados_stat X cat key s = Some (Inr (rados_present objs s cat key, length c), s') \<and> files_same objs {} s s'"
  by (rule librados.pool_stat [OF assms]) blast

theorem rados_stat_refines_witness:
  "\<exists>s'. rados_stat mem_ext JOURNAL ''d'' Map.empty = Some (Inr (False, 0), s')
     \<and> files_same (\<lambda>M. M) {} Map.empty s'"
  using rados_stat_refines [OF mem_librados mem_empty_file, of JOURNAL "''d''"]
  by (simp add: rados_present_def)

text \<open>\<open>rados_io::remove\<close> always returns, leaves no object of the file behind and touches no
  other file.\<close>

theorem rados_remove_refines:
  assumes "librados X objs" and "rados_file objs s cat key c"
  shows "\<exists>s'. rados_remove X cat key s = Some (Inr (), s') \<and> (\<forall>n. objs s' (obj_key (pool_key cat key) n) = None)
    \<and> files_same objs {(cat, key)} s s'"
proof -
  from librados.rados_remove_ok [OF assms(1) assms(2) [unfolded rados_file_def]] obtain s1
    where s1: "rados_remove X cat key s = Some (Inr (), s1)" "objs s1 = drop_objs (pool_key cat key) 0 (objs s)" by blast
  obtain s2 where "rados_remove X cat key s = Some (Inr (), s2)" "files_same objs {(cat, key)} s s2"
    by (rule librados.pool_remove [OF assms])
  with s1 show ?thesis by (auto simp: drop_objs_key)
qed

theorem rados_remove_refines_witness:
  "\<exists>M M'. M (obj_key (pool_key DATA ''f'') 0) \<noteq> None \<and> rados_remove mem_ext DATA ''f'' M = Some (Inr (), M')
     \<and> (\<forall>n. M' (obj_key (pool_key DATA ''f'') n) = None) \<and> files_same (\<lambda>M. M) {(DATA, ''f'')} M M'"
proof -
  obtain M where M: "rados_file (\<lambda>M. M) M DATA ''f'' ''abc''" and p: "rados_present (\<lambda>M. M) M DATA ''f''"
    using mem_file_exists [of "''abc''"] by blast
  from rados_remove_refines [OF mem_librados M] p show ?thesis unfolding rados_present_def by blast
qed

text \<open>\<open>rados_io::truncate\<close> always returns and cuts the file, or extends it with zeros, to the
  requested length, without touching another file. The one length that is both the end of the file
  and a multiple of the object size is excluded.\<close>

theorem rados_truncate_refines:
  assumes "librados X objs" and "rados_file objs s cat key c" and "\<not> (off = length c \<and> 0 < off \<and> off mod OBJ_SIZE = 0)"
  shows "\<exists>s'. rados_truncate X cat key off s = Some (Inr 0, s')
    \<and> rados_file objs s' cat key (take off c @ replicate (off - length c) zero_byte) \<and> files_same objs {(cat, key)} s s'"
  by (rule librados.pool_truncate [OF assms]) blast

theorem rados_truncate_refines_witness:
  "\<exists>M M'. rados_truncate mem_ext DATA ''f'' 2 M = Some (Inr 0, M') \<and> rados_file (\<lambda>M. M) M' DATA ''f'' ''ab''
     \<and> files_same (\<lambda>M. M) {(DATA, ''f'')} M M'"
proof -
  obtain M where M: "rados_file (\<lambda>M. M) M DATA ''f'' ''abc''" using mem_file_exists [of "''abc''"] by blast
  from rados_truncate_refines [OF mem_librados M, of 2] show ?thesis by (simp add: numeral_2_eq_2) blast
qed

text \<open>Distinct files never share an object: the key of an object determines its category, its
  file and its number.\<close>

theorem object_keys_distinct:
  "obj_key (pool_key a x) m = obj_key (pool_key b y) n \<longleftrightarrow> a = b \<and> x = y \<and> m = n"
  by simp

end
