(* ===== verification/Inode.thy ===== *)
theory Inode
  imports File_Store
begin

text \<open>
  Inodes (\<open>client/meta/inode.cpp\<close>): the attributes of a file or directory, their object
  representation in the metadata pool, the permission check and the messages that carry an inode
  between clients. A \<open>shared_ptr<std::string>\<close> for a symlink target is a \<open>string option\<close>.
\<close>

section \<open>Data\<close>

record timespec =
  tv_sec :: "64 word"
  tv_nsec :: "64 word"

datatype meta_location = LOCAL | REMOTE | UNKNOWN | JOURNAL_COPY | NOBODY

record core =
  i_mode :: "32 word"
  i_uid :: "32 word"
  i_gid :: "32 word"
  i_ino :: uuid
  i_nlink :: "64 word"
  i_size :: "64 word"
  i_atime :: timespec
  i_mtime :: timespec
  i_ctime :: timespec
  link_target_len :: "32 word"

record inode =
  p_ino :: uuid
  core :: core
  loc :: meta_location
  link_target_name :: "string option"

definition S_IFMT :: "32 word" where "S_IFMT = 0xF000"
definition S_IFDIR :: "32 word" where "S_IFDIR = 0x4000"
definition S_IFREG :: "32 word" where "S_IFREG = 0x8000"
definition S_IFLNK :: "32 word" where "S_IFLNK = 0xA000"

definition S_ISDIR :: "32 word \<Rightarrow> bool" where "S_ISDIR m \<longleftrightarrow> m AND S_IFMT = S_IFDIR"
definition S_ISLNK :: "32 word \<Rightarrow> bool" where "S_ISLNK m \<longleftrightarrow> m AND S_IFMT = S_IFLNK"

definition DIR_INODE_SIZE :: "64 word" where "DIR_INODE_SIZE = 4096"

text \<open>\<open>sizeof(struct _core)\<close> and \<open>sizeof(inode)\<close> with the x86-64 System V layout\<close>

definition REG_INODE_SIZE :: nat where "REG_INODE_SIZE = 104"
definition sizeof_inode :: nat where "sizeof_inode = 192"

section \<open>Constructors\<close>

text \<open>For regular files and the root; \<open>new_ino\<close> is what \<open>alloc_new_ino()\<close> draws, \<open>ts\<close> the clock.\<close>

definition inode_new :: "timespec \<Rightarrow> uuid \<Rightarrow> uuid \<Rightarrow> 32 word \<Rightarrow> 32 word \<Rightarrow> 32 word \<Rightarrow> bool \<Rightarrow> inode" where
  "inode_new ts new_ino parent_ino owner grp mode root =
     \<lparr>p_ino = parent_ino,
      core = \<lparr>i_mode = mode, i_uid = owner, i_gid = grp,
              i_ino = (if root then get_root_ino else new_ino), i_nlink = 1, i_size = 0,
              i_atime = ts, i_mtime = ts, i_ctime = ts, link_target_len = 0\<rparr>,
      loc = LOCAL, link_target_name = None\<rparr>"

definition inode_new_dir :: "timespec \<Rightarrow> uuid \<Rightarrow> 32 word \<Rightarrow> 32 word \<Rightarrow> 32 word \<Rightarrow> uuid \<Rightarrow> inode" where
  "inode_new_dir ts parent_ino owner grp mode predefined_ino =
     \<lparr>p_ino = parent_ino,
      core = \<lparr>i_mode = mode, i_uid = owner, i_gid = grp, i_ino = predefined_ino, i_nlink = 1, i_size = 0,
              i_atime = ts, i_mtime = ts, i_ctime = ts, link_target_len = 0\<rparr>,
      loc = LOCAL, link_target_name = None\<rparr>"

text \<open>The C string ends before its first zero byte.\<close>

definition c_string :: "bytes \<Rightarrow> bytes" where
  "c_string bs = takeWhile (\<lambda>b. b \<noteq> zero_byte) bs"

definition inode_new_symlink :: "timespec \<Rightarrow> uuid \<Rightarrow> uuid \<Rightarrow> 32 word \<Rightarrow> 32 word \<Rightarrow> 32 word \<Rightarrow> bytes \<Rightarrow> inode" where
  "inode_new_symlink ts new_ino parent_ino owner grp mode passed =
     \<lparr>p_ino = parent_ino,
      core = \<lparr>i_mode = mode, i_uid = owner, i_gid = grp, i_ino = new_ino, i_nlink = 1, i_size = 0,
              i_atime = ts, i_mtime = ts, i_ctime = ts,
              link_target_len = of_nat (length (c_string passed))\<rparr>,
      loc = LOCAL, link_target_name = Some (c_string passed)\<rparr>"

text \<open>
  The copy constructor copies the attributes, and the target name of a non-empty symlink. It
  leaves \<open>p_ino\<close> and \<open>loc\<close> uninitialised: the fixed values here stand for them, and no code
  reads these fields of a copy.
\<close>

definition inode_copy :: "inode \<Rightarrow> inode" where
  "inode_copy i =
     \<lparr>p_ino = nil_uuid, core = core i, loc = UNKNOWN,
      link_target_name =
        (if S_ISLNK (i_mode (core i)) \<and> link_target_len (core i) > 0 then link_target_name i else None)\<rparr>"

section \<open>Attributes for \<open>stat\<close>\<close>

record stat =
  st_mode :: "32 word"
  st_uid :: "32 word"
  st_gid :: "32 word"
  st_ino :: "64 word"
  st_nlink :: "64 word"
  st_size :: "64 word"
  st_atim :: timespec
  st_mtim :: timespec
  st_ctim :: timespec

text \<open>The last assignment goes to \<open>st_ctim.tv_sec\<close> a second time, with the nanoseconds.\<close>

definition fill_stat :: "inode \<Rightarrow> stat \<Rightarrow> stat" where
  "fill_stat i s =
     (let c = core i;
          s = s\<lparr>st_mode := i_mode c, st_uid := i_uid c, st_gid := i_gid c,
                st_ino := get_postfix_from_uuid (i_ino c), st_nlink := i_nlink c, st_size := i_size c,
                st_atim := \<lparr>tv_sec = tv_sec (i_atime c), tv_nsec = tv_nsec (i_atime c)\<rparr>,
                st_mtim := \<lparr>tv_sec = tv_sec (i_mtime c), tv_nsec = tv_nsec (i_mtime c)\<rparr>\<rparr>;
          s = s\<lparr>st_ctim := (st_ctim s)\<lparr>tv_sec := tv_sec (i_ctime c)\<rparr>\<rparr>
      in s\<lparr>st_ctim := (st_ctim s)\<lparr>tv_sec := tv_nsec (i_ctime c)\<rparr>\<rparr>)"

section \<open>Object representation\<close>

definition enc_ts :: "timespec \<Rightarrow> bytes" where
  "enc_ts t = enc64 (tv_sec t) @ enc64 (tv_nsec t)"

text \<open>
  The bytes of \<open>struct _core\<close>. Four bytes after the UUID and four at the end are padding, whose
  value the language leaves open; the model writes zeros and \<open>core_of_bytes\<close> never reads them.
\<close>

definition core_bytes :: "core \<Rightarrow> bytes" where
  "core_bytes c =
     enc32 (i_mode c) @ enc32 (i_uid c) @ enc32 (i_gid c) @ i_ino c @ replicate 4 zero_byte @
     enc64 (i_nlink c) @ enc64 (i_size c) @ enc_ts (i_atime c) @ enc_ts (i_mtime c) @ enc_ts (i_ctime c) @
     enc32 (link_target_len c) @ replicate 4 zero_byte"

abbreviation field :: "nat \<Rightarrow> nat \<Rightarrow> bytes \<Rightarrow> bytes" where
  "field off len bs \<equiv> take len (drop off bs)"

definition ts_of_bytes :: "bytes \<Rightarrow> timespec" where
  "ts_of_bytes bs = \<lparr>tv_sec = dec64 (field 0 8 bs), tv_nsec = dec64 (field 8 8 bs)\<rparr>"

definition core_of_bytes :: "bytes \<Rightarrow> core" where
  "core_of_bytes bs =
     \<lparr>i_mode = dec32 (field 0 4 bs), i_uid = dec32 (field 4 4 bs), i_gid = dec32 (field 8 4 bs),
      i_ino = field 12 16 bs, i_nlink = dec64 (field 32 8 bs), i_size = dec64 (field 40 8 bs),
      i_atime = ts_of_bytes (field 48 16 bs), i_mtime = ts_of_bytes (field 64 16 bs),
      i_ctime = ts_of_bytes (field 80 16 bs), link_target_len = dec32 (field 96 4 bs)\<rparr>"

text \<open>
  \<open>serialize\<close>: the vector has room for the target name; it is copied in for symlinks only. A
  null name, or one shorter than \<open>link_target_len\<close>, is read out of bounds.
\<close>

definition inode_serialize :: "inode \<Rightarrow> exn + bytes" where
  "inode_serialize i =
     (let len = unat (link_target_len (core i));
          head = core_bytes (core i)
      in if S_ISLNK (i_mode (core i)) \<and> link_target_len (core i) > 0 then
           (case link_target_name i of
              None \<Rightarrow> Inl (Crash ''null link_target_name'')
            | Some name \<Rightarrow> if length name < len then Inl (Crash ''link_target_name too short'')
                           else Inr (head @ take len name))
         else Inr (head @ replicate len zero_byte))"

text \<open>\<open>deserialize\<close> into an existing inode: the target name is read from the metadata pool.\<close>

definition inode_deserialize :: "'s ext \<Rightarrow> bytes \<Rightarrow> inode \<Rightarrow> (inode, 's) step" where
  "inode_deserialize X val i s =
     (let c = core_of_bytes (take REG_INODE_SIZE val); i = i\<lparr>core := c\<rparr>
      in if S_ISLNK (i_mode c) then
           (let len = unat (link_target_len c)
            in case rados_read X INODE (uuid_to_string X (i_ino c)) len REG_INODE_SIZE s of
                 (Inl e, bs, s') \<Rightarrow> (Inl e, s')
               | (Inr n, bs, s') \<Rightarrow>
                   (Inr (i\<lparr>link_target_name := Some (bs @ replicate (len - length bs) zero_byte)\<rparr>), s'))
         else (Inr i, s))"

text \<open>\<open>inode(uuid ino)\<close>: pull an inode from the pool. Fields the constructor leaves
  uninitialised (\<open>p_ino\<close>, \<open>loc\<close>) have fixed values; the callers set them.\<close>

definition inode_blank :: "meta_location \<Rightarrow> inode" where
  "inode_blank l =
     \<lparr>p_ino = nil_uuid,
      core = core_of_bytes (replicate REG_INODE_SIZE zero_byte),
      loc = l, link_target_name = None\<rparr>"

definition inode_load :: "'s ext \<Rightarrow> uuid \<Rightarrow> (inode, 's) step" where
  "inode_load X ino s =
     (case rados_read X INODE (uuid_to_string X ino) REG_INODE_SIZE 0 s of
        (Inl (No_such_object n), bs, s') \<Rightarrow> (Inl No_entry, s')
      | (Inl e, bs, s') \<Rightarrow> (Inl e, s')
      | (Inr n, bs, s') \<Rightarrow>
          (case inode_deserialize X (bs @ replicate (REG_INODE_SIZE - length bs) zero_byte) (inode_blank UNKNOWN) s' of
             (Inl (No_such_object m), s'') \<Rightarrow> (Inl No_entry, s'')
           | r \<Rightarrow> r))"

definition inode_sync :: "'s ext \<Rightarrow> inode \<Rightarrow> (unit, 's) step" where
  "inode_sync X i s =
     (case inode_serialize i of
        Inl e \<Rightarrow> (Inl e, s)
      | Inr raw \<Rightarrow>
          (case rados_write X INODE (uuid_to_string X (i_ino (core i))) raw 0 s of
             (Inl e, s') \<Rightarrow> (Inl e, s')
           | (Inr n, s') \<Rightarrow> (Inr (), s')))"

section \<open>Permissions\<close>

definition R_OK :: "32 word" where "R_OK = 4"
definition W_OK :: "32 word" where "W_OK = 2"
definition X_OK :: "32 word" where "X_OK = 1"
definition S_IRWXU :: "32 word" where "S_IRWXU = 448"
definition S_IRWXG :: "32 word" where "S_IRWXG = 56"
definition S_IRWXO :: "32 word" where "S_IRWXO = 7"

definition permission_check :: "32 word \<Rightarrow> 32 word \<Rightarrow> inode \<Rightarrow> 32 word \<Rightarrow> exn + unit" where
  "permission_check client_uid client_gid i msk =
     (let check_read = msk AND R_OK \<noteq> 0;
          check_write = msk AND W_OK \<noteq> 0;
          check_exec = msk AND X_OK \<noteq> 0;
          c = core i;
          target_mode =
            (if client_uid = i_uid c then drop_bit 6 (i_mode c AND S_IRWXU)
             else if client_gid = i_gid c then drop_bit 3 (i_mode c AND S_IRWXG)
             else i_mode c AND S_IRWXO);
          r = True;
          r = (if check_read then r \<and> target_mode AND R_OK \<noteq> 0 else r);
          r = (if check_write then r \<and> target_mode AND W_OK \<noteq> 0 else r);
          r = (if check_exec then r \<and> target_mode AND X_OK \<noteq> 0 else r)
      in if \<not> r then Inl Permission_denied else Inr ())"

section \<open>Messages that carry an inode\<close>

text \<open>
  The fields that \<open>rpc_rename_not_same_parent_src_respond\<close> and
  \<open>rpc_rename_not_same_parent_dst_request\<close> (\<open>client/proto/rpc.proto\<close>) share; each message
  extends them.
\<close>

record rename_target =
  target_i_mode :: "32 word"
  target_i_uid :: "32 word"
  target_i_gid :: "32 word"
  target_i_ino_prefix :: "64 word"
  target_i_ino_postfix :: "64 word"
  target_i_nlink :: "64 word"
  target_i_size :: "64 word"
  target_a_sec :: "64 word"
  target_a_nsec :: "64 word"
  target_m_sec :: "64 word"
  target_m_nsec :: "64 word"
  target_c_sec :: "64 word"
  target_c_nsec :: "64 word"
  target_i_link_target_len :: "32 word"
  target_i_link_target_name :: string

definition inode_to_rename_src_response ::
  "inode \<Rightarrow> 'm rename_target_scheme \<Rightarrow> exn + 'm rename_target_scheme" where
  "inode_to_rename_src_response i m =
     (let c = core i;
          m = m\<lparr>target_i_mode := i_mode c, target_i_uid := i_uid c, target_i_gid := i_gid c,
                target_i_ino_prefix := get_prefix_from_uuid (i_ino c),
                target_i_ino_postfix := get_postfix_from_uuid (i_ino c),
                target_i_nlink := i_nlink c, target_i_size := i_size c,
                target_a_sec := tv_sec (i_atime c), target_a_nsec := tv_nsec (i_atime c),
                target_m_sec := tv_sec (i_mtime c), target_m_nsec := tv_nsec (i_mtime c),
                target_c_sec := tv_sec (i_ctime c), target_c_nsec := tv_nsec (i_ctime c),
                target_i_link_target_len := link_target_len c\<rparr>
      in if S_ISLNK (i_mode c) then
           (case link_target_name i of
              None \<Rightarrow> Inl (Crash ''null link_target_name'')
            | Some name \<Rightarrow> Inr (m\<lparr>target_i_link_target_name := c_string name\<rparr>))
         else Inr m)"

definition rename_src_response_to_inode :: "'m rename_target_scheme \<Rightarrow> inode \<Rightarrow> inode" where
  "rename_src_response_to_inode m i =
     (let i = i\<lparr>core :=
            \<lparr>i_mode = target_i_mode m, i_uid = target_i_uid m, i_gid = target_i_gid m,
             i_ino = splice_prefix_and_postfix (target_i_ino_prefix m) (target_i_ino_postfix m),
             i_nlink = target_i_nlink m, i_size = target_i_size m,
             i_atime = \<lparr>tv_sec = target_a_sec m, tv_nsec = target_a_nsec m\<rparr>,
             i_mtime = \<lparr>tv_sec = target_m_sec m, tv_nsec = target_m_nsec m\<rparr>,
             i_ctime = \<lparr>tv_sec = target_c_sec m, tv_nsec = target_c_nsec m\<rparr>,
             link_target_len = target_i_link_target_len m\<rparr>\<rparr>
      in if S_ISLNK (target_i_mode m) then i\<lparr>link_target_name := Some (target_i_link_target_name m)\<rparr> else i)"

text \<open>The two functions for the destination's request have the same bodies.\<close>

definition inode_to_rename_dst_request ::
  "inode \<Rightarrow> 'm rename_target_scheme \<Rightarrow> exn + 'm rename_target_scheme" where
  "inode_to_rename_dst_request i m = inode_to_rename_src_response i m"

definition rename_dst_request_to_inode :: "'m rename_target_scheme \<Rightarrow> inode \<Rightarrow> inode" where
  "rename_dst_request_to_inode m i = rename_src_response_to_inode m i"

section \<open>Well-formed inodes\<close>

text \<open>A UUID as number; a symlink has a target of the recorded length, other files have none.\<close>

definition wf_inode :: "inode \<Rightarrow> bool" where
  "wf_inode i \<longleftrightarrow>
     is_uuid (i_ino (core i)) \<and>
     (if S_ISLNK (i_mode (core i)) then
        (case link_target_name i of
           None \<Rightarrow> False
         | Some name \<Rightarrow> name \<noteq> [] \<and> length name = unat (link_target_len (core i)) \<and> zero_byte \<notin> set name)
      else link_target_len (core i) = 0 \<and> link_target_name i = None)"

lemma c_string_no_zero [simp]: "zero_byte \<notin> set bs \<Longrightarrow> c_string bs = bs"
  by (auto simp: c_string_def takeWhile_eq_all_conv)

lemma zero_notin_c_string [simp]: "zero_byte \<notin> set (c_string bs)"
  by (auto simp: c_string_def dest: set_takeWhileD)

lemma wf_inode_new:
  "is_uuid new_ino \<Longrightarrow> \<not> S_ISLNK mode \<Longrightarrow> wf_inode (inode_new ts new_ino parent_ino owner grp mode root)"
  by (simp add: wf_inode_def inode_new_def)

lemma wf_inode_new_dir:
  "is_uuid ino \<Longrightarrow> \<not> S_ISLNK mode \<Longrightarrow> wf_inode (inode_new_dir ts parent_ino owner grp mode ino)"
  by (simp add: wf_inode_def inode_new_dir_def)

lemma wf_inode_new_symlink:
  assumes "is_uuid new_ino" and "S_ISLNK mode" and "c_string passed \<noteq> []" and "length (c_string passed) < 2 ^ 32"
  shows "wf_inode (inode_new_symlink ts new_ino parent_ino owner grp mode passed)"
  using assms by (simp add: wf_inode_def inode_new_symlink_def unat_of_nat)

lemma wf_inode_copy: "wf_inode i \<Longrightarrow> wf_inode (inode_copy i)"
  by (auto simp: wf_inode_def inode_copy_def word_neq_0_conv [symmetric] split: option.splits)

lemma core_inode_copy [simp]: "core (inode_copy i) = core i"
  by (simp add: inode_copy_def)

section \<open>Round trips\<close>

lemma length_enc_ts [simp]: "length (enc_ts t) = 16"
  by (simp add: enc_ts_def)

lemma length_core_bytes [simp]: "is_uuid (i_ino c) \<Longrightarrow> length (core_bytes c) = REG_INODE_SIZE"
  by (simp add: core_bytes_def REG_INODE_SIZE_def)

lemma ts_of_bytes_enc [simp]: "ts_of_bytes (enc_ts t) = t"
  by (simp add: ts_of_bytes_def enc_ts_def)

lemma core_of_core_bytes: "is_uuid (i_ino c) \<Longrightarrow> core_of_bytes (core_bytes c) = c"
  by (simp add: core_of_bytes_def core_bytes_def)

text \<open>What \<open>sync\<close> writes for a well-formed inode\<close>

definition inode_raw :: "inode \<Rightarrow> bytes" where
  "inode_raw i = core_bytes (core i) @ (case link_target_name i of None \<Rightarrow> [] | Some name \<Rightarrow> name)"

lemma inode_serialize_wf: "wf_inode i \<Longrightarrow> inode_serialize i = Inr (inode_raw i)"
  by (auto simp: wf_inode_def inode_serialize_def inode_raw_def Let_def unat_gt_0 word_neq_0_conv [symmetric]
      split: option.splits if_splits)

lemma length_inode_raw:
  "wf_inode i \<Longrightarrow> length (inode_raw i) = REG_INODE_SIZE + unat (link_target_len (core i))"
  by (auto simp: inode_raw_def wf_inode_def split: option.splits if_splits)

lemma rename_message_roundtrip:
  assumes "wf_inode i"
  shows "\<exists>m'. inode_to_rename_src_response i m = Inr m' \<and> core (rename_src_response_to_inode m' j) = core i
      \<and> (S_ISLNK (i_mode (core i)) \<longrightarrow> link_target_name (rename_src_response_to_inode m' j) = link_target_name i)"
  using assms
  by (auto simp: wf_inode_def inode_to_rename_src_response_def rename_src_response_to_inode_def Let_def
      splice_prefix_postfix split: option.splits if_splits)

text \<open>The pool holds inode \<open>i\<close>; older, longer contents may follow.\<close>

definition inode_at :: "'s ext \<Rightarrow> ('s \<Rightarrow> string \<rightharpoonup> bytes) \<Rightarrow> 's \<Rightarrow> inode \<Rightarrow> bool" where
  "inode_at X objs s i \<longleftrightarrow> wf_inode i \<and>
     (\<exists>old. rados_file objs s INODE (uuid_to_string X (i_ino (core i))) (inode_raw i @ old))"

definition loaded_inode :: "inode \<Rightarrow> inode" where
  "loaded_inode i = inode_blank UNKNOWN\<lparr>core := core i, link_target_name := link_target_name i\<rparr>"

lemma inode_at_same:
  "files_same objs W s s' \<Longrightarrow> (INODE, uuid_to_string X (i_ino (core i))) \<notin> W \<Longrightarrow> inode_at X objs s' i \<longleftrightarrow> inode_at X objs s i"
  by (simp add: inode_at_def files_same_file)

context librados
begin

lemma inode_sync_at:
  assumes ok: "store_ok objs s" and wf: "wf_inode i"
  obtains s' where "inode_sync X i s = (Inr (), s')" and "inode_at X objs s' i" and "store_ok objs s'"
    and "files_same objs {(INODE, uuid_to_string X (i_ino (core i)))} s s'"
proof -
  let ?k = "uuid_to_string X (i_ino (core i))"
  obtain c where c: "rados_file objs s INODE ?k c" using store_ok_file [OF ok] by blast
  have ne: "inode_raw i \<noteq> []" using length_inode_raw [OF wf] by (auto simp: REG_INODE_SIZE_def)
  obtain s' where w: "rados_write X INODE ?k (inode_raw i) 0 s = (Inr (length (inode_raw i)), s')"
    "rados_file objs s' INODE ?k (overlay c 0 (inode_raw i))" "files_same objs {(INODE, ?k)} s s'" "store_ok objs s'"
    using pool_write [OF c ne, of 0] ok by metis
  moreover have "inode_sync X i s = (Inr (), s')"
    using w(1) by (simp add: inode_sync_def inode_serialize_wf [OF wf])
  moreover have "inode_at X objs s' i"
    using w(2) wf by (auto simp: inode_at_def overlay_def)
  ultimately show thesis by (intro that)
qed

text \<open>An inode that is in the pool is loaded with its attributes and its target.\<close>

lemma inode_load_at:
  assumes "inode_at X objs s i"
  obtains s' where "inode_load X (i_ino (core i)) s = (Inr (loaded_inode i), s')" and "files_same objs {} s s'"
proof -
  let ?k = "uuid_to_string X (i_ino (core i))" and ?n = "unat (link_target_len (core i))"
  obtain old where c: "rados_file objs s INODE ?k (inode_raw i @ old)" and wf: "wf_inode i"
    using assms by (auto simp: inode_at_def)
  have u: "is_uuid (i_ino (core i))" using wf by (simp add: wf_inode_def)
  then have len: "length (core_bytes (core i)) = REG_INODE_SIZE" by simp
  have all: "length (inode_raw i) = REG_INODE_SIZE + ?n" by (rule length_inode_raw [OF wf])
  have "take REG_INODE_SIZE (drop 0 (inode_raw i @ old)) = core_bytes (core i)"
    by (simp add: inode_raw_def len)
  then obtain s1 where s1: "rados_read X INODE ?k REG_INODE_SIZE 0 s = (Inr REG_INODE_SIZE, core_bytes (core i), s1)"
    "files_same objs {} s s1"
    using pool_read [OF c, of 0 REG_INODE_SIZE] all len by (metis add_0 le_add1 length_append trans_le_add1)
  have c1: "rados_file objs s1 INODE ?k (inode_raw i @ old)"
    using c files_same_file [OF s1(2)] by simp
  obtain s2 where s2: "rados_read X INODE ?k ?n REG_INODE_SIZE s1 =
      (Inr (length (take ?n (drop REG_INODE_SIZE (inode_raw i @ old)))), take ?n (drop REG_INODE_SIZE (inode_raw i @ old)), s2)"
    "files_same objs {} s1 s2"
    using pool_read [OF c1, of REG_INODE_SIZE ?n] all by auto
  have name: "S_ISLNK (i_mode (core i)) \<Longrightarrow> link_target_name i = Some (take ?n (drop REG_INODE_SIZE (inode_raw i @ old)))"
    using wf by (auto simp: wf_inode_def inode_raw_def len split: option.splits)
  have "\<exists>s'. inode_load X (i_ino (core i)) s = (Inr (loaded_inode i), s') \<and> files_same objs {} s s'"
  proof (cases "S_ISLNK (i_mode (core i))")
    case True
    then have "length (take ?n (drop REG_INODE_SIZE (inode_raw i @ old))) = ?n" using all by simp
    with True s1(1) s2(1) name core_of_core_bytes [OF u] len
    have "inode_load X (i_ino (core i)) s = (Inr (loaded_inode i), s2)"
      by (simp add: inode_load_def inode_deserialize_def loaded_inode_def Let_def del: length_take)
    then show ?thesis using files_same_trans [OF s1(2) s2(2)] by auto
  next
    case False
    with wf s1(1) core_of_core_bytes [OF u] len have "inode_load X (i_ino (core i)) s = (Inr (loaded_inode i), s1)"
      by (simp add: inode_load_def inode_deserialize_def loaded_inode_def Let_def wf_inode_def inode_blank_def)
    then show ?thesis using s1(2) by blast
  qed
  then show thesis using that by blast
qed

text \<open>An inode number without an object gives \<open>no_entry\<close>.\<close>

lemma inode_load_absent:
  assumes "store_ok objs s" and "\<not> rados_present objs s INODE (uuid_to_string X ino)"
  shows "fst (inode_load X ino s) = Inl No_entry"
proof -
  obtain c where "rados_file objs s INODE (uuid_to_string X ino) c" using store_ok_file [OF assms(1)] by blast
  then have "fst (rados_read X INODE (uuid_to_string X ino) REG_INODE_SIZE 0 s) = Inl (No_such_object 0)"
    using files.fread_absent [OF _ assms(2)] by (simp add: REG_INODE_SIZE_def)
  then show ?thesis by (auto simp: inode_load_def split: prod.splits)
qed

end

section \<open>What the permission check decides\<close>

text \<open>The POSIX rule: the first matching class of the mode decides, bit by bit.\<close>

definition class_mode :: "32 word \<Rightarrow> 32 word \<Rightarrow> inode \<Rightarrow> 32 word" where
  "class_mode uid gid i =
     (if uid = i_uid (core i) then drop_bit 6 (i_mode (core i))
      else if gid = i_gid (core i) then drop_bit 3 (i_mode (core i))
      else i_mode (core i))"

lemma and_bit_iff:
  fixes w :: "32 word"
  shows "w AND 4 = 0 \<longleftrightarrow> \<not> bit w 2" and "w AND 2 = 0 \<longleftrightarrow> \<not> bit w 1" and "w AND 1 = 0 \<longleftrightarrow> \<not> bit w 0"
  using and_exp_eq_0_iff_not_bit [of w 2] and_exp_eq_0_iff_not_bit [of w 1] and_exp_eq_0_iff_not_bit [of w 0]
  by simp_all

lemma mode_mask_bits:
  fixes m :: "32 word"
  assumes "n < 3"
  shows "bit (drop_bit 6 (m AND 448)) n = bit (drop_bit 6 m) n"
    and "bit (drop_bit 3 (m AND 56)) n = bit (drop_bit 3 m) n"
    and "bit (m AND 7) n = bit m n"
proof -
  from assms have n: "n = 0 \<or> n = 1 \<or> n = 2" by linarith
  then show "bit (drop_bit 6 (m AND 448)) n = bit (drop_bit 6 m) n"
    by (elim disjE) (simp_all add: bit_simps)
  from n show "bit (drop_bit 3 (m AND 56)) n = bit (drop_bit 3 m) n"
    by (elim disjE) (simp_all add: bit_simps)
  from n show "bit (m AND 7) n = bit m n"
    by (elim disjE) (simp_all add: bit_simps)
qed

lemma all_less_3: "(\<forall>n<3. P (n::nat)) \<longleftrightarrow> P 0 \<and> P 1 \<and> P 2"
  by (auto simp: less_Suc_eq numeral_3_eq_3 numeral_2_eq_2)

text \<open>Access is granted exactly when the deciding class has every requested bit.\<close>

lemma permission_check_bits:
  "permission_check uid gid i msk = Inr () \<longleftrightarrow> (\<forall>n<3. bit msk n \<longrightarrow> bit (class_mode uid gid i) n)"
  unfolding all_less_3
  by (simp add: permission_check_def Let_def R_OK_def W_OK_def X_OK_def S_IRWXU_def S_IRWXG_def S_IRWXO_def
      and_bit_iff mode_mask_bits class_mode_def) blast

lemma permission_check_denied:
  "permission_check uid gid i msk \<noteq> Inr () \<Longrightarrow> permission_check uid gid i msk = Inl Permission_denied"
  by (simp add: permission_check_def Let_def split: if_splits)

section \<open>Properties\<close>

text \<open>C37. Inodes survive the pool: after \<open>sync\<close>, the constructor \<open>inode(ino)\<close> returns an inode with
  the same attributes and the same symlink target, and no other file of the pool has changed.\<close>

theorem inode_sync_then_load:
  assumes "librados X objs" and "store_ok objs s" and "wf_inode i"
  shows "\<exists>s1 s2. inode_sync X i s = (Inr (), s1) \<and> files_same objs {(INODE, uuid_to_string X (i_ino (core i)))} s s1
    \<and> inode_load X (i_ino (core i)) s1 = (Inr (loaded_inode i), s2) \<and> files_same objs {} s1 s2"
proof -
  obtain s1 where s1: "inode_sync X i s = (Inr (), s1)" "inode_at X objs s1 i"
    "files_same objs {(INODE, uuid_to_string X (i_ino (core i)))} s s1"
    using librados.inode_sync_at [OF assms] by metis
  obtain s2 where "inode_load X (i_ino (core i)) s1 = (Inr (loaded_inode i), s2)" "files_same objs {} s1 s2"
    using librados.inode_load_at [OF assms(1) s1(2)] by metis
  with s1 show ?thesis by blast
qed

definition sample_link :: inode where
  "sample_link = inode_new_symlink \<lparr>tv_sec = 1, tv_nsec = 2\<rparr> (replicate 16 CHR ''u'') get_root_ino 0 0 S_IFLNK ''target''"

lemma sample_link_wf: "wf_inode sample_link"
  by code_simp

theorem inode_sync_then_load_witness:
  "\<exists>s1 s2. inode_sync mem_ext sample_link Map.empty = (Inr (), s1)
    \<and> files_same (\<lambda>M. M) {(INODE, uuid_to_string mem_ext (i_ino (core sample_link)))} Map.empty s1
    \<and> inode_load mem_ext (i_ino (core sample_link)) s1 = (Inr (loaded_inode sample_link), s2) \<and> files_same (\<lambda>M. M) {} s1 s2"
  by (rule inode_sync_then_load [OF mem_librados mem_empty_ok sample_link_wf])

text \<open>Loading an inode that has no object fails with \<open>no_entry\<close>, the exception the callers turn
  into \<open>ENOENT\<close>.\<close>

theorem inode_load_no_entry:
  assumes "librados X objs" and "store_ok objs s" and "\<not> rados_present objs s INODE (uuid_to_string X ino)"
  shows "fst (inode_load X ino s) = Inl No_entry"
  using assms by (rule librados.inode_load_absent)

theorem inode_load_no_entry_witness: "fst (inode_load mem_ext get_root_ino Map.empty) = Inl No_entry"
  by (rule inode_load_no_entry [OF mem_librados mem_empty_ok]) (simp add: rados_present_def)

text \<open>C40. The permission check decides as POSIX does: the owner's bits for the owner, else the group's
  bits for the group, else the others' bits, and every requested bit of \<open>rwx\<close> has to be there;
  otherwise it throws \<open>permission_denied\<close>.\<close>

theorem permission_check_decides:
  "permission_check uid gid i msk =
     (if \<forall>n<3. bit msk n \<longrightarrow> bit (class_mode uid gid i) n then Inr () else Inl Permission_denied)"
  using permission_check_bits [of uid gid i msk] permission_check_denied [of uid gid i msk] by auto

theorem permission_check_decides_witness:
  "permission_check 7 7 sample_link 0 =
     (if \<forall>n<3. bit (0 :: 32 word) n \<longrightarrow> bit (class_mode 7 7 sample_link) n then Inr () else Inl Permission_denied)
   \<and> permission_check 7 7 sample_link R_OK = Inl Permission_denied"
proof -
  have "\<not> (\<forall>n<3. bit R_OK n \<longrightarrow> bit (class_mode 7 7 sample_link) n)"
    unfolding all_less_3 by code_simp
  then show ?thesis
    using permission_check_decides [of 7 7 sample_link 0] permission_check_decides [of 7 7 sample_link R_OK] by simp
qed

text \<open>\<open>fill_stat\<close> reports every attribute except the change time: the nanoseconds of the change
  time end up in \<open>st_ctim.tv_sec\<close>, and \<open>st_ctim.tv_nsec\<close> is not set.\<close>

theorem fill_stat_fields:
  "st_mode (fill_stat i st) = i_mode (core i) \<and> st_uid (fill_stat i st) = i_uid (core i)
   \<and> st_gid (fill_stat i st) = i_gid (core i) \<and> st_nlink (fill_stat i st) = i_nlink (core i)
   \<and> st_size (fill_stat i st) = i_size (core i) \<and> st_ino (fill_stat i st) = get_postfix_from_uuid (i_ino (core i))
   \<and> st_atim (fill_stat i st) = i_atime (core i) \<and> st_mtim (fill_stat i st) = i_mtime (core i)
   \<and> tv_sec (st_ctim (fill_stat i st)) = tv_nsec (i_ctime (core i))
   \<and> tv_nsec (st_ctim (fill_stat i st)) = tv_nsec (st_ctim st)"
  by (simp add: fill_stat_def Let_def)

text \<open>An inode survives a rename between two clients: the message that carries it gives back
  the same attributes, and the target of a symlink.\<close>

theorem rename_messages_roundtrip:
  assumes "wf_inode i"
  shows "(\<exists>m'. inode_to_rename_src_response i m = Inr m' \<and> core (rename_src_response_to_inode m' j) = core i
      \<and> (S_ISLNK (i_mode (core i)) \<longrightarrow> link_target_name (rename_src_response_to_inode m' j) = link_target_name i))
    \<and> (\<exists>m'. inode_to_rename_dst_request i m = Inr m' \<and> core (rename_dst_request_to_inode m' j) = core i
      \<and> (S_ISLNK (i_mode (core i)) \<longrightarrow> link_target_name (rename_dst_request_to_inode m' j) = link_target_name i))"
  unfolding inode_to_rename_dst_request_def rename_dst_request_to_inode_def
  using rename_message_roundtrip [OF assms, of m j] by blast

theorem rename_messages_roundtrip_witness:
  "\<forall>m :: rename_target. \<exists>m'. inode_to_rename_dst_request sample_link m = Inr m'
     \<and> core (rename_dst_request_to_inode m' (inode_blank LOCAL)) = core sample_link"
  using rename_messages_roundtrip [OF sample_link_wf] by blast

end
