(* ===== verification/Dentry.thy ===== *)
theory Dentry
  imports Inode
begin

text \<open>
  Directory entries (\<open>client/meta/dentry.cpp\<close>): the children of one directory and their object
  representation in the metadata pool.
\<close>

definition MAX_DENTRY_OBJ_SIZE :: nat where "MAX_DENTRY_OBJ_SIZE = OBJ_SIZE"

record dentry =
  this_ino :: uuid
  child_list :: "(string, uuid) robin_map"

definition add_child :: "string \<Rightarrow> uuid \<Rightarrow> dentry \<Rightarrow> dentry" where
  "add_child filename ino d =
     (case rm_insert filename ino (child_list d) of
        (m, inserted) \<Rightarrow> d\<lparr>child_list := (if inserted then m else rm_set filename ino m)\<rparr>)"

definition delete_child :: "string \<Rightarrow> dentry \<Rightarrow> dentry" where
  "delete_child filename d =
     (case rm_find (child_list d) filename of
        Some _ \<Rightarrow> d\<lparr>child_list := rm_erase filename (child_list d)\<rparr>
      | None \<Rightarrow> d)"

definition get_child_ino :: "dentry \<Rightarrow> string \<Rightarrow> uuid" where
  "get_child_ino d child_name =
     (case rm_find (child_list d) child_name of None \<Rightarrow> nil_uuid | Some ino \<Rightarrow> ino)"

text \<open>The names handed to FUSE's \<open>filler\<close>, in order\<close>

definition fill_filler :: "dentry \<Rightarrow> string list" where
  "fill_filler d = [''.'', ''..''] @ map (\<lambda>it. c_string (fst it)) (child_list d)"

definition get_child_num :: "dentry \<Rightarrow> nat" where
  "get_child_num d = length (child_list d)"

fun total_name_length :: "(string, uuid) robin_map \<Rightarrow> nat" where
  "total_name_length [] = 0"
| "total_name_length ((name, ino) # rest) = length name + total_name_length rest"

definition get_total_name_length :: "dentry \<Rightarrow> nat" where
  "get_total_name_length d = total_name_length (child_list d)"

section \<open>Object representation\<close>

text \<open>One entry: the length of the name as an \<open>int\<close>, the name, the inode number\<close>

fun serialize_children :: "(string, uuid) robin_map \<Rightarrow> bytes" where
  "serialize_children [] = []"
| "serialize_children ((name, ino) # rest) =
     enc_le 4 (length name) @ name @ ino @ serialize_children rest"

definition raw_size :: "dentry \<Rightarrow> nat" where
  "raw_size d = 8 + get_child_num d * 4 + get_total_name_length d + get_child_num d * 16"

text \<open>\<open>serialize\<close> allocates one more byte than \<open>raw_size\<close>, which stays zero.\<close>

definition dentry_serialize :: "dentry \<Rightarrow> bytes" where
  "dentry_serialize d = enc_le 8 (get_child_num d) @ serialize_children (child_list d) @ [zero_byte]"

text \<open>
  \<open>deserialize\<close> walks a buffer; a step past its end is out of bounds. A name length with the
  top bit set is negative as an \<open>int\<close>. The name is turned into a \<open>std::string\<close> as a C string.
\<close>

fun deserialize_children :: "nat \<Rightarrow> bytes \<Rightarrow> (string, uuid) robin_map \<Rightarrow> exn + (string, uuid) robin_map" where
  "deserialize_children 0 raw m = Inr m"
| "deserialize_children (Suc i) raw m =
     (if length raw < 4 then Inl (Crash ''dentry buffer'')
      else
        (let name_length = dec_le (take 4 raw); raw = drop 4 raw
         in if name_length \<ge> 2 ^ 31 \<or> length raw < name_length + 16 then Inl (Crash ''dentry buffer'')
            else
              (let name = c_string (take name_length raw);
                   raw = drop name_length raw;
                   ino = take 16 raw;
                   raw = drop 16 raw
               in deserialize_children i raw (fst (rm_insert name ino m)))))"

definition dentry_deserialize :: "bytes \<Rightarrow> dentry \<Rightarrow> exn + dentry" where
  "dentry_deserialize raw d =
     (if length raw < 8 then Inl (Crash ''dentry buffer'')
      else case deserialize_children (dec_le (take 8 raw)) (drop 8 raw) (child_list d) of
        Inl e \<Rightarrow> Inl e
      | Inr m \<Rightarrow> Inr (d\<lparr>child_list := m\<rparr>))"

text \<open>The constructor \<open>dentry(ino, mkdir)\<close>\<close>

definition dentry_new :: "'s ext \<Rightarrow> uuid \<Rightarrow> bool \<Rightarrow> (dentry, 's) step" where
  "dentry_new X ino mkdir s =
     (let d = \<lparr>this_ino = ino, child_list = []\<rparr>
      in if mkdir then (Inr d, s)
         else
           (case rados_read X DENTRY (uuid_to_string X ino) MAX_DENTRY_OBJ_SIZE 0 s of
              (Inl (No_such_object n), bs, s') \<Rightarrow> (Inl (Runtime_error ''Dentry Corrupted''), s')
            | (Inl e, bs, s') \<Rightarrow> (Inl e, s')
            | (Inr n, bs, s') \<Rightarrow>
                (dentry_deserialize (bs @ replicate (MAX_DENTRY_OBJ_SIZE - length bs) zero_byte) d, s')))"

definition dentry_sync :: "'s ext \<Rightarrow> dentry \<Rightarrow> (unit, 's) step" where
  "dentry_sync X d s =
     (case rados_write X DENTRY (uuid_to_string X (this_ino d)) (take (raw_size d) (dentry_serialize d)) 0 s of
        (Inl e, s') \<Rightarrow> (Inl e, s')
      | (Inr n, s') \<Rightarrow> (Inr (), s'))"

section \<open>The children as a map\<close>

text \<open>
  Names are C strings that fit an \<open>int\<close> length, inode numbers are UUIDs, and the object fits the
  one block the constructor reads.
\<close>

definition wf_children :: "(string, uuid) robin_map \<Rightarrow> bool" where
  "wf_children m \<longleftrightarrow> rm_wf m \<and>
     (\<forall>(name, ino) \<in> set m. zero_byte \<notin> set name \<and> length name < 2 ^ 31 \<and> is_uuid ino \<and> \<not> is_nil ino)"

definition wf_dentry :: "dentry \<Rightarrow> bool" where
  "wf_dentry d \<longleftrightarrow> is_uuid (this_ino d) \<and> wf_children (child_list d) \<and> raw_size d \<le> MAX_DENTRY_OBJ_SIZE"

abbreviation children :: "dentry \<Rightarrow> string \<rightharpoonup> uuid" where
  "children d \<equiv> rm_find (child_list d)"

lemma add_child_map: "children (add_child name ino d) = (children d)(name \<mapsto> ino)"
  by (cases "children d name") (simp_all add: add_child_def rm_simps)

lemma delete_child_map: "children (delete_child name d) = (children d)(name := None)"
  by (cases "children d name") (auto simp: delete_child_def rm_simps)

lemma this_ino_add_child [simp]: "this_ino (add_child name ino d) = this_ino d"
  by (simp add: add_child_def split: prod.splits)

lemma this_ino_delete_child [simp]: "this_ino (delete_child name d) = this_ino d"
  by (simp add: delete_child_def split: option.splits)

lemma rm_wf_add_child: "rm_wf (child_list d) \<Longrightarrow> rm_wf (child_list (add_child name ino d))"
  by (cases "children d name") (simp_all add: add_child_def rm_simps rm_wf_intros del: map_append)

lemma rm_wf_delete_child: "rm_wf (child_list d) \<Longrightarrow> rm_wf (child_list (delete_child name d))"
  by (simp add: delete_child_def rm_wf_intros split: option.splits)

lemma wf_childrenI:
  assumes "rm_wf m" and "\<And>name ino. map_of m name = Some ino \<Longrightarrow>
    zero_byte \<notin> set name \<and> length name < 2 ^ 31 \<and> is_uuid ino \<and> \<not> is_nil ino"
  shows "wf_children m"
  using assms by (auto simp: wf_children_def)

lemma wf_childrenD:
  "wf_children m \<Longrightarrow> map_of m name = Some ino \<Longrightarrow>
    zero_byte \<notin> set name \<and> length name < 2 ^ 31 \<and> is_uuid ino \<and> \<not> is_nil ino"
  by (auto simp: wf_children_def dest!: map_of_SomeD)

lemma wf_children_add:
  assumes "wf_children (child_list d)" and "zero_byte \<notin> set name" and "length name < 2 ^ 31" and "is_uuid ino" and "\<not> is_nil ino"
  shows "wf_children (child_list (add_child name ino d))"
  using assms wf_childrenD [OF assms(1)]
  by (intro wf_childrenI rm_wf_add_child) (auto simp: add_child_map wf_children_def split: if_splits)

lemma wf_children_delete:
  assumes "wf_children (child_list d)"
  shows "wf_children (child_list (delete_child name d))"
  using assms wf_childrenD [OF assms]
  by (intro wf_childrenI rm_wf_delete_child) (auto simp: delete_child_map wf_children_def split: if_splits)

lemma get_child_ino_None: "children d name = None \<Longrightarrow> is_nil (get_child_ino d name)"
  by (simp add: get_child_ino_def is_nil_iff)

lemma get_child_ino_iff:
  "wf_children (child_list d) \<Longrightarrow> children d name = (if is_nil (get_child_ino d name) then None else Some (get_child_ino d name))"
  by (cases "children d name") (auto simp: get_child_ino_def is_nil_iff dest: wf_childrenD)

section \<open>Round trip\<close>

lemma wf_children_Cons:
  "wf_children ((name, ino) # m) \<longleftrightarrow> name \<notin> fst ` set m \<and> zero_byte \<notin> set name \<and> length name < 2 ^ 31
     \<and> is_uuid ino \<and> \<not> is_nil ino \<and> wf_children m"
  by (auto simp: wf_children_def)

lemma length_serialize_children:
  "wf_children m \<Longrightarrow> length (serialize_children m) = length m * 4 + total_name_length m + length m * 16"
  by (induction m rule: serialize_children.induct) (auto simp: wf_children_Cons)

lemma deserialize_serialize:
  assumes "wf_children (acc @ m)"
  shows "deserialize_children (length m) (serialize_children m @ rest) acc = Inr (acc @ m)"
  using assms
proof (induction m arbitrary: acc rule: serialize_children.induct)
  case (2 name ino m)
  have wf: "wf_children ((name, ino) # m)" and "map_of acc name = None"
    using "2.prems" by (auto simp: wf_children_def map_of_eq_None_iff)
  then have ins: "fst (rm_insert name ino acc) = acc @ [(name, ino)]"
    by (simp add: rm_insert_new)
  from wf have n: "length name < 2 ^ 31" "is_uuid ino" "zero_byte \<notin> set name"
    by (simp_all add: wf_children_Cons)
  then have "length name mod 256 ^ 4 = length name" by simp
  with n ins "2.IH" [of "acc @ [(name, ino)]"] "2.prems" show ?case by (simp add: Let_def)
qed simp

lemma length_dentry_serialize: "wf_children (child_list d) \<Longrightarrow> length (dentry_serialize d) = raw_size d + 1"
  by (simp add: dentry_serialize_def raw_size_def length_serialize_children get_child_num_def get_total_name_length_def)

lemma dentry_roundtrip:
  assumes wf: "wf_dentry d"
  shows "dentry_deserialize (take (raw_size d) (dentry_serialize d) @ rest) \<lparr>this_ino = this_ino d, child_list = []\<rparr> = Inr d"
proof -
  have wc: "wf_children (child_list d)" and "raw_size d \<le> OBJ_SIZE"
    using wf by (auto simp: wf_dentry_def MAX_DENTRY_OBJ_SIZE_def)
  then have num: "length (child_list d) < 256 ^ 8"
    by (simp add: raw_size_def get_child_num_def OBJ_SIZE_def OBJ_BITS_def)
  have "take (raw_size d) (dentry_serialize d) = enc_le 8 (length (child_list d)) @ serialize_children (child_list d)"
    using length_serialize_children [OF wc]
    by (simp add: dentry_serialize_def raw_size_def get_child_num_def get_total_name_length_def)
  moreover have "dec_le (enc_le 8 (length (child_list d))) = length (child_list d)"
    using num by (rule dec_enc_le_small)
  ultimately show ?thesis
    using deserialize_serialize [of "[]" "child_list d" rest] wc by (simp add: dentry_deserialize_def)
qed

text \<open>What \<open>sync\<close> writes, and that the pool holds it; older, longer contents may follow.\<close>

definition dentry_raw :: "dentry \<Rightarrow> bytes" where
  "dentry_raw d = take (raw_size d) (dentry_serialize d)"

definition dentry_at :: "'s ext \<Rightarrow> ('s \<Rightarrow> string \<rightharpoonup> bytes) \<Rightarrow> 's \<Rightarrow> dentry \<Rightarrow> bool" where
  "dentry_at X objs s d \<longleftrightarrow> wf_dentry d \<and>
     (\<exists>old. rados_file objs s DENTRY (uuid_to_string X (this_ino d)) (dentry_raw d @ old)
        \<and> rados_present objs s DENTRY (uuid_to_string X (this_ino d)))"

lemma dentry_at_same:
  "files_same objs W s s' \<Longrightarrow> (DENTRY, uuid_to_string X (this_ino d)) \<notin> W \<Longrightarrow> dentry_at X objs s' d \<longleftrightarrow> dentry_at X objs s d"
  by (simp add: dentry_at_def files_same_file files_same_present)

lemma length_dentry_raw: "wf_dentry d \<Longrightarrow> length (dentry_raw d) = raw_size d"
  by (simp add: dentry_raw_def length_dentry_serialize wf_dentry_def)

context librados
begin

lemma dentry_sync_at:
  assumes ok: "store_ok objs s" and wf: "wf_dentry d"
  obtains s' where "dentry_sync X d s = (Inr (), s')" and "dentry_at X objs s' d" and "store_ok objs s'"
    and "files_same objs {(DENTRY, uuid_to_string X (this_ino d))} s s'"
proof -
  let ?k = "uuid_to_string X (this_ino d)"
  obtain c where c: "rados_file objs s DENTRY ?k c" using store_ok_file [OF ok] by blast
  have ne: "dentry_raw d \<noteq> []" using length_dentry_raw [OF wf] by (auto simp: raw_size_def)
  obtain s' where w: "rados_write X DENTRY ?k (dentry_raw d) 0 s = (Inr (length (dentry_raw d)), s')"
    "rados_file objs s' DENTRY ?k (overlay c 0 (dentry_raw d))" "rados_present objs s' DENTRY ?k"
    "files_same objs {(DENTRY, ?k)} s s'" "store_ok objs s'"
    using pool_write [OF c ne, of 0] ok by metis
  moreover have "dentry_sync X d s = (Inr (), s')"
    using w(1) by (simp add: dentry_sync_def dentry_raw_def)
  moreover have "dentry_at X objs s' d"
    using w(2,3) wf by (auto simp: dentry_at_def overlay_def)
  ultimately show thesis by (intro that)
qed

text \<open>A directory that is in the pool is loaded with its children, whatever longer representation
  the object held before.\<close>

lemma dentry_load_at:
  assumes "dentry_at X objs s d"
  obtains s' where "dentry_new X (this_ino d) False s = (Inr d, s')" and "files_same objs {} s s'"
proof -
  let ?k = "uuid_to_string X (this_ino d)"
  obtain old where wf: "wf_dentry d" and c: "rados_file objs s DENTRY ?k (dentry_raw d @ old)"
    and p: "rados_present objs s DENTRY ?k"
    using assms by (auto simp: dentry_at_def)
  have len: "length (dentry_raw d) = raw_size d" and le: "raw_size d \<le> OBJ_SIZE"
    using wf length_dentry_raw [OF wf] by (simp_all add: wf_dentry_def MAX_DENTRY_OBJ_SIZE_def)
  obtain s' where r: "rados_read X DENTRY ?k OBJ_SIZE 0 s =
      (Inr (length (take OBJ_SIZE (drop 0 (dentry_raw d @ old)))), take OBJ_SIZE (drop 0 (dentry_raw d @ old)), s')"
    "files_same objs {} s s'"
    using pool_read [OF c, of 0 OBJ_SIZE] p by auto
  have "take OBJ_SIZE (drop 0 (dentry_raw d @ old)) = dentry_raw d @ take (OBJ_SIZE - raw_size d) old"
    using le len by simp
  with r(1) dentry_roundtrip [OF wf] have "dentry_new X (this_ino d) False s = (Inr d, s')"
    by (simp add: dentry_new_def MAX_DENTRY_OBJ_SIZE_def dentry_raw_def)
  then show thesis using r(2) by (rule that)
qed

lemma dentry_load_absent:
  assumes "store_ok objs s" and "\<not> rados_present objs s DENTRY (uuid_to_string X ino)"
  shows "fst (dentry_new X ino False s) = Inl (Runtime_error ''Dentry Corrupted'')"
proof -
  obtain c where "rados_file objs s DENTRY (uuid_to_string X ino) c" using store_ok_file [OF assms(1)] by blast
  then have "fst (rados_read X DENTRY (uuid_to_string X ino) MAX_DENTRY_OBJ_SIZE 0 s) = Inl (No_such_object 0)"
    using files.fread_absent [OF _ assms(2)] by (simp add: MAX_DENTRY_OBJ_SIZE_def OBJ_SIZE_def OBJ_BITS_def)
  then show ?thesis by (auto simp: dentry_new_def split: prod.splits)
qed

end

section \<open>Properties\<close>

text \<open>C36. A directory survives the pool: after \<open>sync\<close>, the constructor \<open>dentry(ino)\<close> returns the same
  children, even when the object held a longer directory before, and no other file has changed.\<close>

theorem dentry_sync_then_load:
  assumes "librados X objs" and "store_ok objs s" and "wf_dentry d"
  shows "\<exists>s1 s2. dentry_sync X d s = (Inr (), s1) \<and> files_same objs {(DENTRY, uuid_to_string X (this_ino d))} s s1
    \<and> dentry_new X (this_ino d) False s1 = (Inr d, s2) \<and> files_same objs {} s1 s2"
proof -
  obtain s1 where s1: "dentry_sync X d s = (Inr (), s1)" "dentry_at X objs s1 d"
    "files_same objs {(DENTRY, uuid_to_string X (this_ino d))} s s1"
    using librados.dentry_sync_at [OF assms] by metis
  obtain s2 where "dentry_new X (this_ino d) False s1 = (Inr d, s2)" "files_same objs {} s1 s2"
    using librados.dentry_load_at [OF assms(1) s1(2)] by metis
  with s1 show ?thesis by blast
qed

definition sample_dir :: dentry where
  "sample_dir = add_child ''b'' (replicate 16 CHR ''v'') (add_child ''a'' (replicate 16 CHR ''u'') \<lparr>this_ino = get_root_ino, child_list = []\<rparr>)"

lemma sample_dir_wf: "wf_dentry sample_dir"
  by (simp add: sample_dir_def wf_dentry_def wf_children_def add_child_def rm_insert_def raw_size_def get_child_num_def
      get_total_name_length_def MAX_DENTRY_OBJ_SIZE_def OBJ_SIZE_def OBJ_BITS_def is_nil_def)

theorem dentry_sync_then_load_witness:
  "\<exists>s1 s2. dentry_sync mem_ext sample_dir Map.empty = (Inr (), s1)
    \<and> files_same (\<lambda>M. M) {(DENTRY, uuid_to_string mem_ext (this_ino sample_dir))} Map.empty s1
    \<and> dentry_new mem_ext (this_ino sample_dir) False s1 = (Inr sample_dir, s2) \<and> files_same (\<lambda>M. M) {} s1 s2"
  by (rule dentry_sync_then_load [OF mem_librados mem_empty_ok sample_dir_wf])

text \<open>The child list is a map from names to inode numbers: \<open>add_child\<close> binds a name, replacing an
  older binding, \<open>delete_child\<close> removes it and nothing else, and \<open>get_child_ino\<close> answers the bound
  number, or the nil UUID for an unbound name.\<close>

theorem dentry_is_a_map:
  "children (add_child name ino d) = (children d)(name \<mapsto> ino) \<and> children (delete_child name d) = (children d)(name := None)
   \<and> get_child_ino d name = (case children d name of None \<Rightarrow> nil_uuid | Some i \<Rightarrow> i)"
  by (simp add: add_child_map delete_child_map get_child_ino_def)

text \<open>A directory without an object is reported as corrupted.\<close>

theorem dentry_load_corrupted:
  assumes "librados X objs" and "store_ok objs s" and "\<not> rados_present objs s DENTRY (uuid_to_string X ino)"
  shows "fst (dentry_new X ino False s) = Inl (Runtime_error ''Dentry Corrupted'')"
  using assms by (rule librados.dentry_load_absent)

theorem dentry_load_corrupted_witness:
  "fst (dentry_new mem_ext get_root_ino False Map.empty) = Inl (Runtime_error ''Dentry Corrupted'')"
  by (rule dentry_load_corrupted [OF mem_librados mem_empty_ok]) (simp add: rados_present_def)

end
