(* ===== verification/Transaction.thy ===== *)
theory Transaction
  imports Dentry
begin

text \<open>
  Transactions (\<open>client/journal/transaction.cpp\<close>): the changes to one directory since the last
  commit. An operation works under the transaction's mutex, so it is one step; it returns \<open>-1\<close>
  when the transaction was committed already. A \<open>unique_ptr<inode>\<close> is an \<open>option\<close>.
\<close>

datatype self_status = S_UNCHANGED | S_CREATED | S_DELETED

record transaction =
  committed :: bool
  tx_offset :: nat
  status :: self_status
  s_ino :: uuid
  s_inode :: "inode option"
  dentries :: "(string, bool \<times> uuid) robin_map"
  f_inodes :: "(uuid, inode option) robin_map"

definition transaction_new :: "uuid \<Rightarrow> transaction" where
  "transaction_new self_ino =
     \<lparr>committed = False, tx_offset = 0, status = S_UNCHANGED, s_ino = self_ino, s_inode = None,
      dentries = [], f_inodes = []\<rparr>"

section \<open>Operations on the directory itself\<close>

definition tx_mkself :: "inode \<Rightarrow> (int, transaction) step" where
  "tx_mkself self_inode tx =
     (if committed tx then (Inr (- 1), tx)
      else (Inr 0, tx\<lparr>s_inode := Some (inode_copy self_inode), status := S_CREATED\<rparr>))"

definition tx_rmself :: "uuid \<Rightarrow> (int, transaction) step" where
  "tx_rmself self_ino tx =
     (if committed tx then (Inr (- 1), tx) else (Inr 0, tx\<lparr>status := S_DELETED\<rparr>))"

definition tx_chself :: "inode \<Rightarrow> (int, transaction) step" where
  "tx_chself self_inode tx =
     (if committed tx then (Inr (- 1), tx)
      else (Inr 0, tx\<lparr>s_inode := Some (inode_copy self_inode)\<rparr>))"

section \<open>Fragments the operations share\<close>

text \<open>\<open>if (s_inode) \<dots> set_mtime, set_ctime \<dots> else s_inode = make_unique<inode>(*self_inode)\<close>\<close>

definition touch_self :: "inode \<Rightarrow> transaction \<Rightarrow> transaction" where
  "touch_self self_inode tx =
     (case s_inode tx of
        Some i \<Rightarrow>
          tx\<lparr>s_inode := Some (i\<lparr>core := (core i)\<lparr>i_mtime := i_mtime (core self_inode),
                                               i_ctime := i_ctime (core self_inode)\<rparr>\<rparr>)\<rparr>
      | None \<Rightarrow> tx\<lparr>s_inode := Some (inode_copy self_inode)\<rparr>)"

text \<open>Insertion of an entry that must not be there yet with the same flag.\<close>

definition put_dentry :: "string \<Rightarrow> string \<Rightarrow> bool \<Rightarrow> uuid \<Rightarrow> transaction \<Rightarrow> exn + transaction" where
  "put_dentry msg name alive ino tx =
     (case rm_insert name (alive, ino) (dentries tx) of
        (m, True) \<Rightarrow> Inr (tx\<lparr>dentries := m\<rparr>)
      | (m, False) \<Rightarrow>
          (case rm_find m name of
             Some (old, _) \<Rightarrow>
               if old \<noteq> alive then Inr (tx\<lparr>dentries := rm_set name (alive, ino) m\<rparr>)
               else Inl (Logic_error msg)
           | None \<Rightarrow> Inl (Crash ''end iterator'')))"

text \<open>Insertion that replaces an entry (\<open>mvdir\<close>, \<open>mvreg\<close>)\<close>

definition set_dentry :: "string \<Rightarrow> bool \<Rightarrow> uuid \<Rightarrow> transaction \<Rightarrow> transaction" where
  "set_dentry name alive ino tx =
     (case rm_insert name (alive, ino) (dentries tx) of
        (m, inserted) \<Rightarrow> tx\<lparr>dentries := (if inserted then m else rm_set name (alive, ino) m)\<rparr>)"

section \<open>Subdirectories\<close>

definition tx_mkdir :: "inode \<Rightarrow> string \<Rightarrow> uuid \<Rightarrow> (int, transaction) step" where
  "tx_mkdir self_inode d_name d_ino tx =
     (if committed tx then (Inr (- 1), tx)
      else case put_dentry ''mkdir'' d_name True d_ino tx of
             Inl e \<Rightarrow> (Inl e, tx)
           | Inr tx \<Rightarrow> (Inr 0, touch_self self_inode tx))"

definition tx_rmdir :: "inode \<Rightarrow> string \<Rightarrow> uuid \<Rightarrow> (int, transaction) step" where
  "tx_rmdir self_inode d_name d_ino tx =
     (if committed tx then (Inr (- 1), tx)
      else case put_dentry ''rmdir'' d_name False d_ino tx of
             Inl e \<Rightarrow> (Inl e, tx)
           | Inr tx \<Rightarrow> (Inr 0, touch_self self_inode tx))"

definition tx_mvdir :: "inode \<Rightarrow> string \<Rightarrow> uuid \<Rightarrow> string \<Rightarrow> uuid \<Rightarrow> (int, transaction) step" where
  "tx_mvdir self_inode src_d_name src_d_ino dst_d_name dst_d_ino tx =
     (if committed tx then (Inr (- 1), tx)
      else case put_dentry ''mvdir'' src_d_name False src_d_ino tx of
             Inl e \<Rightarrow> (Inl e, tx)
           | Inr tx \<Rightarrow> (Inr 0, touch_self self_inode (set_dentry dst_d_name True src_d_ino tx)))"

section \<open>Regular files\<close>

definition tx_mkreg :: "inode \<Rightarrow> string \<Rightarrow> inode \<Rightarrow> (int, transaction) step" where
  "tx_mkreg self_inode f_name f_inode tx =
     (if committed tx then (Inr (- 1), tx)
      else case put_dentry ''mkreg'' f_name True (i_ino (core f_inode)) tx of
             Inl e \<Rightarrow> (Inl e, tx)
           | Inr tx \<Rightarrow>
               (let tx = touch_self self_inode tx; ino = i_ino (core f_inode)
                in case rm_find (f_inodes tx) ino of
                     Some (Some _) \<Rightarrow> (Inl (Logic_error ''mkreg''), tx)
                   | _ \<Rightarrow> (Inr 0, tx\<lparr>f_inodes := rm_set ino (Some (inode_copy f_inode)) (f_inodes tx)\<rparr>)))"

definition tx_rmreg :: "inode \<Rightarrow> string \<Rightarrow> inode \<Rightarrow> (int, transaction) step" where
  "tx_rmreg self_inode f_name f_inode tx =
     (if committed tx then (Inr (- 1), tx)
      else case put_dentry ''rmreg'' f_name False (i_ino (core f_inode)) tx of
             Inl e \<Rightarrow> (Inl e, tx)
           | Inr tx \<Rightarrow>
               (let tx = touch_self self_inode tx; ino = i_ino (core f_inode)
                in case rm_find (f_inodes tx) ino of
                     Some None \<Rightarrow> (Inl (Logic_error ''rmreg''), tx)
                   | _ \<Rightarrow> (Inr 0, tx\<lparr>f_inodes := rm_set ino None (f_inodes tx)\<rparr>)))"

definition tx_mvreg :: "inode \<Rightarrow> string \<Rightarrow> uuid \<Rightarrow> string \<Rightarrow> uuid \<Rightarrow> (int, transaction) step" where
  "tx_mvreg self_inode src_f_name src_f_ino dst_f_name dst_f_ino tx =
     (if committed tx then (Inr (- 1), tx)
      else case put_dentry ''mvreg'' src_f_name False src_f_ino tx of
             Inl e \<Rightarrow> (Inl e, tx)
           | Inr tx \<Rightarrow>
               (let tx = touch_self self_inode (set_dentry dst_f_name True src_f_ino tx)
                in (Inr 0, if is_nil dst_f_ino then tx else tx\<lparr>f_inodes := rm_set dst_f_ino None (f_inodes tx)\<rparr>)))"

definition tx_chreg :: "inode \<Rightarrow> (int, transaction) step" where
  "tx_chreg f_inode tx =
     (if committed tx then (Inr (- 1), tx)
      else (Inr 0, tx\<lparr>f_inodes := rm_set (i_ino (core f_inode)) (Some (inode_copy f_inode)) (f_inodes tx)\<rparr>))"

section \<open>The journal record\<close>

abbreviation minus_one :: char where "minus_one \<equiv> CHR 0xFF"

fun serialize_dentries :: "(string, bool \<times> uuid) robin_map \<Rightarrow> bytes" where
  "serialize_dentries [] = []"
| "serialize_dentries ((name, alive, ino) # rest) =
     (if alive then CHR 0x01 else zero_byte) # enc_le 4 (length name) @ name @ ino @ serialize_dentries rest"

fun serialize_f_inodes :: "(uuid, inode option) robin_map \<Rightarrow> exn + bytes" where
  "serialize_f_inodes [] = Inr []"
| "serialize_f_inodes ((ino, None) # rest) = serialize_f_inodes rest"
| "serialize_f_inodes ((ino, Some i) # rest) =
     (case inode_serialize i of
        Inl e \<Rightarrow> Inl e
      | Inr v \<Rightarrow>
          (case serialize_f_inodes rest of
             Inl e \<Rightarrow> Inl e
           | Inr vs \<Rightarrow> Inr (enc_le 4 (length v) @ v @ vs)))"

definition serialize_s_inode :: "inode option \<Rightarrow> exn + bytes" where
  "serialize_s_inode si =
     (case si of
        None \<Rightarrow> Inr (replicate 4 minus_one)
      | Some i \<Rightarrow>
          (case inode_serialize i of
             Inl e \<Rightarrow> Inl e
           | Inr v \<Rightarrow> Inr (enc_le 4 (length v) @ v)))"

definition tx_serialize :: "transaction \<Rightarrow> exn + bytes" where
  "tx_serialize tx =
     (case serialize_s_inode (s_inode tx) of
        Inl e \<Rightarrow> Inl e
      | Inr self \<Rightarrow>
          (case serialize_f_inodes (f_inodes tx) of
             Inl e \<Rightarrow> Inl e
           | Inr files \<Rightarrow>
               (let body = CHR 0x01 # self @ serialize_dentries (dentries tx) @ [minus_one]
                             @ files @ replicate 4 minus_one
                in Inr (enc_le 4 (4 + length body) @ body))))"

text \<open>
  \<open>deserialize\<close> keeps a signed index into the record; bytes outside of it are out of bounds.
\<close>

definition peek :: "bytes \<Rightarrow> int \<Rightarrow> nat \<Rightarrow> bytes option" where
  "peek raw index n =
     (if 0 \<le> index \<and> nat index + n \<le> length raw then Some (take n (drop (nat index) raw)) else None)"

definition sint32 :: "bytes \<Rightarrow> int" where
  "sint32 bs = sint (dec32 bs)"

text \<open>A negative length makes the constructor of \<open>std::string\<close> throw \<open>length_error\<close>.\<close>

function deserialize_dentries ::
  "bytes \<Rightarrow> int \<Rightarrow> (string, bool \<times> uuid) robin_map \<Rightarrow> exn + ((string, bool \<times> uuid) robin_map \<times> int)" where
  "deserialize_dentries raw index m =
     (case peek raw index 1 of
        None \<Rightarrow> Inl (Crash ''raw'')
      | Some st \<Rightarrow>
          (let entry_stat = hd st; index1 = index + 1
           in if entry_stat = minus_one then Inr (m, index1)
              else case peek raw index1 4 of
                None \<Rightarrow> Inl (Crash ''raw'')
              | Some sz \<Rightarrow>
                  (let dentry_size = sint32 sz; index2 = index1 + 4
                   in if dentry_size < 0 then Inl (Logic_error ''basic_string'')
                      else case (peek raw index2 (nat dentry_size), peek raw (index2 + dentry_size) 16) of
                        (Some name, Some ino) \<Rightarrow>
                          (case rm_insert name (entry_stat \<noteq> zero_byte, ino) m of
                             (m', True) \<Rightarrow> deserialize_dentries raw (index2 + dentry_size + 16) m'
                           | (m', False) \<Rightarrow> Inl (Logic_error ''duplicated key''))
                      | _ \<Rightarrow> Inl (Crash ''raw''))))"
  by pat_completeness auto
termination
  by (relation "measure (\<lambda>(raw, index, m). nat (int (length raw) - index))")
     (auto simp: peek_def split: if_splits)

declare deserialize_dentries.simps [simp del]

text \<open>
  A record size is trusted as it is, negative ones included, so this loop need not end on a
  corrupted record. \<open>inode::deserialize\<close> copies \<open>REG_INODE_SIZE\<close> bytes.
\<close>

partial_function (option) deserialize_f_inodes ::
  "'s ext \<Rightarrow> bytes \<Rightarrow> int \<Rightarrow> (uuid, inode option) robin_map \<Rightarrow> 's \<Rightarrow> ((exn + (uuid, inode option) robin_map) \<times> 's) option" where
  "deserialize_f_inodes X raw index m s =
     (case peek raw index 4 of
        None \<Rightarrow> Some (Inl (Crash ''raw''), s)
      | Some sz \<Rightarrow>
          (let f_inode_size = sint32 sz; index1 = index + 4
           in if f_inode_size = - 1 then Some (Inr m, s)
              else case peek raw index1 REG_INODE_SIZE of
                None \<Rightarrow> Some (Inl (Crash ''raw''), s)
              | Some val \<Rightarrow>
                  (case inode_deserialize X val (inode_blank JOURNAL_COPY) s of
                     (Inl e, s') \<Rightarrow> Some (Inl e, s')
                   | (Inr i, s') \<Rightarrow>
                       (case rm_insert (i_ino (core i)) (Some i) m of
                          (m', inserted) \<Rightarrow>
                            if inserted then deserialize_f_inodes X raw (index1 + f_inode_size) m' s'
                            else Some (Inl (Logic_error ''duplicated key''), s')))))"

text \<open>The self inode is followed by a step of \<open>sizeof(inode)\<close>, not of its recorded size.\<close>

definition deserialize_s_inode :: "'s ext \<Rightarrow> bytes \<Rightarrow> int \<Rightarrow> (inode option \<times> int, 's) step" where
  "deserialize_s_inode X raw index s =
     (case peek raw index 4 of
        None \<Rightarrow> (Inl (Crash ''raw''), s)
      | Some sz \<Rightarrow>
          if sint32 sz = - 1 then (Inr (None, index + 4), s)
          else case peek raw (index + 4) REG_INODE_SIZE of
            None \<Rightarrow> (Inl (Crash ''raw''), s)
          | Some val \<Rightarrow>
              (case inode_deserialize X val (inode_blank JOURNAL_COPY) s of
                 (Inl e, s') \<Rightarrow> (Inl e, s')
               | (Inr i, s') \<Rightarrow> (Inr (Some i, index + 4 + int sizeof_inode), s')))"

definition tx_deserialize :: "'s ext \<Rightarrow> bytes \<Rightarrow> transaction \<Rightarrow> (int \<times> transaction, 's) prog" where
  "tx_deserialize X raw tx s =
     (case peek raw 4 1 of
        None \<Rightarrow> Some (Inl (Crash ''raw''), s)
      | Some valid \<Rightarrow>
          if hd valid = zero_byte then Some (Inr (- 1, tx), s)
          else case deserialize_s_inode X raw 5 s of
            (Inl e, s') \<Rightarrow> Some (Inl e, s')
          | (Inr (si, index), s') \<Rightarrow>
              (let tx = (if si = None then tx else tx\<lparr>s_inode := si\<rparr>)
               in case deserialize_dentries raw index (dentries tx) of
                    Inl e \<Rightarrow> Some (Inl e, s')
                  | Inr (ds, index') \<Rightarrow>
                      bnd (deserialize_f_inodes X raw index' (f_inodes tx))
                        (\<lambda>fs. ret (0, tx\<lparr>dentries := ds, f_inodes := fs\<rparr>)) s'))"

section \<open>Synchronisation, commit and checkpoint\<close>

fun apply_dentries :: "(string, bool \<times> uuid) robin_map \<Rightarrow> dentry \<Rightarrow> dentry" where
  "apply_dentries [] d = d"
| "apply_dentries ((name, alive, ino) # rest) d =
     apply_dentries rest (if alive then add_child name ino d else delete_child name d)"

fun sync_f_inodes :: "'s ext \<Rightarrow> (uuid, inode option) robin_map \<Rightarrow> (unit, 's) step" where
  "sync_f_inodes X [] s = (Inr (), s)"
| "sync_f_inodes X ((ino, None) # rest) s = sync_f_inodes X rest s"
| "sync_f_inodes X ((ino, Some i) # rest) s =
     (case inode_sync X i s of
        (Inl e, s') \<Rightarrow> (Inl e, s')
      | (Inr _, s') \<Rightarrow> sync_f_inodes X rest s')"

definition sync_s_inode :: "'s ext \<Rightarrow> inode option \<Rightarrow> (unit, 's) step" where
  "sync_s_inode X si s = (case si of None \<Rightarrow> (Inr (), s) | Some i \<Rightarrow> inode_sync X i s)"

definition tx_sync :: "'s ext \<Rightarrow> transaction \<Rightarrow> (unit, 's) prog" where
  "tx_sync X tx =
     (if status tx = S_DELETED then
        bnd (rados_remove X INODE (uuid_to_string X (s_ino tx))) (\<lambda>_.
          rados_remove X DENTRY (uuid_to_string X (s_ino tx)))
      else
        bnd (lift (sync_s_inode X (s_inode tx))) (\<lambda>_.
        bnd (lift (dentry_new X (s_ino tx) (status tx = S_CREATED))) (\<lambda>d.
        bnd (lift (dentry_sync X (apply_dentries (dentries tx) d))) (\<lambda>_.
          lift (sync_f_inodes X (f_inodes tx))))))"

text \<open>\<open>commit\<close>: the flag is set before anything is written, and stays set when the write fails.\<close>

definition tx_commit :: "'s ext \<Rightarrow> (unit, transaction \<times> 's) prog" where
  "tx_commit X st =
     (case st of (tx, s) \<Rightarrow>
        if committed tx then Some (Inl (Logic_error ''tx has been already committed''), tx, s)
        else
          (let tx = tx\<lparr>committed := True\<rparr>; key = uuid_to_string X (s_ino tx)
           in case tx_serialize tx of
                Inl e \<Rightarrow> Some (Inl e, tx, s)
              | Inr raw \<Rightarrow>
                  (case rados_stat X JOURNAL key s of
                     None \<Rightarrow> None
                   | Some (Inl e, s1) \<Rightarrow> Some (Inl e, tx, s1)
                   | Some (Inr (_, obj_size), s1) \<Rightarrow>
                       (case rados_write X JOURNAL key raw obj_size s1 of
                          (Inl e, s2) \<Rightarrow> Some (Inl e, tx, s2)
                        | (Inr _, s2) \<Rightarrow> Some (Inr (), tx\<lparr>tx_offset := obj_size\<rparr>, s2)))))"

definition tx_checkpoint :: "'s ext \<Rightarrow> transaction \<Rightarrow> (unit, 's) prog" where
  "tx_checkpoint X tx =
     bnd (tx_sync X tx) (\<lambda>_.
     bnd (lift (rados_write X JOURNAL (uuid_to_string X (s_ino tx)) [zero_byte] (tx_offset tx))) (\<lambda>_.
       ret ()))"

end
