(* ===== verification/Transaction_Spec.thy ===== *)
theory Transaction_Spec
  imports Transaction
begin

text \<open>
  What a transaction means: a function on the contents of its directory. Every operation composes
  this function with its own effect, and \<open>sync\<close> applies it to the directory in the pool.
\<close>

section \<open>Directories and transactions, abstractly\<close>

text \<open>A directory that does not exist is \<open>None\<close>.\<close>

type_synonym dir = "(string \<rightharpoonup> uuid) option"

definition patch :: "(string, bool \<times> uuid) robin_map \<Rightarrow> (string \<rightharpoonup> uuid) \<Rightarrow> string \<rightharpoonup> uuid" where
  "patch ds base name =
     (case rm_find ds name of
        Some (True, ino) \<Rightarrow> Some ino
      | Some (False, _) \<Rightarrow> None
      | None \<Rightarrow> base name)"

definition tx_view :: "transaction \<Rightarrow> dir \<Rightarrow> dir" where
  "tx_view tx v =
     (case status tx of
        S_DELETED \<Rightarrow> None
      | S_CREATED \<Rightarrow> Some (patch (dentries tx) Map.empty)
      | S_UNCHANGED \<Rightarrow> map_option (patch (dentries tx)) v)"

lemma tx_view_new [simp]: "tx_view (transaction_new ino) v = v"
proof -
  have "patch [] = (\<lambda>b. b)" by (simp add: patch_def fun_eq_iff)
  then show ?thesis by (simp add: tx_view_def transaction_new_def option.map_ident)
qed

lemma patch_put:
  assumes "map_of ds' = (map_of ds)(name \<mapsto> (alive, ino))"
  shows "patch ds' base = (patch ds base)(name := if alive then Some ino else None)"
  using assms by (auto simp: patch_def fun_eq_iff split: option.splits prod.splits bool.splits)

text \<open>A change of the entries that acts as \<open>name := v\<close> on every base acts so on the view.\<close>

lemma tx_view_upd:
  assumes "status tx' = status tx" and "map_of (dentries tx') = (map_of (dentries tx))(name \<mapsto> (alive, ino))"
  shows "tx_view tx' v = map_option (\<lambda>m. m(name := if alive then Some ino else None)) (tx_view tx v)"
proof -
  have "patch (dentries tx') = (\<lambda>b. (patch (dentries tx) b)(name := if alive then Some ino else None))"
    using patch_put [OF assms(2)] by (simp add: fun_eq_iff)
  then show ?thesis
    using assms(1) by (cases "status tx") (simp_all add: tx_view_def option.map_comp comp_def)
qed

lemma tx_view_cong: "status tx' = status tx \<Longrightarrow> dentries tx' = dentries tx \<Longrightarrow> tx_view tx' = tx_view tx"
  by (simp add: tx_view_def fun_eq_iff split: self_status.splits)

section \<open>Well-formed transactions\<close>

definition name_ok :: "string \<Rightarrow> bool" where
  "name_ok name \<longleftrightarrow> zero_byte \<notin> set name \<and> length name < 2 ^ 31"

definition ino_ok :: "uuid \<Rightarrow> bool" where
  "ino_ok ino \<longleftrightarrow> is_uuid ino \<and> \<not> is_nil ino"

definition wf_tx :: "transaction \<Rightarrow> bool" where
  "wf_tx tx \<longleftrightarrow> is_uuid (s_ino tx) \<and>
     (case s_inode tx of None \<Rightarrow> True | Some i \<Rightarrow> wf_inode i \<and> i_ino (core i) = s_ino tx) \<and>
     rm_wf (dentries tx) \<and>
     (\<forall>name alive ino. rm_find (dentries tx) name = Some (alive, ino) \<longrightarrow> name_ok name \<and> ino_ok ino) \<and>
     rm_wf (f_inodes tx) \<and>
     (\<forall>ino i. rm_find (f_inodes tx) ino = Some (Some i) \<longrightarrow> wf_inode i \<and> i_ino (core i) = ino) \<and>
     rm_find (f_inodes tx) (s_ino tx) = None"

lemma wf_tx_new: "is_uuid ino \<Longrightarrow> wf_tx (transaction_new ino)"
  by (simp add: wf_tx_def transaction_new_def)

section \<open>The shared fragments\<close>

lemma touch_self_simps [simp]:
  "committed (touch_self i tx) = committed tx" "tx_offset (touch_self i tx) = tx_offset tx"
  "status (touch_self i tx) = status tx" "s_ino (touch_self i tx) = s_ino tx"
  "dentries (touch_self i tx) = dentries tx" "f_inodes (touch_self i tx) = f_inodes tx"
  "s_inode (touch_self i tx) \<noteq> None"
  by (simp_all add: touch_self_def split: option.splits)

lemma wf_inode_times: "wf_inode i \<Longrightarrow> wf_inode (i\<lparr>core := (core i)\<lparr>i_mtime := m, i_ctime := c\<rparr>\<rparr>)"
  by (auto simp: wf_inode_def split: option.splits if_splits)

lemma wf_touch_self:
  assumes "wf_tx tx" and "wf_inode i" and "i_ino (core i) = s_ino tx"
  shows "wf_tx (touch_self i tx)"
  using assms wf_inode_copy [OF assms(2)]
  by (cases "s_inode tx") (auto simp: wf_tx_def touch_self_def wf_inode_times)

lemma put_dentry_Inr:
  assumes "put_dentry msg name alive ino tx = Inr tx'"
  shows "\<exists>ds. tx' = tx\<lparr>dentries := ds\<rparr> \<and> map_of ds = (map_of (dentries tx))(name \<mapsto> (alive, ino))
    \<and> (rm_wf (dentries tx) \<longrightarrow> rm_wf ds)"
  using assms
  by (cases "rm_find (dentries tx) name")
     (auto simp: put_dentry_def rm_simps rm_wf_intros simp del: map_append split: if_splits)

lemma put_dentry_Inl:
  "put_dentry msg name alive ino tx = Inl e \<longleftrightarrow>
     e = Logic_error msg \<and> (\<exists>old. rm_find (dentries tx) name = Some (alive, old))"
  by (cases "rm_find (dentries tx) name") (auto simp: put_dentry_def rm_simps split: if_splits)

lemma set_dentry_eq:
  "\<exists>ds. set_dentry name alive ino tx = tx\<lparr>dentries := ds\<rparr> \<and> map_of ds = (map_of (dentries tx))(name \<mapsto> (alive, ino))
    \<and> (rm_wf (dentries tx) \<longrightarrow> rm_wf ds)"
  by (cases "rm_find (dentries tx) name") (auto simp: set_dentry_def rm_simps rm_wf_intros simp del: map_append)

lemma wf_tx_dentry:
  assumes "wf_tx tx" and "name_ok name" and "ino_ok ino"
    and "map_of ds = (map_of (dentries tx))(name \<mapsto> (alive, ino))" and "rm_wf ds"
  shows "wf_tx (tx\<lparr>dentries := ds\<rparr>)"
  using assms by (auto simp: wf_tx_def split: if_splits option.splits)

lemma wf_tx_files:
  assumes "wf_tx tx" and "ino \<noteq> s_ino tx" and "\<And>i. v = Some i \<Longrightarrow> wf_inode i \<and> i_ino (core i) = ino"
  shows "wf_tx (tx\<lparr>f_inodes := rm_set ino v (f_inodes tx)\<rparr>)"
  using assms by (auto simp: wf_tx_def rm_find_set rm_wf_set split: if_splits option.splits)

section \<open>What every operation does\<close>

text \<open>
  A directory operation on a transaction that is still open: it succeeds, the transaction stays
  well formed, open and about the same directory, and the view changes by \<open>f\<close>.
\<close>

definition tx_effect :: "(int, transaction) step \<Rightarrow> (dir \<Rightarrow> dir) \<Rightarrow> transaction \<Rightarrow> bool" where
  "tx_effect f g tx \<longleftrightarrow>
     (\<exists>tx'. f tx = (Inr 0, tx') \<and> wf_tx tx' \<and> \<not> committed tx' \<and> s_ino tx' = s_ino tx \<and> tx_offset tx' = tx_offset tx
        \<and> (\<forall>v. tx_view tx' v = g (tx_view tx v)))"

lemma tx_view_touch [simp]: "tx_view (touch_self i tx) = tx_view tx"
  by (rule tx_view_cong) simp_all

lemma tx_view_f_inodes [simp]: "tx_view (tx\<lparr>f_inodes := fs\<rparr>) = tx_view tx"
  by (rule tx_view_cong) simp_all

text \<open>What an operation requires of the inode it is given for its own directory.\<close>

definition self_ok :: "inode \<Rightarrow> transaction \<Rightarrow> bool" where
  "self_ok i tx \<longleftrightarrow> wf_inode i \<and> i_ino (core i) = s_ino tx"

lemma tx_mkself_effect:
  assumes "wf_tx tx" and "\<not> committed tx" and "self_ok i tx" and "dentries tx = []"
  shows "tx_effect (tx_mkself i) (\<lambda>v. Some Map.empty) tx"
  using assms wf_inode_copy [of i]
  by (auto simp: tx_effect_def tx_mkself_def self_ok_def wf_tx_def tx_view_def patch_def)

lemma tx_rmself_effect:
  assumes "wf_tx tx" and "\<not> committed tx"
  shows "tx_effect (tx_rmself ino) (\<lambda>v. None) tx"
  using assms by (auto simp: tx_effect_def tx_rmself_def wf_tx_def tx_view_def split: option.splits)

lemma tx_chself_effect:
  assumes "wf_tx tx" and "\<not> committed tx" and "self_ok i tx"
  shows "tx_effect (tx_chself i) (\<lambda>v. v) tx"
  using assms wf_inode_copy [of i]
  by (auto simp: tx_effect_def tx_chself_def self_ok_def wf_tx_def intro!: fun_cong [OF tx_view_cong])

text \<open>The common part of \<open>mkdir\<close>, \<open>rmdir\<close>, \<open>mkreg\<close> and \<open>rmreg\<close>\<close>

lemma put_touch:
  assumes "wf_tx tx" and "self_ok i tx" and "name_ok name" and "ino_ok ino"
    and "\<nexists>old. rm_find (dentries tx) name = Some (alive, old)"
  obtains tx' where "put_dentry msg name alive ino tx = Inr tx'" and "wf_tx tx'" and "self_ok i tx'"
    and "wf_tx (touch_self i tx')" and "committed tx' = committed tx" and "s_ino tx' = s_ino tx" and "tx_offset tx' = tx_offset tx"
    and "f_inodes tx' = f_inodes tx"
    and "\<And>v. tx_view tx' v = map_option (\<lambda>m. m(name := if alive then Some ino else None)) (tx_view tx v)"
proof -
  from assms(5) obtain tx' where put: "put_dentry msg name alive ino tx = Inr tx'"
    using put_dentry_Inl [of msg name alive ino tx] by (cases "put_dentry msg name alive ino tx") auto
  from put_dentry_Inr [OF put] obtain ds where ds: "tx' = tx\<lparr>dentries := ds\<rparr>"
    "map_of ds = (map_of (dentries tx))(name \<mapsto> (alive, ino))" "rm_wf (dentries tx) \<longrightarrow> rm_wf ds" by blast
  have wf: "wf_tx tx'" using wf_tx_dentry [OF assms(1,3,4) ds(2)] assms(1) ds(1,3) by (simp add: wf_tx_def)
  moreover have "wf_tx (touch_self i tx')" using wf assms(2) ds(1) by (intro wf_touch_self) (simp_all add: self_ok_def)
  moreover have "tx_view tx' v = map_option (\<lambda>m. m(name := if alive then Some ino else None)) (tx_view tx v)" for v
    by (rule tx_view_upd) (simp_all add: ds(1,2))
  ultimately show thesis using put ds(1) assms(2) by (intro that [of tx']) (simp_all add: self_ok_def)
qed

lemma tx_mkdir_effect:
  assumes "wf_tx tx" and "\<not> committed tx" and "self_ok i tx" and "name_ok name" and "ino_ok ino"
    and "\<nexists>old. rm_find (dentries tx) name = Some (True, old)"
  shows "tx_effect (tx_mkdir i name ino) (map_option (\<lambda>m. m(name \<mapsto> ino))) tx"
proof -
  obtain tx' where "put_dentry ''mkdir'' name True ino tx = Inr tx'" "wf_tx (touch_self i tx')" "committed tx' = committed tx"
    "s_ino tx' = s_ino tx" "tx_offset tx' = tx_offset tx"
    "\<And>v. tx_view tx' v = map_option (\<lambda>m. m(name := if True then Some ino else None)) (tx_view tx v)"
    using put_touch [OF assms(1,3-6), of "''mkdir''"] by metis
  with assms(2) show ?thesis by (simp add: tx_effect_def tx_mkdir_def)
qed

lemma tx_rmdir_effect:
  assumes "wf_tx tx" and "\<not> committed tx" and "self_ok i tx" and "name_ok name" and "ino_ok ino"
    and "\<nexists>old. rm_find (dentries tx) name = Some (False, old)"
  shows "tx_effect (tx_rmdir i name ino) (map_option (\<lambda>m. m(name := None))) tx"
proof -
  obtain tx' where "put_dentry ''rmdir'' name False ino tx = Inr tx'" "wf_tx (touch_self i tx')" "committed tx' = committed tx"
    "s_ino tx' = s_ino tx" "tx_offset tx' = tx_offset tx"
    "\<And>v. tx_view tx' v = map_option (\<lambda>m. m(name := if False then Some ino else None)) (tx_view tx v)"
    using put_touch [OF assms(1,3-6), of "''rmdir''"] by metis
  with assms(2) show ?thesis by (simp add: tx_effect_def tx_rmdir_def)
qed

lemma tx_mkreg_effect:
  assumes "wf_tx tx" and "\<not> committed tx" and "self_ok i tx" and "name_ok name" and "wf_inode f"
    and "\<not> is_nil (i_ino (core f))" and "i_ino (core f) \<noteq> s_ino tx"
    and "\<nexists>old. rm_find (dentries tx) name = Some (True, old)"
    and "\<nexists>g. rm_find (f_inodes tx) (i_ino (core f)) = Some (Some g)"
  shows "tx_effect (tx_mkreg i name f) (map_option (\<lambda>m. m(name \<mapsto> i_ino (core f)))) tx"
proof -
  have "ino_ok (i_ino (core f))" using assms(5,6) by (simp add: ino_ok_def wf_inode_def)
  then obtain tx' where "put_dentry ''mkreg'' name True (i_ino (core f)) tx = Inr tx'" "wf_tx (touch_self i tx')"
    "committed tx' = committed tx" "s_ino tx' = s_ino tx" "tx_offset tx' = tx_offset tx" "f_inodes tx' = f_inodes tx"
    "\<And>v. tx_view tx' v = map_option (\<lambda>m. m(name := if True then Some (i_ino (core f)) else None)) (tx_view tx v)"
    using put_touch [OF assms(1,3,4) _ assms(8), of "i_ino (core f)" "''mkreg''"] by metis
  moreover from this assms(5,7) have "wf_tx (touch_self i tx'\<lparr>f_inodes :=
      rm_set (i_ino (core f)) (Some (inode_copy f)) (f_inodes (touch_self i tx'))\<rparr>)"
    by (intro wf_tx_files) (auto simp: wf_inode_copy)
  ultimately show ?thesis using assms(2,9)
    by (auto simp: tx_effect_def tx_mkreg_def Let_def split: option.splits)
qed

lemma tx_rmreg_effect:
  assumes "wf_tx tx" and "\<not> committed tx" and "self_ok i tx" and "name_ok name" and "wf_inode f"
    and "\<not> is_nil (i_ino (core f))" and "i_ino (core f) \<noteq> s_ino tx"
    and "\<nexists>old. rm_find (dentries tx) name = Some (False, old)"
    and "rm_find (f_inodes tx) (i_ino (core f)) \<noteq> Some None"
  shows "tx_effect (tx_rmreg i name f) (map_option (\<lambda>m. m(name := None))) tx"
proof -
  have "ino_ok (i_ino (core f))" using assms(5,6) by (simp add: ino_ok_def wf_inode_def)
  then obtain tx' where "put_dentry ''rmreg'' name False (i_ino (core f)) tx = Inr tx'" "wf_tx (touch_self i tx')"
    "committed tx' = committed tx" "s_ino tx' = s_ino tx" "tx_offset tx' = tx_offset tx" "f_inodes tx' = f_inodes tx"
    "\<And>v. tx_view tx' v = map_option (\<lambda>m. m(name := if False then Some (i_ino (core f)) else None)) (tx_view tx v)"
    using put_touch [OF assms(1,3,4) _ assms(8), of "i_ino (core f)" "''rmreg''"] by metis
  moreover from this assms(7) have "wf_tx (touch_self i tx'\<lparr>f_inodes :=
      rm_set (i_ino (core f)) None (f_inodes (touch_self i tx'))\<rparr>)"
    by (intro wf_tx_files) auto
  ultimately show ?thesis using assms(2,9)
    by (auto simp: tx_effect_def tx_rmreg_def Let_def split: option.splits)
qed

text \<open>The common part of \<open>mvdir\<close> and \<open>mvreg\<close>\<close>

lemma put_set_touch:
  assumes "wf_tx tx" and "self_ok i tx" and "name_ok src" and "name_ok dst" and "ino_ok ino"
    and "\<nexists>old. rm_find (dentries tx) src = Some (False, old)"
  obtains tx1 tx2 where "put_dentry msg src False ino tx = Inr tx1" and "tx2 = touch_self i (set_dentry dst True ino tx1)" and "wf_tx tx2"
    and "committed tx2 = committed tx" and "s_ino tx2 = s_ino tx" and "tx_offset tx2 = tx_offset tx"
    and "\<And>v. tx_view tx2 v = map_option (\<lambda>m. m(src := None, dst \<mapsto> ino)) (tx_view tx v)"
proof -
  obtain tx1 where t1: "put_dentry msg src False ino tx = Inr tx1" "wf_tx tx1" "self_ok i tx1"
    "committed tx1 = committed tx" "s_ino tx1 = s_ino tx" "tx_offset tx1 = tx_offset tx"
    "\<And>v. tx_view tx1 v = map_option (\<lambda>m. m(src := if False then Some ino else None)) (tx_view tx v)"
    using put_touch [OF assms(1,2,3,5,6), of msg] by metis
  obtain ds where ds: "set_dentry dst True ino tx1 = tx1\<lparr>dentries := ds\<rparr>"
    "map_of ds = (map_of (dentries tx1))(dst \<mapsto> (True, ino))" "rm_wf (dentries tx1) \<longrightarrow> rm_wf ds"
    using set_dentry_eq by metis
  have "wf_tx (tx1\<lparr>dentries := ds\<rparr>)"
    using wf_tx_dentry [OF t1(2) assms(4,5) ds(2)] t1(2) ds(3) by (simp add: wf_tx_def)
  then have "wf_tx (touch_self i (set_dentry dst True ino tx1))"
    unfolding ds(1) by (rule wf_touch_self) (use t1(3) in \<open>simp_all add: self_ok_def\<close>)
  moreover have "tx_view (tx1\<lparr>dentries := ds\<rparr>) v = map_option (\<lambda>m. m(dst := if True then Some ino else None)) (tx_view tx1 v)" for v
    by (rule tx_view_upd) (simp_all add: ds(2))
  ultimately show thesis
    using t1 ds(1) by (intro that [of tx1 "touch_self i (set_dentry dst True ino tx1)"]) (simp_all add: option.map_comp comp_def)
qed

lemma tx_mvdir_effect:
  assumes "wf_tx tx" and "\<not> committed tx" and "self_ok i tx" and "name_ok src" and "name_ok dst" and "ino_ok ino"
    and "\<nexists>old. rm_find (dentries tx) src = Some (False, old)"
  shows "tx_effect (tx_mvdir i src ino dst dst_ino) (map_option (\<lambda>m. m(src := None, dst \<mapsto> ino))) tx"
proof -
  obtain tx1 tx2 where "put_dentry ''mvdir'' src False ino tx = Inr tx1" "tx2 = touch_self i (set_dentry dst True ino tx1)" "wf_tx tx2"
    "committed tx2 = committed tx" "s_ino tx2 = s_ino tx" "tx_offset tx2 = tx_offset tx"
    "\<And>v. tx_view tx2 v = map_option (\<lambda>m. m(src := None, dst \<mapsto> ino)) (tx_view tx v)"
    using put_set_touch [OF assms(1,3-7), of "''mvdir''"] by metis
  with assms(2) show ?thesis by (auto simp: tx_effect_def tx_mvdir_def)
qed

lemma tx_mvreg_effect:
  assumes "wf_tx tx" and "\<not> committed tx" and "self_ok i tx" and "name_ok src" and "name_ok dst" and "ino_ok ino"
    and "\<nexists>old. rm_find (dentries tx) src = Some (False, old)" and "dst_ino \<noteq> s_ino tx"
  shows "tx_effect (tx_mvreg i src ino dst dst_ino) (map_option (\<lambda>m. m(src := None, dst \<mapsto> ino))) tx"
proof -
  obtain tx1 tx2 where t: "put_dentry ''mvreg'' src False ino tx = Inr tx1" "tx2 = touch_self i (set_dentry dst True ino tx1)" "wf_tx tx2"
    "committed tx2 = committed tx" "s_ino tx2 = s_ino tx" "tx_offset tx2 = tx_offset tx"
    "\<And>v. tx_view tx2 v = map_option (\<lambda>m. m(src := None, dst \<mapsto> ino)) (tx_view tx v)"
    using put_set_touch [OF assms(1,3-7), of "''mvreg''"] by metis
  moreover have "wf_tx (tx2\<lparr>f_inodes := rm_set dst_ino None (f_inodes tx2)\<rparr>)"
    using t(3,5) assms(8) by (intro wf_tx_files) simp_all
  ultimately show ?thesis using assms(2) by (auto simp: tx_effect_def tx_mvreg_def Let_def)
qed

lemma tx_chreg_effect:
  assumes "wf_tx tx" and "\<not> committed tx" and "wf_inode f" and "i_ino (core f) \<noteq> s_ino tx"
  shows "tx_effect (tx_chreg f) (\<lambda>v. v) tx"
proof -
  have "wf_tx (tx\<lparr>f_inodes := rm_set (i_ino (core f)) (Some (inode_copy f)) (f_inodes tx)\<rparr>)"
    using assms(1,3,4) by (intro wf_tx_files) (auto simp: wf_inode_copy)
  with assms(2) show ?thesis by (simp add: tx_effect_def tx_chreg_def)
qed

lemmas tx_effects = tx_mkself_effect tx_rmself_effect tx_chself_effect tx_mkdir_effect tx_rmdir_effect
  tx_mvdir_effect tx_mkreg_effect tx_rmreg_effect tx_mvreg_effect tx_chreg_effect

end
