(* ===== verification/Transaction_Sync.thy ===== *)
theory Transaction_Sync
  imports Transaction_Spec
begin

text \<open>
  Synchronising a transaction with the pool: the directory in the pool becomes what the
  transaction's view says, the inodes it carries are written, and nothing else changes. A commit
  appends one record to the journal of the directory.
\<close>

section \<open>Directory contents and their size\<close>

definition dir_bytes :: "(string \<rightharpoonup> uuid) \<Rightarrow> nat" where
  "dir_bytes m = 8 + (\<Sum>name\<in>dom m. 20 + length name)"

lemma total_name_length_sum: "total_name_length m = sum_list (map length (map fst m))"
  by (induction m rule: total_name_length.induct) simp_all

lemma raw_size_eq:
  assumes "rm_wf (child_list d)"
  shows "raw_size d = dir_bytes (children d)"
proof -
  let ?m = "child_list d"
  have "(\<Sum>name\<in>dom (map_of ?m). 20 + length name) = sum_list (map (\<lambda>n. 20 + length n) (map fst ?m))"
    using assms by (simp only: dom_map_of_conv_image_fst flip: set_map) (rule sum.distinct_set_conv_list)
  also have "\<dots> = 20 * length ?m + total_name_length ?m"
    by (simp add: total_name_length_sum sum_list_addf sum_list_triv comp_def)
  finally show ?thesis
    by (simp add: dir_bytes_def raw_size_def get_child_num_def get_total_name_length_def)
qed

lemma patch_Cons:
  assumes "name \<notin> fst ` set ds"
  shows "patch ((name, alive, ino) # ds) base = patch ds (base(name := if alive then Some ino else None))"
proof -
  have "map_of ds name = None" using assms by (simp add: map_of_eq_None_iff)
  then show ?thesis by (auto simp: patch_def fun_eq_iff split: option.split)
qed

lemma apply_dentries_map: "rm_wf ds \<Longrightarrow> children (apply_dentries ds d) = patch ds (children d)"
proof (induction ds d rule: apply_dentries.induct)
  case (2 name alive ino rest d)
  then show ?case by (simp add: patch_Cons add_child_map delete_child_map)
qed (simp add: patch_def fun_eq_iff)

lemma this_ino_apply [simp]: "this_ino (apply_dentries ds d) = this_ino d"
  by (induction ds d rule: apply_dentries.induct) simp_all

lemma wf_children_apply:
  assumes "wf_children (child_list d)" and "\<And>name alive ino. (name, alive, ino) \<in> set ds \<Longrightarrow> name_ok name \<and> ino_ok ino"
  shows "wf_children (child_list (apply_dentries ds d))"
  using assms
proof (induction ds d rule: apply_dentries.induct)
  case (2 name alive ino rest d)
  have "name_ok name \<and> ino_ok ino" by (rule "2.prems"(2) [of _ alive]) simp
  with "2.prems"(1) have "wf_children (child_list (if alive then add_child name ino d else delete_child name d))"
    by (auto simp: name_ok_def ino_ok_def intro: wf_children_add wf_children_delete)
  with "2.IH" "2.prems"(2) show ?case by (metis apply_dentries.simps(2) list.set_intros(2))
qed simp

section \<open>Directories in the pool\<close>

definition dir_at :: "'s ext \<Rightarrow> ('s \<Rightarrow> string \<rightharpoonup> bytes) \<Rightarrow> 's \<Rightarrow> uuid \<Rightarrow> dir \<Rightarrow> bool" where
  "dir_at X objs s ino v \<longleftrightarrow>
     (case v of
        None \<Rightarrow> \<not> rados_present objs s DENTRY (uuid_to_string X ino)
      | Some m \<Rightarrow> \<exists>d. dentry_at X objs s d \<and> this_ino d = ino \<and> children d = m)"

lemma dir_at_same:
  assumes "files_same objs W s s'" and "(DENTRY, uuid_to_string X ino) \<notin> W"
  shows "dir_at X objs s' ino v \<longleftrightarrow> dir_at X objs s ino v"
proof -
  have "dentry_at X objs s' d \<and> this_ino d = ino \<and> children d = m \<longleftrightarrow>
      dentry_at X objs s d \<and> this_ino d = ino \<and> children d = m" for d m
    using assms by (cases "this_ino d = ino") (auto simp: dentry_at_same)
  then show ?thesis
    using assms by (simp add: dir_at_def files_same_present split: option.split)
qed

text \<open>The inodes a transaction carries, and all the files it writes\<close>

definition tx_inodes :: "transaction \<Rightarrow> inode set" where
  "tx_inodes tx = set_option (s_inode tx) \<union> {i. \<exists>ino. rm_find (f_inodes tx) ino = Some (Some i)}"

definition tx_files :: "'s ext \<Rightarrow> transaction \<Rightarrow> (obj_category \<times> string) set" where
  "tx_files X tx =
     {(DENTRY, uuid_to_string X (s_ino tx)), (INODE, uuid_to_string X (s_ino tx))}
       \<union> (\<lambda>i. (INODE, uuid_to_string X (i_ino (core i)))) ` tx_inodes tx"

context cluster
begin

abbreviation inode_file :: "inode \<Rightarrow> obj_category \<times> string" where
  "inode_file i \<equiv> (INODE, uuid_to_string X (i_ino (core i)))"

lemma inode_file_inj:
  "wf_inode i \<Longrightarrow> wf_inode j \<Longrightarrow> inode_file i = inode_file j \<Longrightarrow> i_ino (core i) = i_ino (core j)"
  by (simp add: wf_inode_def uuid_to_string_eq_iff)

lemma sync_f_inodes_at:
  assumes "store_ok objs s" and "rm_wf fs"
    and "\<And>ino i. (ino, Some i) \<in> set fs \<Longrightarrow> wf_inode i \<and> i_ino (core i) = ino"
  shows "\<exists>s'. sync_f_inodes X fs s = (Inr (), s') \<and> store_ok objs s'
    \<and> files_same objs (inode_file ` {i. \<exists>ino. (ino, Some i) \<in> set fs}) s s'
    \<and> (\<forall>ino i. (ino, Some i) \<in> set fs \<longrightarrow> inode_at X objs s' i)"
  using assms
proof (induction fs arbitrary: s)
  case (Cons p rest)
  obtain ino v where p: "p = (ino, v)" by (cases p)
  let ?W = "inode_file ` {i. \<exists>ino. (ino, Some i) \<in> set rest}"
  have rest: "rm_wf rest" "\<And>ino i. (ino, Some i) \<in> set rest \<Longrightarrow> wf_inode i \<and> i_ino (core i) = ino"
    using Cons.prems(2,3) by auto
  show ?case
  proof (cases v)
    case None
    then have "{i. \<exists>ino. (ino, Some i) \<in> set (p # rest)} = {i. \<exists>ino. (ino, Some i) \<in> set rest}"
      "sync_f_inodes X (p # rest) s = sync_f_inodes X rest s" using p by auto
    moreover have "(ino, Some i) \<in> set (p # rest) \<longleftrightarrow> (ino, Some i) \<in> set rest" for ino i
      using None p by auto
    ultimately show ?thesis using Cons.IH [OF Cons.prems(1) rest] by (simp only:)
  next
    case (Some i)
    have i: "wf_inode i" "i_ino (core i) = ino" using Cons.prems(3) [of ino i] p Some by simp_all
    obtain s1 where s1: "inode_sync X i s = (Inr (), s1)" "inode_at X objs s1 i" "store_ok objs s1"
      "files_same objs {inode_file i} s s1"
      using inode_sync_at [OF Cons.prems(1) i(1)] .
    from Cons.IH [OF s1(3) rest] obtain s2 where s2: "sync_f_inodes X rest s1 = (Inr (), s2)" "store_ok objs s2"
      "files_same objs ?W s1 s2" "\<forall>ino i. (ino, Some i) \<in> set rest \<longrightarrow> inode_at X objs s2 i" by blast
    have "inode_file i \<notin> ?W"
    proof
      assume "inode_file i \<in> ?W"
      then obtain j ino' where j: "(ino', Some j) \<in> set rest" "inode_file i = inode_file j" by blast
      with rest(2) [OF j(1)] inode_file_inj [OF i(1) _ j(2)] i(2) have "ino' = ino" by simp
      with j(1) Cons.prems(2) p show False by (auto simp: image_iff)
    qed
    with s1(2) s2(3) have "inode_at X objs s2 i" by (simp add: inode_at_same)
    moreover have "files_same objs ({inode_file i} \<union> ?W) s s2"
      by (rule files_same_trans [OF s1(4) s2(3)])
    then have "files_same objs (inode_file ` {i. \<exists>ino. (ino, Some i) \<in> set (p # rest)}) s s2"
      by (rule files_same_mono) (use p Some in auto)
    moreover have "sync_f_inodes X (p # rest) s = (Inr (), s2)" using s1(1) s2(1) p Some by simp
    moreover have "\<forall>ino i. (ino, Some i) \<in> set (p # rest) \<longrightarrow> inode_at X objs s2 i"
      using \<open>inode_at X objs s2 i\<close> s2(4) p Some by auto
    ultimately show ?thesis using s2(2) by (intro exI [of _ s2] conjI)
  qed
qed simp

lemma sync_s_inode_at:
  assumes "store_ok objs s" and "wf_tx tx"
  obtains s' where "sync_s_inode X (s_inode tx) s = (Inr (), s')" and "store_ok objs s'"
    and "files_same objs {(INODE, uuid_to_string X (s_ino tx))} s s'" and "\<forall>i \<in> set_option (s_inode tx). inode_at X objs s' i"
proof (cases "s_inode tx")
  case None
  then show thesis using that [of s] assms(1) by (simp add: sync_s_inode_def)
next
  case (Some i)
  then have i: "wf_inode i" "i_ino (core i) = s_ino tx" using assms(2) by (simp_all add: wf_tx_def)
  show thesis
    by (rule inode_sync_at [OF assms(1) i(1)]) (use i(2) Some that in \<open>simp add: sync_s_inode_def\<close>)
qed

text \<open>The directory that \<open>sync\<close> starts from: a fresh one, or the one in the pool.\<close>

lemma sync_base:
  assumes "wf_tx tx" and "status tx \<noteq> S_DELETED" and "dir_at X objs s (s_ino tx) v" and "tx_view tx v = Some m"
  obtains d s' where "dentry_new X (s_ino tx) (status tx = S_CREATED) s = (Inr d, s')" and "files_same objs {} s s'"
    and "this_ino d = s_ino tx" and "wf_children (child_list d)" and "children (apply_dentries (dentries tx) d) = m"
proof (cases "status tx")
  case S_CREATED
  then have m: "m = patch (dentries tx) Map.empty" using assms(4) by (simp add: tx_view_def)
  have "wf_children []" by (simp add: wf_children_def)
  with S_CREATED m assms(1) that [of "\<lparr>this_ino = s_ino tx, child_list = []\<rparr>" s] show thesis
    by (simp add: dentry_new_def apply_dentries_map wf_tx_def)
next
  case S_UNCHANGED
  then obtain m0 where v: "v = Some m0" and m: "m = patch (dentries tx) m0"
    using assms(4) by (auto simp: tx_view_def)
  then obtain d where d: "dentry_at X objs s d" "this_ino d = s_ino tx" "children d = m0"
    using assms(3) by (auto simp: dir_at_def)
  then obtain s' where "dentry_new X (s_ino tx) False s = (Inr d, s')" "files_same objs {} s s'"
    using dentry_load_at by metis
  moreover have "wf_children (child_list d)" using d(1) by (simp add: dentry_at_def wf_dentry_def)
  moreover have "children (apply_dentries (dentries tx) d) = m"
    using assms(1) m d(3) by (simp add: apply_dentries_map wf_tx_def)
  ultimately show thesis using S_UNCHANGED d(2) by (intro that [of d s']) simp_all
qed (use assms(2) in simp)

lemma tx_sync_live:
  assumes ok: "store_ok objs s" and wf: "wf_tx tx" and live: "status tx \<noteq> S_DELETED"
    and at: "dir_at X objs s (s_ino tx) v" and view: "tx_view tx v = Some m" and fits: "dir_bytes m \<le> OBJ_SIZE"
  obtains s' where "tx_sync X tx s = Some (Inr (), s')" and "store_ok objs s'" and "dir_at X objs s' (s_ino tx) (Some m)"
    and "files_same objs (tx_files X tx) s s'" and "\<forall>i \<in> tx_inodes tx. inode_at X objs s' i"
proof -
  let ?k = "uuid_to_string X (s_ino tx)"
  obtain s1 where s1: "sync_s_inode X (s_inode tx) s = (Inr (), s1)" "store_ok objs s1" "files_same objs {(INODE, ?k)} s s1"
    "\<forall>i \<in> set_option (s_inode tx). inode_at X objs s1 i"
    using sync_s_inode_at [OF ok wf] .
  have at1: "dir_at X objs s1 (s_ino tx) v" using at dir_at_same [OF s1(3)] by simp
  obtain d s2 where s2: "dentry_new X (s_ino tx) (status tx = S_CREATED) s1 = (Inr d, s2)" "files_same objs {} s1 s2"
    "this_ino d = s_ino tx" "wf_children (child_list d)" "children (apply_dentries (dentries tx) d) = m"
    using sync_base [OF wf live at1 view] .
  let ?D = "apply_dentries (dentries tx) d"
  have "wf_children (child_list ?D)"
    using s2(4) wf by (intro wf_children_apply) (auto simp: wf_tx_def)
  with s2(3,5) wf fits have wfD: "wf_dentry ?D"
    by (simp add: wf_dentry_def wf_tx_def MAX_DENTRY_OBJ_SIZE_def raw_size_eq wf_children_def)
  have "store_ok objs s2" using s1(2) store_ok_same [OF s2(2)] by simp
  then obtain s3 where s3: "dentry_sync X ?D s2 = (Inr (), s3)" "dentry_at X objs s3 ?D" "store_ok objs s3"
    "files_same objs {(DENTRY, ?k)} s2 s3"
    using dentry_sync_at [OF _ wfD] s2(3) by (metis this_ino_apply)
  have "rm_wf (f_inodes tx)" and files: "\<And>ino i. (ino, Some i) \<in> set (f_inodes tx) \<Longrightarrow> wf_inode i \<and> i_ino (core i) = ino"
    using wf by (auto simp: wf_tx_def)
  from sync_f_inodes_at [OF s3(3) this] obtain s4 where s4: "sync_f_inodes X (f_inodes tx) s3 = (Inr (), s4)" "store_ok objs s4"
    "files_same objs (inode_file ` {i. \<exists>ino. (ino, Some i) \<in> set (f_inodes tx)}) s3 s4"
    "\<forall>ino i. (ino, Some i) \<in> set (f_inodes tx) \<longrightarrow> inode_at X objs s4 i" by blast
  let ?F = "inode_file ` {i. \<exists>ino. (ino, Some i) \<in> set (f_inodes tx)}"
  have carried: "tx_inodes tx = set_option (s_inode tx) \<union> {i. \<exists>ino. (ino, Some i) \<in> set (f_inodes tx)}"
    using \<open>rm_wf (f_inodes tx)\<close> by (auto simp: tx_inodes_def)
  have self: "inode_at X objs s4 i" if "i \<in> set_option (s_inode tx)" for i
  proof -
    have i: "wf_inode i" "i_ino (core i) = s_ino tx" using that wf by (auto simp: wf_tx_def)
    have "inode_file i \<notin> ?F"
    proof
      assume "inode_file i \<in> ?F"
      then obtain j ino where j: "(ino, Some j) \<in> set (f_inodes tx)" "inode_file i = inode_file j" by blast
      with files [OF j(1)] inode_file_inj [OF i(1) _ j(2)] i(2) have "ino = s_ino tx" by simp
      with j(1) wf show False by (auto simp: wf_tx_def map_of_eq_None_iff image_iff)
    qed
    moreover have "inode_file i \<notin> {} \<union> {(DENTRY, ?k)}" by simp
    ultimately show ?thesis
      using s1(4) that inode_at_same [OF files_same_trans [OF files_same_trans [OF s2(2) s3(4)] s4(3)]] by simp
  qed
  have "tx_sync X tx s = Some (Inr (), s4)"
    using live s1(1) s2(1) s3(1) s4(1) by (simp add: tx_sync_def bnd_def lift_def)
  moreover have "dir_at X objs s3 (s_ino tx) (Some m)" using s3(2) s2(3,5) by (auto simp: dir_at_def)
  then have "dir_at X objs s4 (s_ino tx) (Some m)" using dir_at_same [OF s4(3)] by auto
  moreover have "files_same objs (tx_files X tx) s s4"
    by (rule files_same_mono [OF files_same_trans [OF files_same_trans [OF files_same_trans [OF s1(3) s2(2)] s3(4)] s4(3)]])
       (auto simp: tx_files_def carried)
  moreover have "\<forall>i \<in> tx_inodes tx. inode_at X objs s4 i" using self s4(4) by (auto simp: carried)
  ultimately show thesis using s4(2) by (intro that [of s4])
qed

lemma tx_sync_deleted:
  assumes ok: "store_ok objs s" and del: "status tx = S_DELETED"
  obtains s' where "tx_sync X tx s = Some (Inr (), s')" and "store_ok objs s'" and "dir_at X objs s' (s_ino tx) None"
    and "\<not> rados_present objs s' INODE (uuid_to_string X (s_ino tx))" and "files_same objs (tx_files X tx) s s'"
proof -
  let ?k = "uuid_to_string X (s_ino tx)"
  obtain s1 where s1: "rados_remove X INODE ?k s = Some (Inr (), s1)" "\<not> rados_present objs s1 INODE ?k"
    "files_same objs {(INODE, ?k)} s s1" "store_ok objs s1"
    using pool_remove store_ok_file [OF ok] ok by metis
  obtain s2 where s2: "rados_remove X DENTRY ?k s1 = Some (Inr (), s2)" "\<not> rados_present objs s2 DENTRY ?k"
    "files_same objs {(DENTRY, ?k)} s1 s2" "store_ok objs s2"
    using pool_remove store_ok_file [OF s1(4)] s1(4) by metis
  have "tx_sync X tx s = Some (Inr (), s2)" using del s1(1) s2(1) by (simp add: tx_sync_def bnd_def)
  moreover have "\<not> rados_present objs s2 INODE ?k" using s1(2) files_same_present [OF s2(3)] by simp
  moreover have "files_same objs (tx_files X tx) s s2"
    by (rule files_same_mono [OF files_same_trans [OF s1(3) s2(3)]]) (auto simp: tx_files_def)
  moreover have "dir_at X objs s2 (s_ino tx) None" using s2(2) by (simp add: dir_at_def)
  ultimately show thesis using s2(4) by (intro that [of s2])
qed

text \<open>A transaction that neither creates nor removes its directory needs it in the pool.\<close>

lemma tx_sync_missing:
  assumes ok: "store_ok objs s" and wf: "wf_tx tx" and st: "status tx = S_UNCHANGED" and at: "dir_at X objs s (s_ino tx) None"
  shows "\<exists>s'. tx_sync X tx s = Some (Inl (Runtime_error ''Dentry Corrupted''), s')"
proof -
  obtain s1 where s1: "sync_s_inode X (s_inode tx) s = (Inr (), s1)" "store_ok objs s1"
    "files_same objs {(INODE, uuid_to_string X (s_ino tx))} s s1"
    using sync_s_inode_at [OF ok wf] .
  have "\<not> rados_present objs s1 DENTRY (uuid_to_string X (s_ino tx))"
    using at files_same_present [OF s1(3)] by (simp add: dir_at_def)
  from dentry_load_absent [OF s1(2) this] obtain s2
    where "dentry_new X (s_ino tx) False s1 = (Inl (Runtime_error ''Dentry Corrupted''), s2)"
    by (metis prod.collapse)
  with st s1(1) show ?thesis by (simp add: tx_sync_def bnd_def lift_def)
qed

text \<open>Both cases: after \<open>sync\<close> the pool holds the transaction's view of the directory.\<close>

lemma tx_sync_view:
  assumes "store_ok objs s" and "wf_tx tx" and "dir_at X objs s (s_ino tx) v"
    and "status tx = S_UNCHANGED \<Longrightarrow> v \<noteq> None" and "\<And>m. tx_view tx v = Some m \<Longrightarrow> dir_bytes m \<le> OBJ_SIZE"
  obtains s' where "tx_sync X tx s = Some (Inr (), s')" and "store_ok objs s'" and "dir_at X objs s' (s_ino tx) (tx_view tx v)"
    and "files_same objs (tx_files X tx) s s'" and "status tx \<noteq> S_DELETED \<Longrightarrow> \<forall>i \<in> tx_inodes tx. inode_at X objs s' i"
proof (cases "status tx = S_DELETED")
  case True
  then have "tx_view tx v = None" by (simp add: tx_view_def)
  then show thesis using tx_sync_deleted [OF assms(1) True] that True by metis
next
  case False
  then obtain m where m: "tx_view tx v = Some m" using assms(4) by (cases "status tx"; cases v) (auto simp: tx_view_def)
  show thesis
    by (rule tx_sync_live [OF assms(1,2) False assms(3) m assms(5) [OF m]]) (use that m in simp)
qed

section \<open>Commit and checkpoint\<close>

lemma serialize_f_inodes_wf:
  "(\<And>ino i. (ino, Some i) \<in> set fs \<Longrightarrow> wf_inode i) \<Longrightarrow> \<exists>bs. serialize_f_inodes fs = Inr bs"
proof (induction fs rule: serialize_f_inodes.induct)
  case (3 ino i rest)
  have "wf_inode i" by (rule "3.prems" [of ino]) simp
  then have "inode_serialize i = Inr (inode_raw i)" by (rule inode_serialize_wf)
  with 3 show ?case by fastforce
qed auto

lemma tx_serialize_wf: "wf_tx tx \<Longrightarrow> \<exists>raw. tx_serialize tx = Inr raw \<and> raw \<noteq> []"
proof -
  assume wf: "wf_tx tx"
  then obtain files where "serialize_f_inodes (f_inodes tx) = Inr files"
    using serialize_f_inodes_wf [of "f_inodes tx"] by (auto simp: wf_tx_def)
  moreover obtain self where "serialize_s_inode (s_inode tx) = Inr self"
    using wf by (auto simp: serialize_s_inode_def wf_tx_def inode_serialize_wf split: option.splits)
  ultimately show ?thesis by (simp add: tx_serialize_def Let_def)
qed

text \<open>A commit appends the record to the journal and remembers where it starts.\<close>

lemma tx_commit_at:
  assumes ok: "store_ok objs s" and wf: "wf_tx tx" and open_tx: "\<not> committed tx"
    and j: "rados_file objs s JOURNAL (uuid_to_string X (s_ino tx)) c" and raw: "tx_serialize tx = Inr raw"
  obtains s' where "tx_commit X (tx, s) = Some (Inr (), tx\<lparr>committed := True, tx_offset := length c\<rparr>, s')" and "store_ok objs s'"
    and "rados_file objs s' JOURNAL (uuid_to_string X (s_ino tx)) (c @ raw)"
    and "files_same objs {(JOURNAL, uuid_to_string X (s_ino tx))} s s'"
proof -
  let ?k = "uuid_to_string X (s_ino tx)"
  have ne: "raw \<noteq> []" using tx_serialize_wf [OF wf] raw by auto
  obtain s1 where s1: "rados_stat X JOURNAL ?k s = Some (Inr (rados_present objs s JOURNAL ?k, length c), s1)" "files_same objs {} s s1"
    using pool_stat [OF j] .
  have "rados_file objs s1 JOURNAL ?k c" using j files_same_file [OF s1(2)] by simp
  then obtain s2 where s2: "rados_write X JOURNAL ?k raw (length c) s1 = (Inr (length raw), s2)"
    "rados_file objs s2 JOURNAL ?k (overlay c (length c) raw)" "files_same objs {(JOURNAL, ?k)} s1 s2" "store_ok objs s2"
    using pool_write [OF _ ne] ok store_ok_same [OF s1(2)] by metis
  have ser: "tx_serialize (tx\<lparr>committed := True\<rparr>) = Inr raw" using raw by (simp add: tx_serialize_def cong: sum.case_cong)
  have "tx_commit X (tx, s) = Some (Inr (), tx\<lparr>committed := True, tx_offset := length c\<rparr>, s2)"
    using open_tx s1(1) s2(1) ser by (simp add: tx_commit_def)
  then show thesis
    using s2 files_same_trans [OF s1(2) s2(3)] by (intro that [of s2]) (simp_all add: overlay_at_end)
qed

text \<open>A checkpoint synchronises and overwrites the byte of the journal at the record's offset.\<close>

lemma tx_checkpoint_at:
  assumes "store_ok objs s" and "wf_tx tx" and "dir_at X objs s (s_ino tx) v"
    and "status tx = S_UNCHANGED \<Longrightarrow> v \<noteq> None" and "\<And>m. tx_view tx v = Some m \<Longrightarrow> dir_bytes m \<le> OBJ_SIZE"
  obtains s' where "tx_checkpoint X tx s = Some (Inr (), s')" and "store_ok objs s'" and "dir_at X objs s' (s_ino tx) (tx_view tx v)"
    and "files_same objs (insert (JOURNAL, uuid_to_string X (s_ino tx)) (tx_files X tx)) s s'"
    and "status tx \<noteq> S_DELETED \<Longrightarrow> \<forall>i \<in> tx_inodes tx. inode_at X objs s' i"
proof -
  let ?k = "uuid_to_string X (s_ino tx)"
  obtain s1 where s1: "tx_sync X tx s = Some (Inr (), s1)" "store_ok objs s1" "dir_at X objs s1 (s_ino tx) (tx_view tx v)"
    "files_same objs (tx_files X tx) s s1" "status tx \<noteq> S_DELETED \<Longrightarrow> \<forall>i \<in> tx_inodes tx. inode_at X objs s1 i"
    using tx_sync_view [OF assms] by metis
  obtain c where "rados_file objs s1 JOURNAL ?k c" using store_ok_file [OF s1(2)] by blast
  then obtain s2 where s2: "rados_write X JOURNAL ?k [zero_byte] (tx_offset tx) s1 = (Inr (length [zero_byte]), s2)"
    "files_same objs {(JOURNAL, ?k)} s1 s2" "store_ok objs s2"
    using pool_write [of s1 JOURNAL ?k c "[zero_byte]" "tx_offset tx"] s1(2) by blast
  have "tx_checkpoint X tx s = Some (Inr (), s2)"
    using s1(1) s2(1) by (simp add: tx_checkpoint_def bnd_def lift_def ret_def)
  moreover have "dir_at X objs s2 (s_ino tx) (tx_view tx v)" using s1(3) dir_at_same [OF s2(2)] by simp
  moreover have "files_same objs (insert (JOURNAL, ?k) (tx_files X tx)) s s2"
    by (rule files_same_mono [OF files_same_trans [OF s1(4) s2(2)]]) auto
  moreover have "\<forall>i \<in> tx_inodes tx. inode_at X objs s2 i" if "status tx \<noteq> S_DELETED"
    using s1(5) [OF that] inode_at_same [OF s2(2)] by auto
  ultimately show thesis using s2(3) by (intro that [of s2]) auto
qed

end

section \<open>Properties\<close>

text \<open>C16. Synchronising a transaction refines its view: whatever directory \<open>v\<close> the pool holds, \<open>sync\<close>
  returns, the pool then holds exactly the view of the transaction on \<open>v\<close> (removed for a deleted
  directory), every inode the transaction carries is in the pool, and no other file has changed.\<close>

theorem tx_sync_refines:
  assumes "cluster X objs" and "store_ok objs s" and "wf_tx tx" and "dir_at X objs s (s_ino tx) v"
    and "status tx = S_UNCHANGED \<Longrightarrow> v \<noteq> None" and "\<And>m. tx_view tx v = Some m \<Longrightarrow> dir_bytes m \<le> OBJ_SIZE"
  shows "\<exists>s'. tx_sync X tx s = Some (Inr (), s') \<and> dir_at X objs s' (s_ino tx) (tx_view tx v)
    \<and> (status tx \<noteq> S_DELETED \<longrightarrow> (\<forall>i \<in> tx_inodes tx. inode_at X objs s' i)) \<and> files_same objs (tx_files X tx) s s'"
  by (rule cluster.tx_sync_view [OF assms]) blast+

text \<open>A transaction that creates the root directory with one file in it\<close>

definition sample_root :: inode where
  "sample_root = inode_new_dir \<lparr>tv_sec = 1, tv_nsec = 2\<rparr> nil_uuid 0 0 S_IFDIR get_root_ino"

definition sample_file :: inode where
  "sample_file = inode_new \<lparr>tv_sec = 1, tv_nsec = 2\<rparr> (replicate 16 CHR ''u'') get_root_ino 0 0 S_IFREG False"

definition sample_tx :: transaction where
  "sample_tx = snd (tx_mkreg sample_root ''f'' sample_file (snd (tx_mkself sample_root (transaction_new get_root_ino))))"

lemma sample_inodes_wf: "wf_inode sample_root" "wf_inode sample_file"
  by code_simp+

lemma sample_inos: "i_ino (core sample_root) = get_root_ino" "i_ino (core sample_file) = replicate 16 CHR ''u''"
  by (simp_all add: sample_root_def sample_file_def inode_new_dir_def inode_new_def)

lemma file_ino_not_root: "replicate 16 CHR ''u'' \<noteq> get_root_ino" "\<not> is_nil (replicate 16 CHR ''u'')"
  by code_simp+

lemma sample_self_ok: "self_ok sample_root (transaction_new get_root_ino)"
  using sample_inodes_wf sample_inos by (simp add: self_ok_def transaction_new_def)

lemma sample_mkself:
  obtains tx where "tx_mkself sample_root (transaction_new get_root_ino) = (Inr 0, tx)" and "wf_tx tx" and "\<not> committed tx"
    and "s_ino tx = get_root_ino" and "status tx = S_CREATED" and "dentries tx = []" and "f_inodes tx = []"
    and "tx_view tx v = Some Map.empty"
proof -
  have "tx_effect (tx_mkself sample_root) (\<lambda>v. Some Map.empty) (transaction_new get_root_ino)"
    by (rule tx_mkself_effect [OF wf_tx_new _ sample_self_ok]) (simp_all add: transaction_new_def)
  then show thesis
    using that by (auto simp: tx_effect_def tx_mkself_def transaction_new_def)
qed

lemma sample_tx_facts:
  "wf_tx sample_tx" "s_ino sample_tx = get_root_ino" "status sample_tx = S_CREATED"
  "tx_view sample_tx v = Some [''f'' \<mapsto> replicate 16 CHR ''u'']" "\<not> committed sample_tx"
proof -
  obtain tx where tx: "tx_mkself sample_root (transaction_new get_root_ino) = (Inr 0, tx)" "wf_tx tx" "\<not> committed tx"
    "s_ino tx = get_root_ino" "status tx = S_CREATED" "dentries tx = []" "f_inodes tx = []" "tx_view tx v = Some Map.empty"
    using sample_mkself [of v] .
  have "tx_effect (tx_mkreg sample_root ''f'' sample_file) (map_option (\<lambda>m. m(''f'' \<mapsto> i_ino (core sample_file)))) tx"
    by (rule tx_mkreg_effect [OF tx(2,3)])
       (use tx sample_inodes_wf file_ino_not_root in \<open>simp_all add: sample_inos self_ok_def name_ok_def\<close>)
  then obtain tx' where tx': "tx_mkreg sample_root ''f'' sample_file tx = (Inr 0, tx')" "wf_tx tx'" "s_ino tx' = s_ino tx"
    "tx_view tx' v = map_option (\<lambda>m. m(''f'' \<mapsto> i_ino (core sample_file))) (tx_view tx v)" "\<not> committed tx'"
    by (auto simp: tx_effect_def)
  have "sample_tx = tx'" using tx(1) tx'(1) by (simp add: sample_tx_def)
  moreover have "status tx' = S_CREATED"
    using tx(3,5-7) tx'(1) by (auto simp: tx_mkreg_def put_dentry_def rm_insert_def Let_def)
  ultimately show "wf_tx sample_tx" "s_ino sample_tx = get_root_ino" "status sample_tx = S_CREATED"
    "tx_view sample_tx v = Some [''f'' \<mapsto> replicate 16 CHR ''u'']" "\<not> committed sample_tx"
    using tx tx' by (simp_all add: sample_inos)
qed

lemma sample_dir_bytes: "dir_bytes [''f'' \<mapsto> u] \<le> OBJ_SIZE" "dir_bytes Map.empty \<le> OBJ_SIZE"
  by (simp_all add: dir_bytes_def OBJ_SIZE_def OBJ_BITS_def)

lemma mem_empty_dir: "dir_at mem_ext (\<lambda>M. M) Map.empty ino None"
  by (simp add: dir_at_def rados_present_def)

theorem tx_sync_refines_witness:
  "\<exists>s'. tx_sync mem_ext sample_tx Map.empty = Some (Inr (), s')
     \<and> dir_at mem_ext (\<lambda>M. M) s' get_root_ino (Some [''f'' \<mapsto> replicate 16 CHR ''u''])
     \<and> files_same (\<lambda>M. M) (tx_files mem_ext sample_tx) Map.empty s'"
  using tx_sync_refines [OF mem_cluster mem_empty_ok sample_tx_facts(1) mem_empty_dir]
  by (auto simp: sample_tx_facts sample_dir_bytes)

text \<open>A commit closes the transaction and appends exactly its record to the journal of its
  directory, remembering where the record starts; nothing else in the pool changes. A second commit
  throws and changes nothing.\<close>

theorem tx_commit_appends:
  assumes "cluster X objs" and "store_ok objs s" and "wf_tx tx" and "\<not> committed tx"
    and "rados_file objs s JOURNAL (uuid_to_string X (s_ino tx)) c"
  shows "\<exists>raw s'. tx_serialize tx = Inr raw
    \<and> tx_commit X (tx, s) = Some (Inr (), tx\<lparr>committed := True, tx_offset := length c\<rparr>, s')
    \<and> rados_file objs s' JOURNAL (uuid_to_string X (s_ino tx)) (c @ raw)
    \<and> files_same objs {(JOURNAL, uuid_to_string X (s_ino tx))} s s'
    \<and> tx_commit X (tx\<lparr>committed := True, tx_offset := length c\<rparr>, s')
        = Some (Inl (Logic_error ''tx has been already committed''), tx\<lparr>committed := True, tx_offset := length c\<rparr>, s')"
proof -
  obtain raw where raw: "tx_serialize tx = Inr raw" using cluster.tx_serialize_wf [OF assms(1,3)] by blast
  obtain s' where "tx_commit X (tx, s) = Some (Inr (), tx\<lparr>committed := True, tx_offset := length c\<rparr>, s')" "store_ok objs s'"
    "rados_file objs s' JOURNAL (uuid_to_string X (s_ino tx)) (c @ raw)"
    "files_same objs {(JOURNAL, uuid_to_string X (s_ino tx))} s s'"
    by (rule cluster.tx_commit_at [OF assms raw])
  then show ?thesis using raw by (auto simp: tx_commit_def)
qed

theorem tx_commit_appends_witness:
  "\<exists>raw s'. tx_serialize sample_tx = Inr raw
     \<and> tx_commit mem_ext (sample_tx, Map.empty) = Some (Inr (), sample_tx\<lparr>committed := True, tx_offset := 0\<rparr>, s')
     \<and> rados_file (\<lambda>M. M) s' JOURNAL (uuid_to_string mem_ext (s_ino sample_tx)) raw"
  using tx_commit_appends [OF mem_cluster mem_empty_ok sample_tx_facts(1,5) mem_empty_file] by auto



end
