(* ===== verification/Journal.thy ===== *)
theory Journal
  imports Transaction_Sync
begin

text \<open>
  The journal of a client (\<open>client/journal/\<close>): the table of open transactions, the queues
  between the threads, the commit thread, the checkpoint threads, the operations the file system
  calls and the recovery of a journal. Transactions are shared between the threads
  (\<open>shared_ptr\<close>), so they live in a heap and the containers hold addresses.
\<close>

section \<open>Message queues\<close>

text \<open>
  What the threads rely on: a queue hands out what was put in, in order, and only waits when it
  is empty.
\<close>

locale fifo =
  fixes put :: "'a \<Rightarrow> 'q \<Rightarrow> 'q" and get :: "'q \<Rightarrow> ('a \<times> 'q) option" and contents :: "'q \<Rightarrow> 'a list"
  assumes contents_put: "contents (put x q) = contents q @ [x]"
    and get_empty: "contents q = [] \<Longrightarrow> get q = None"
    and get_first: "contents q = x # xs \<Longrightarrow> \<exists>q'. get q = Some (x, q') \<and> contents q' = xs"
begin

lemma get_Some_iff: "get q = Some (x, q') \<Longrightarrow> contents q = x # contents q'"
  using get_empty [of q] get_first [of q] by (cases "contents q") auto

text \<open>Putting a list and taking it back keeps the order, after what was there before.\<close>

lemma contents_puts: "contents (fold put xs q) = contents q @ xs"
  by (induction xs arbitrary: q) (simp_all add: contents_put)

end

text \<open>\<open>mqueue\<close>: \<open>dispatch\<close> blocks (\<open>None\<close>) while the queue is empty.\<close>

type_synonym 'a mqueue = "'a list"

definition issue :: "'a \<Rightarrow> 'a mqueue \<Rightarrow> 'a mqueue" where
  "issue v q = q @ [v]"

definition dispatch :: "'a mqueue \<Rightarrow> ('a \<times> 'a mqueue) option" where
  "dispatch q = (case q of [] \<Rightarrow> None | v # rest \<Rightarrow> Some (v, rest))"

interpretation mq: fifo issue dispatch "\<lambda>q. q"
  by unfold_locales (auto simp: issue_def dispatch_def)

section \<open>State\<close>

definition NUM_CP_THREAD :: nat where "NUM_CP_THREAD = 8"

text \<open>An element of a queue is an address, or the null pointer that stops the thread.\<close>

record journal =
  jmap :: "(uuid, nat) robin_map"
  txs :: "nat \<Rightarrow> transaction"
  next_tx :: nat
  queues :: "nat \<Rightarrow> nat option mqueue"
  stopped :: bool

definition journal_new :: journal where
  "journal_new =
     \<lparr>jmap = [], txs = (\<lambda>_. transaction_new nil_uuid), next_tx = 0, queues = (\<lambda>_. []), stopped = False\<rparr>"

section \<open>The table of open transactions\<close>

definition delete_entry :: "uuid \<Rightarrow> journal \<Rightarrow> journal" where
  "delete_entry ino j = j\<lparr>jmap := rm_erase ino (jmap j)\<rparr>"

definition get_entry :: "uuid \<Rightarrow> journal \<Rightarrow> nat \<times> journal" where
  "get_entry ino j =
     (case rm_find (jmap j) ino of
        Some a \<Rightarrow> (a, j)
      | None \<Rightarrow>
          (let a = next_tx j
           in (a, j\<lparr>jmap := fst (rm_insert ino a (jmap j)), txs := (txs j)(a := transaction_new ino),
                    next_tx := Suc a\<rparr>)))"

definition replace_map :: "journal \<Rightarrow> (uuid, nat) robin_map \<times> journal" where
  "replace_map j = (jmap j, j\<lparr>jmap := []\<rparr>)"

section \<open>Operations\<close>

text \<open>
  The loop that every operation runs: fetch the open transaction of the directory and try, until
  the transaction takes the operation.
\<close>

partial_function (option) journal_apply ::
  "uuid \<Rightarrow> (int, transaction) step \<Rightarrow> journal \<Rightarrow> ((exn + unit) \<times> journal) option" where
  "journal_apply ino f j =
     (case get_entry ino j of (a, j1) \<Rightarrow>
        (case f (txs j1 a) of (r, tx) \<Rightarrow>
           (let j2 = j1\<lparr>txs := (txs j1)(a := tx)\<rparr>
            in case r of
                 Inl e \<Rightarrow> Some (Inl e, j2)
               | Inr v \<Rightarrow> if v = 0 then Some (Inr (), j2) else journal_apply ino f j2)))"

definition journal_mkself :: "inode \<Rightarrow> (unit, journal) prog" where
  "journal_mkself self_inode = journal_apply (i_ino (core self_inode)) (tx_mkself self_inode)"

definition journal_rmself :: "uuid \<Rightarrow> (unit, journal) prog" where
  "journal_rmself self_ino = journal_apply self_ino (tx_rmself self_ino)"

definition journal_chself :: "inode \<Rightarrow> (unit, journal) prog" where
  "journal_chself self_inode = journal_apply (i_ino (core self_inode)) (tx_chself self_inode)"

definition journal_mkdir :: "inode \<Rightarrow> string \<Rightarrow> uuid \<Rightarrow> (unit, journal) prog" where
  "journal_mkdir self_inode d_name d_ino =
     journal_apply (i_ino (core self_inode)) (tx_mkdir self_inode d_name d_ino)"

definition journal_rmdir :: "inode \<Rightarrow> string \<Rightarrow> uuid \<Rightarrow> (unit, journal) prog" where
  "journal_rmdir self_inode d_name d_ino =
     journal_apply (i_ino (core self_inode)) (tx_rmdir self_inode d_name d_ino)"

definition journal_mvdir :: "inode \<Rightarrow> string \<Rightarrow> uuid \<Rightarrow> string \<Rightarrow> uuid \<Rightarrow> (unit, journal) prog" where
  "journal_mvdir self_inode src src_ino dst dst_ino =
     journal_apply (i_ino (core self_inode)) (tx_mvdir self_inode src src_ino dst dst_ino)"

definition journal_mkreg :: "inode \<Rightarrow> string \<Rightarrow> inode \<Rightarrow> (unit, journal) prog" where
  "journal_mkreg self_inode f_name f_inode =
     journal_apply (i_ino (core self_inode)) (tx_mkreg self_inode f_name f_inode)"

definition journal_rmreg :: "inode \<Rightarrow> string \<Rightarrow> inode \<Rightarrow> (unit, journal) prog" where
  "journal_rmreg self_inode f_name f_inode =
     journal_apply (i_ino (core self_inode)) (tx_rmreg self_inode f_name f_inode)"

definition journal_mvreg :: "inode \<Rightarrow> string \<Rightarrow> uuid \<Rightarrow> string \<Rightarrow> uuid \<Rightarrow> (unit, journal) prog" where
  "journal_mvreg self_inode src src_ino dst dst_ino =
     journal_apply (i_ino (core self_inode)) (tx_mvreg self_inode src src_ino dst dst_ino)"

definition journal_chreg :: "uuid \<Rightarrow> inode \<Rightarrow> (unit, journal) prog" where
  "journal_chreg self_ino f_inode = journal_apply self_ino (tx_chreg f_inode)"

section \<open>The commit thread\<close>

text \<open>The queue of a directory is chosen by the first eight bytes of its number.\<close>

definition queue_of :: "uuid \<Rightarrow> nat" where
  "queue_of ino = unat (get_prefix_from_uuid ino) mod NUM_CP_THREAD"

definition issue_to :: "nat \<Rightarrow> nat option \<Rightarrow> journal \<Rightarrow> journal" where
  "issue_to i v j = j\<lparr>queues := (queues j)(i := issue v (queues j i))\<rparr>"

text \<open>One round of the loop body: commit a transaction and hand it to its checkpoint thread.\<close>

definition commit_one :: "'s ext \<Rightarrow> uuid \<Rightarrow> nat \<Rightarrow> (unit, journal \<times> 's) prog" where
  "commit_one X ino a st =
     (case st of (j, s) \<Rightarrow>
        (case tx_commit X (txs j a, s) of
           None \<Rightarrow> None
         | Some (r, tx, s') \<Rightarrow>
             (let j1 = j\<lparr>txs := (txs j)(a := tx)\<rparr>
              in case r of
                   Inl e \<Rightarrow> Some (Inl e, j1, s')
                 | Inr _ \<Rightarrow> Some (Inr (), issue_to (queue_of ino) (Some a) j1, s'))))"

fun commit_entries :: "'s ext \<Rightarrow> (uuid, nat) robin_map \<Rightarrow> (unit, journal \<times> 's) prog" where
  "commit_entries X [] st = ret () st"
| "commit_entries X ((ino, a) # rest) st = bnd (commit_one X ino a) (\<lambda>_. commit_entries X rest) st"

definition commit_cycle :: "'s ext \<Rightarrow> (unit, journal \<times> 's) prog" where
  "commit_cycle X st =
     (case st of (j, s) \<Rightarrow>
        (case replace_map j of (m, j1) \<Rightarrow> commit_entries X m (j1, s)))"

text \<open>After the last cycle every checkpoint thread gets the null pointer.\<close>

definition commit_stop :: "journal \<Rightarrow> journal" where
  "commit_stop j = fold (\<lambda>i. issue_to i None) [0..<NUM_CP_THREAD] j"

section \<open>The checkpoint threads\<close>

text \<open>One iteration of thread \<open>i\<close>: \<open>Inr False\<close> when it stops, \<open>Inr True\<close> to go on. Waiting on
  the empty queue does not return.\<close>

definition checkpoint_one :: "'s ext \<Rightarrow> nat \<Rightarrow> (bool, journal \<times> 's) prog" where
  "checkpoint_one X i st =
     (case st of (j, s) \<Rightarrow>
        (case dispatch (queues j i) of
           None \<Rightarrow> None
         | Some (v, q) \<Rightarrow>
             (let j1 = j\<lparr>queues := (queues j)(i := q)\<rparr>
              in case v of
                   None \<Rightarrow> Some (Inr False, j1, s)
                 | Some a \<Rightarrow>
                     (case tx_checkpoint X (txs j1 a) s of
                        None \<Rightarrow> None
                      | Some (Inl e, s') \<Rightarrow> Some (Inl e, j1, s')
                      | Some (Inr _, s') \<Rightarrow> Some (Inr True, j1, s')))))"

section \<open>Recovery\<close>

text \<open>
  \<open>check\<close>: the journal is read into a buffer of one block. A negative record size makes the
  vector constructor throw; a record past the end of the buffer is out of bounds.
\<close>

partial_function (option) check_loop :: "'s ext \<Rightarrow> uuid \<Rightarrow> bytes \<Rightarrow> nat \<Rightarrow> nat \<Rightarrow> 's \<Rightarrow> ((exn + unit) \<times> 's) option" where
  "check_loop X self_ino value index obj_size s =
     (if index < obj_size then
        (case peek value (int index) 4 of
           None \<Rightarrow> Some (Inl (Crash ''value''), s)
         | Some sz \<Rightarrow>
             (let tx_size = sint32 sz
              in if tx_size < 0 then Some (Inl (Logic_error ''vector''), s)
                 else case peek value (int index) (nat tx_size) of
                   None \<Rightarrow> Some (Inl (Crash ''value''), s)
                 | Some raw \<Rightarrow>
                     (case tx_deserialize X raw (transaction_new self_ino) s of
                        None \<Rightarrow> None
                      | Some (Inl e, s1) \<Rightarrow> Some (Inl e, s1)
                      | Some (Inr (r, tx), s1) \<Rightarrow>
                          if r \<noteq> 0 then Some (Inl (Runtime_error ''journal::check() failed (not implemented yet)''), s1)
                          else (case tx_sync X tx s1 of
                                  None \<Rightarrow> None
                                | Some (Inl e, s2) \<Rightarrow> Some (Inl e, s2)
                                | Some (Inr _, s2) \<Rightarrow> check_loop X self_ino value (index + nat tx_size) obj_size s2))))
      else Some (Inr (), s))"

definition journal_check :: "'s ext \<Rightarrow> uuid \<Rightarrow> (unit, journal \<times> 's) prog" where
  "journal_check X self_ino st =
     (case st of (j, s) \<Rightarrow>
        (let j1 = delete_entry self_ino j
         in case rados_read X JOURNAL (uuid_to_string X self_ino) OBJ_SIZE 0 s of
              (Inl e, bs, s1) \<Rightarrow> Some (Inl e, j1, s1)
            | (Inr obj_size, bs, s1) \<Rightarrow>
                map_option (\<lambda>(r, s2). (r, j1, s2))
                  (check_loop X self_ino (bs @ replicate (OBJ_SIZE - length bs) zero_byte) 0 obj_size s1)))"

section \<open>The operations as data\<close>

datatype dir_op =
    Mkself inode
  | Rmself
  | Chself inode
  | Mkdir inode string uuid
  | Rmdir inode string uuid
  | Mvdir inode string uuid string uuid
  | Mkreg inode string inode
  | Rmreg inode string inode
  | Mvreg inode string uuid string uuid
  | Chreg inode

fun run_op :: "uuid \<Rightarrow> dir_op \<Rightarrow> (int, transaction) step" where
  "run_op ino (Mkself i) = tx_mkself i"
| "run_op ino Rmself = tx_rmself ino"
| "run_op ino (Chself i) = tx_chself i"
| "run_op ino (Mkdir i name child) = tx_mkdir i name child"
| "run_op ino (Rmdir i name child) = tx_rmdir i name child"
| "run_op ino (Mvdir i src src_ino dst dst_ino) = tx_mvdir i src src_ino dst dst_ino"
| "run_op ino (Mkreg i name f) = tx_mkreg i name f"
| "run_op ino (Rmreg i name f) = tx_rmreg i name f"
| "run_op ino (Mvreg i src src_ino dst dst_ino) = tx_mvreg i src src_ino dst dst_ino"
| "run_op ino (Chreg f) = tx_chreg f"

text \<open>What an operation means for the contents of its directory\<close>

fun op_effect :: "dir_op \<Rightarrow> dir \<Rightarrow> dir" where
  "op_effect (Mkself i) v = Some Map.empty"
| "op_effect Rmself v = None"
| "op_effect (Chself i) v = v"
| "op_effect (Mkdir i name child) v = map_option (\<lambda>m. m(name \<mapsto> child)) v"
| "op_effect (Rmdir i name child) v = map_option (\<lambda>m. m(name := None)) v"
| "op_effect (Mvdir i src src_ino dst dst_ino) v = map_option (\<lambda>m. m(src := None, dst \<mapsto> src_ino)) v"
| "op_effect (Mkreg i name f) v = map_option (\<lambda>m. m(name \<mapsto> i_ino (core f))) v"
| "op_effect (Rmreg i name f) v = map_option (\<lambda>m. m(name := None)) v"
| "op_effect (Mvreg i src src_ino dst dst_ino) v = map_option (\<lambda>m. m(src := None, dst \<mapsto> src_ino)) v"
| "op_effect (Chreg f) v = v"

text \<open>
  What the callers guarantee: names and numbers are valid, a created entry is not already created
  and a removed one not already removed in the open transaction.
\<close>

abbreviation no_entry_as :: "bool \<Rightarrow> string \<Rightarrow> transaction \<Rightarrow> bool" where
  "no_entry_as alive name tx \<equiv> \<nexists>old. rm_find (dentries tx) name = Some (alive, old)"

definition file_ok :: "inode \<Rightarrow> transaction \<Rightarrow> bool" where
  "file_ok f tx \<longleftrightarrow> wf_inode f \<and> \<not> is_nil (i_ino (core f)) \<and> i_ino (core f) \<noteq> s_ino tx"

fun op_pre :: "dir_op \<Rightarrow> transaction \<Rightarrow> bool" where
  "op_pre (Mkself i) tx \<longleftrightarrow> self_ok i tx \<and> dentries tx = []"
| "op_pre Rmself tx \<longleftrightarrow> True"
| "op_pre (Chself i) tx \<longleftrightarrow> self_ok i tx"
| "op_pre (Mkdir i name child) tx \<longleftrightarrow> self_ok i tx \<and> name_ok name \<and> ino_ok child \<and> no_entry_as True name tx"
| "op_pre (Rmdir i name child) tx \<longleftrightarrow> self_ok i tx \<and> name_ok name \<and> ino_ok child \<and> no_entry_as False name tx"
| "op_pre (Mvdir i src src_ino dst dst_ino) tx \<longleftrightarrow>
     self_ok i tx \<and> name_ok src \<and> name_ok dst \<and> ino_ok src_ino \<and> no_entry_as False src tx"
| "op_pre (Mkreg i name f) tx \<longleftrightarrow> self_ok i tx \<and> name_ok name \<and> file_ok f tx \<and> no_entry_as True name tx
     \<and> (\<nexists>g. rm_find (f_inodes tx) (i_ino (core f)) = Some (Some g))"
| "op_pre (Rmreg i name f) tx \<longleftrightarrow> self_ok i tx \<and> name_ok name \<and> file_ok f tx \<and> no_entry_as False name tx
     \<and> rm_find (f_inodes tx) (i_ino (core f)) \<noteq> Some None"
| "op_pre (Mvreg i src src_ino dst dst_ino) tx \<longleftrightarrow>
     self_ok i tx \<and> name_ok src \<and> name_ok dst \<and> ino_ok src_ino \<and> no_entry_as False src tx \<and> dst_ino \<noteq> s_ino tx"
| "op_pre (Chreg f) tx \<longleftrightarrow> file_ok f tx"

lemma run_op_effect:
  assumes "wf_tx tx" and "\<not> committed tx" and "op_pre op tx"
  shows "tx_effect (run_op ino op) (op_effect op) tx"
proof (cases op)
  case (Mkself i) with assms tx_mkself_effect [of tx i] show ?thesis by (simp add: tx_effect_def)
next
  case Rmself with assms tx_rmself_effect [of tx ino] show ?thesis by (simp add: tx_effect_def)
next
  case (Chself i) with assms tx_chself_effect [of tx i] show ?thesis by (simp add: tx_effect_def)
next
  case (Mkdir i name child) with assms tx_mkdir_effect [of tx i name child] show ?thesis by (simp add: tx_effect_def)
next
  case (Rmdir i name child) with assms tx_rmdir_effect [of tx i name child] show ?thesis by (simp add: tx_effect_def)
next
  case (Mvdir i src src_ino dst dst_ino)
  with assms tx_mvdir_effect [of tx i src dst src_ino dst_ino] show ?thesis by (simp add: tx_effect_def)
next
  case (Mkreg i name f) with assms tx_mkreg_effect [of tx i name f] show ?thesis by (simp add: tx_effect_def file_ok_def)
next
  case (Rmreg i name f) with assms tx_rmreg_effect [of tx i name f] show ?thesis by (simp add: tx_effect_def file_ok_def)
next
  case (Mvreg i src src_ino dst dst_ino)
  with assms tx_mvreg_effect [of tx i src dst src_ino dst_ino] show ?thesis by (simp add: tx_effect_def)
next
  case (Chreg f) with assms tx_chreg_effect [of tx f] show ?thesis by (simp add: tx_effect_def file_ok_def)
qed

text \<open>What an operation does to the inodes of the transaction\<close>

fun op_files :: "dir_op \<Rightarrow> (uuid \<rightharpoonup> inode option) \<Rightarrow> (uuid \<rightharpoonup> inode option)" where
  "op_files (Mkreg i name f) m = m(i_ino (core f) \<mapsto> Some (inode_copy f))"
| "op_files (Rmreg i name f) m = m(i_ino (core f) \<mapsto> None)"
| "op_files (Mvreg i src src_ino dst dst_ino) m = (if is_nil dst_ino then m else m(dst_ino \<mapsto> None))"
| "op_files (Chreg f) m = m(i_ino (core f) \<mapsto> Some (inode_copy f))"
| "op_files op m = m"

lemma put_dentry_files: "put_dentry msg name alive ino tx = Inr tx' \<Longrightarrow> f_inodes tx' = f_inodes tx"
  by (auto dest: put_dentry_Inr)

lemma set_dentry_files: "f_inodes (set_dentry name alive ino tx) = f_inodes tx"
  by (simp add: set_dentry_def split: prod.split)

lemma run_op_files:
  assumes "run_op ino op tx = (Inr 0, tx')"
  shows "map_of (f_inodes tx') = op_files op (map_of (f_inodes tx))"
  using assms
  by (cases op) (auto simp: tx_mkself_def tx_rmself_def tx_chself_def tx_mkdir_def tx_rmdir_def tx_mvdir_def
      tx_mkreg_def tx_rmreg_def tx_mvreg_def tx_chreg_def Let_def rm_find_set set_dentry_files
      dest: put_dentry_files split: if_splits sum.splits option.splits)

text \<open>A committed transaction takes no operation.\<close>

lemma run_op_committed: "committed tx \<Longrightarrow> run_op ino op tx = (Inr (- 1), tx)"
  by (cases op) (simp_all add: tx_mkself_def tx_rmself_def tx_chself_def tx_mkdir_def tx_rmdir_def tx_mvdir_def
      tx_mkreg_def tx_rmreg_def tx_mvreg_def tx_chreg_def)

end
