(* ===== verification/Lease_Manager.thy ===== *)
theory Lease_Manager
  imports External
begin

text \<open>
  The lease service of the manager (\<open>manager/lease/lease_table.cpp\<close>, \<open>lease_impl.cpp\<close>). A
  lease of a directory belongs to the client whose server address the entry holds, until its due
  time. Every read of \<open>system_clock::now()\<close> is an argument; times are nanoseconds since the
  epoch. The critical sections of \<open>acquire\<close> (find, \<open>cas\<close>, insert) are definitions of their
  own, so that the protocol can interleave them.
\<close>

definition LEASE_PERIOD_MS :: int where "LEASE_PERIOD_MS = 200000000"

definition lease_period :: int where "lease_period = LEASE_PERIOD_MS * 1000000"

record lease_entry =
  due :: int
  addr :: string

type_synonym lease_table = "(string, lease_entry) robin_map"

text \<open>The constructor also stores the due time in \<open>latest_due\<close>.\<close>

definition lease_entry_new :: "int \<Rightarrow> string \<Rightarrow> lease_entry \<times> int" where
  "lease_entry_new now remote_addr =
     (let d = now + lease_period in (\<lparr>due = d, addr = remote_addr\<rparr>, d))"

definition lease_get_info :: "lease_entry \<Rightarrow> int \<times> string" where
  "lease_get_info e = (due e, addr e)"

text \<open>
  \<open>cas\<close> reads the clock once for the test and once more for the new due time. It returns
  whether the lease was acquired, \<open>latest_due\<close> and \<open>remote_addr\<close>.
\<close>

definition cas :: "int \<Rightarrow> int \<Rightarrow> string \<Rightarrow> lease_entry \<Rightarrow> (bool \<times> int \<times> string) \<times> lease_entry" where
  "cas now1 now2 remote_addr e =
     (if now1 \<ge> due e then
        (let d = now2 + lease_period
         in ((True, d, remote_addr), e\<lparr>due := d, addr := remote_addr\<rparr>))
      else if addr e = remote_addr then ((True, due e, remote_addr), e)
      else ((False, due e, addr e), e))"

section \<open>The sections of \<open>acquire\<close>\<close>

definition acquire_find :: "string \<Rightarrow> lease_table \<Rightarrow> bool" where
  "acquire_find key t = (rm_find t key \<noteq> None)"

text \<open>Entries are never erased, so the pointer found is the entry of the key.\<close>

definition acquire_cas :: "int \<Rightarrow> int \<Rightarrow> string \<Rightarrow> string \<Rightarrow> lease_table \<Rightarrow> (int \<times> int \<times> string) \<times> lease_table" where
  "acquire_cas now1 now2 key remote_addr t =
     (case rm_find t key of
        None \<Rightarrow> ((- 1, 0, remote_addr), t)
      | Some e \<Rightarrow>
          (case cas now1 now2 remote_addr e of
             ((ok, latest_due, remote_addr'), e') \<Rightarrow>
               ((if ok then 0 else - 1, latest_due, remote_addr'), rm_set key e' t)))"

definition acquire_insert :: "int \<Rightarrow> string \<Rightarrow> string \<Rightarrow> lease_table \<Rightarrow> (int \<times> int \<times> string) \<times> lease_table" where
  "acquire_insert now key remote_addr t =
     (case rm_find t key of
        None \<Rightarrow>
          (case lease_entry_new now remote_addr of
             (e, latest_due) \<Rightarrow> ((0, latest_due, remote_addr), fst (rm_insert key e t)))
      | Some e \<Rightarrow>
          (case lease_get_info e of
             (latest_due, a) \<Rightarrow> ((if a = remote_addr then 0 else - 1, latest_due, remote_addr), t)))"

definition lease_table_acquire ::
  "int \<Rightarrow> int \<Rightarrow> string \<Rightarrow> string \<Rightarrow> lease_table \<Rightarrow> (int \<times> int \<times> string) \<times> lease_table" where
  "lease_table_acquire now1 now2 key remote_addr t =
     (if acquire_find key t then acquire_cas now1 now2 key remote_addr t
      else acquire_insert now1 key remote_addr t)"

section \<open>The service\<close>

record lease_request =
  req_ino_prefix :: "64 word"
  req_ino_postfix :: "64 word"
  req_remote_addr :: string

record lease_response =
  res_ret :: int
  res_due :: int
  res_remote_addr :: string

definition lease_key :: "'s ext \<Rightarrow> lease_request \<Rightarrow> string" where
  "lease_key X request =
     uuid_to_string X (splice_prefix_and_postfix (req_ino_prefix request) (req_ino_postfix request))"

text \<open>What \<open>lease_impl::acquire\<close> puts into the response; an unset string field is empty.\<close>

definition lease_answer :: "int \<times> int \<times> string \<Rightarrow> lease_response" where
  "lease_answer a =
     (case a of (r, latest_due, remote_addr) \<Rightarrow>
        \<lparr>res_ret = r, res_due = latest_due, res_remote_addr = (if r \<noteq> 0 then remote_addr else [])\<rparr>)"

definition lease_impl_acquire ::
  "'s ext \<Rightarrow> int \<Rightarrow> int \<Rightarrow> lease_request \<Rightarrow> lease_table \<Rightarrow> lease_response \<times> lease_table" where
  "lease_impl_acquire X now1 now2 request t =
     (case lease_table_acquire now1 now2 (lease_key X request) (req_remote_addr request) t of
        (a, t') \<Rightarrow> (lease_answer a, t'))"

section \<open>What an entry promises\<close>

text \<open>
  A time \<open>d\<close> up to which client \<open>c\<close> believes to hold the lease is \<open>covered\<close> when the entry
  reaches at least to \<open>d\<close> and still names \<open>c\<close>, unless \<open>d\<close> has passed.
\<close>

definition covered :: "int \<Rightarrow> lease_table \<Rightarrow> string \<Rightarrow> string \<Rightarrow> int \<Rightarrow> bool" where
  "covered now t key c d \<longleftrightarrow>
     (case rm_find t key of None \<Rightarrow> False | Some e \<Rightarrow> d \<le> due e \<and> (addr e = c \<or> d \<le> now))"

lemma lease_period_pos: "0 < lease_period"
  by (simp add: lease_period_def LEASE_PERIOD_MS_def)

lemma covered_later: "covered now t key c d \<Longrightarrow> now \<le> now' \<Longrightarrow> covered now' t key c d"
  by (auto simp: covered_def split: option.splits)

lemma covered_exclusive:
  "covered now t key c d \<Longrightarrow> covered now t key c' d' \<Longrightarrow> now < d \<Longrightarrow> now < d' \<Longrightarrow> c = c'"
  by (auto simp: covered_def split: option.splits)

text \<open>Both mutating sections keep what was covered, and cover what they grant.\<close>

lemma acquire_cas_covered:
  assumes "covered now1 t k c d" and "now1 \<le> now2"
  shows "covered now2 (snd (acquire_cas now1 now2 key remote_addr t)) k c d"
  using assms lease_period_pos
  by (auto simp: covered_def acquire_cas_def cas_def Let_def rm_find_set split: option.splits if_splits)

lemma acquire_insert_covered:
  assumes "covered now t k c d"
  shows "covered now (snd (acquire_insert now key remote_addr t)) k c d"
  using assms
  by (auto simp: covered_def acquire_insert_def lease_entry_new_def lease_get_info_def Let_def rm_simps
      split: option.splits if_splits)

lemma acquire_cas_grant:
  assumes "acquire_cas now1 now2 key remote_addr t = ((0, d, a), t')"
  shows "covered now2 t' key remote_addr d"
  using assms
  by (auto simp: covered_def acquire_cas_def cas_def Let_def rm_find_set split: option.splits if_splits prod.splits)

lemma acquire_insert_grant:
  assumes "acquire_insert now key remote_addr t = ((0, d, a), t')"
  shows "covered now t' key remote_addr d"
  using assms
  by (auto simp: covered_def acquire_insert_def lease_entry_new_def lease_get_info_def Let_def rm_simps
      split: option.splits if_splits)

text \<open>
  An acquisition that is not interleaved with another: it succeeds exactly when the lease is
  free, expired or the caller's, the caller then holds a lease that is not over; otherwise it
  reports the holder, and in no case is a running lease cut short.
\<close>

lemma lease_table_acquire_spec:
  assumes "now1 \<le> now2" and "lease_table_acquire now1 now2 key remote_addr t = ((r, d, a), t')"
  shows "r = 0 \<longleftrightarrow> (case rm_find t key of None \<Rightarrow> True | Some e \<Rightarrow> due e \<le> now1 \<or> addr e = remote_addr)"
    and "r = 0 \<Longrightarrow> rm_find t' key = Some \<lparr>due = d, addr = remote_addr\<rparr> \<and> now1 < d"
    and "r \<noteq> 0 \<Longrightarrow> r = - 1 \<and> map_of t' = map_of t \<and> rm_find t key = Some \<lparr>due = d, addr = a\<rparr> \<and> now1 < d"
    and "k \<noteq> key \<Longrightarrow> rm_find t' k = rm_find t k"
  using assms lease_period_pos
  by (auto simp: lease_table_acquire_def acquire_find_def acquire_cas_def acquire_insert_def cas_def lease_entry_new_def
      Let_def rm_simps fun_upd_idem split: option.splits if_splits prod.splits)

section \<open>Properties\<close>

text \<open>An acquisition that no other one interleaves with grants the lease exactly when it is free,
  expired or already the caller's; the caller is then the holder, with a due time in the future.
  Otherwise the table is unchanged and the answer names the holder of a lease that still runs.
  Leases of other directories are never touched.\<close>

theorem lease_acquire_spec:
  assumes "now1 \<le> now2" and "lease_table_acquire now1 now2 key remote_addr t = ((r, d, a), t')"
  shows "(r = 0 \<longleftrightarrow> (case rm_find t key of None \<Rightarrow> True | Some e \<Rightarrow> due e \<le> now1 \<or> addr e = remote_addr))
    \<and> (r = 0 \<longrightarrow> rm_find t' key = Some \<lparr>due = d, addr = remote_addr\<rparr> \<and> now1 < d)
    \<and> (r \<noteq> 0 \<longrightarrow> r = - 1 \<and> map_of t' = map_of t \<and> rm_find t key = Some \<lparr>due = d, addr = a\<rparr> \<and> now1 < d)
    \<and> (\<forall>k. k \<noteq> key \<longrightarrow> rm_find t' k = rm_find t k)"
  using lease_table_acquire_spec [OF assms] by blast

theorem lease_acquire_spec_witness:
  "(1 :: int) = 0 \<or> rm_find [(''d'', \<lparr>due = 10, addr = ''A''\<rparr>)] ''d'' = Some \<lparr>due = 10, addr = ''A''\<rparr> \<and> (5 :: int) < 10"
  using lease_acquire_spec [of 5 6 "''d''" "''B''" "[(''d'', \<lparr>due = 10, addr = ''A''\<rparr>)]" "- 1" 10 "''A''" "[(''d'', \<lparr>due = 10, addr = ''A''\<rparr>)]"]
  by (simp add: lease_table_acquire_def acquire_find_def acquire_cas_def cas_def)

text \<open>When the entry appears between the search and the insertion, a refused caller is told its
  own address instead of the leader's.\<close>

theorem lease_insert_race_address:
  assumes "rm_find t key = Some e" and "addr e \<noteq> remote_addr"
  shows "acquire_insert now key remote_addr t = ((- 1, due e, remote_addr), t)"
  using assms by (simp add: acquire_insert_def lease_get_info_def)

theorem lease_insert_race_address_witness:
  "acquire_insert 5 ''d'' ''B'' [(''d'', \<lparr>due = 10, addr = ''A''\<rparr>)] = ((- 1, 10, ''B''), [(''d'', \<lparr>due = 10, addr = ''A''\<rparr>)])"
  using lease_insert_race_address [of "[(''d'', \<lparr>due = 10, addr = ''A''\<rparr>)]" "''d''" "\<lparr>due = 10, addr = ''A''\<rparr>" "''B''" 5] by simp

end
