(* ===== verification/Lease_Client.thy ===== *)
theory Lease_Client
  imports Lease_Manager
begin

text \<open>
  The client's side of the leases (\<open>client/lease/lease_table_client.cpp\<close>,
  \<open>client/lease/lease_client.cpp\<close>): a table of the leases the client has heard of, and the call
  to the manager, whose stub is a parameter.
\<close>

record client_lease =
  c_due :: int
  leader :: bool

type_synonym lease_table_client = "(uuid, client_lease) robin_map"

definition lease_set_info :: "int \<Rightarrow> bool \<Rightarrow> client_lease \<Rightarrow> client_lease" where
  "lease_set_info new_due mine e = (if new_due > c_due e then e\<lparr>c_due := new_due, leader := mine\<rparr> else e)"

definition is_valid :: "int \<Rightarrow> lease_table_client \<Rightarrow> uuid \<Rightarrow> bool" where
  "is_valid now t ino = (case rm_find t ino of None \<Rightarrow> False | Some e \<Rightarrow> now < c_due e)"

definition is_mine :: "int \<Rightarrow> lease_table_client \<Rightarrow> uuid \<Rightarrow> bool" where
  "is_mine now t ino = (case rm_find t ino of None \<Rightarrow> False | Some e \<Rightarrow> leader e \<and> now < c_due e)"

text \<open>The sections of \<open>update\<close>: the search, and the two ways to store.\<close>

definition update_find :: "uuid \<Rightarrow> lease_table_client \<Rightarrow> bool" where
  "update_find ino t = (rm_find t ino \<noteq> None)"

definition update_set :: "uuid \<Rightarrow> int \<Rightarrow> bool \<Rightarrow> lease_table_client \<Rightarrow> lease_table_client" where
  "update_set ino new_due mine t =
     (case rm_find t ino of None \<Rightarrow> t | Some e \<Rightarrow> rm_set ino (lease_set_info new_due mine e) t)"

definition update_insert :: "uuid \<Rightarrow> int \<Rightarrow> bool \<Rightarrow> lease_table_client \<Rightarrow> lease_table_client" where
  "update_insert ino new_due mine t =
     (case rm_find t ino of
        None \<Rightarrow> fst (rm_insert ino \<lparr>c_due = new_due, leader = mine\<rparr> t)
      | Some e \<Rightarrow> rm_set ino (lease_set_info new_due mine e) t)"

definition lease_update :: "uuid \<Rightarrow> int \<Rightarrow> bool \<Rightarrow> lease_table_client \<Rightarrow> lease_table_client" where
  "lease_update ino new_due mine t =
     (if update_find ino t then update_set ino new_due mine t else update_insert ino new_due mine t)"

definition make_lease_request :: "string \<Rightarrow> uuid \<Rightarrow> lease_request" where
  "make_lease_request remote ino =
     \<lparr>req_ino_prefix = get_prefix_from_uuid ino, req_ino_postfix = get_postfix_from_uuid ino,
      req_remote_addr = remote\<rparr>"

text \<open>
  \<open>lease_client::acquire\<close>: \<open>remote\<close> is the client's own address, \<open>remote_addr\<close> the argument
  passed by reference, whose final value is part of the result.
\<close>

definition lease_client_acquire ::
  "(lease_request \<Rightarrow> 's \<Rightarrow> lease_response option \<times> 's) \<Rightarrow> int \<Rightarrow> string \<Rightarrow> uuid \<Rightarrow> string \<Rightarrow>
   (int \<times> string, lease_table_client \<times> 's) step" where
  "lease_client_acquire stub now remote ino remote_addr st =
     (case st of (t, s) \<Rightarrow>
        if is_mine now t ino then (Inr (0, remote_addr), t, s)
        else
          (case stub (make_lease_request remote ino) s of
             (Some response, s') \<Rightarrow>
               (let r = res_ret response;
                    t' = lease_update ino (res_due response) (r = 0) t
                in (Inr (r, if r \<noteq> 0 then res_remote_addr response else remote_addr), t', s'))
           | (None, s') \<Rightarrow> (Inl (Runtime_error ''lease_client::acquire() failed''), t, s')))"

section \<open>What the table remembers\<close>

text \<open>Whichever way the update takes, the entry moves to the later due time.\<close>

lemma lease_update_find:
  "map_of (lease_update ino d mine t) =
     (map_of t)(ino \<mapsto> case rm_find t ino of
        None \<Rightarrow> \<lparr>c_due = d, leader = mine\<rparr>
      | Some e \<Rightarrow> if d > c_due e then \<lparr>c_due = d, leader = mine\<rparr> else e)"
proof (cases "rm_find t ino")
  case None
  then show ?thesis by (simp add: lease_update_def update_find_def update_insert_def rm_simps)
next
  case (Some e)
  then show ?thesis
    by (cases e) (simp add: lease_update_def update_find_def update_set_def lease_set_info_def rm_simps)
qed

lemma update_insert_eq: "map_of (update_insert ino d mine t) = map_of (lease_update ino d mine t)"
  by (auto simp: lease_update_def update_find_def update_insert_def update_set_def split: option.splits)

lemma update_set_eq: "rm_find t ino \<noteq> None \<Longrightarrow> update_set ino d mine t = lease_update ino d mine t"
  by (simp add: lease_update_def update_find_def)

lemma is_mine_valid: "is_mine now t ino \<Longrightarrow> is_valid now t ino"
  by (auto simp: is_mine_def is_valid_def split: option.splits)

lemma is_mine_expires: "is_mine now t ino \<Longrightarrow> now' \<le> now \<Longrightarrow> is_mine now' t ino"
  by (auto simp: is_mine_def split: option.splits)

end
