(* ===== verification/Session.thy ===== *)
theory Session
  imports File_Store
begin

text \<open>
  The session service of the manager (\<open>manager/session/session_impl.cpp\<close>) and its client stub
  (\<open>client/client/session_client.cpp\<close>, \<open>client/client/client.cpp\<close>): client ids are handed out
  from a counter that is kept in the metadata pool, so that they stay unique across restarts of
  the manager.
\<close>

definition CLIENT_BITS :: nat where "CLIENT_BITS = 24"

record session_impl =
  next_id :: "64 word"

text \<open>\<open>mount\<close>: the id of the reply is an \<open>int64\<close>.\<close>

definition session_mount :: "'s ext \<Rightarrow> (64 word, session_impl \<times> 's) step" where
  "session_mount X st =
     (case st of (ss, s) \<Rightarrow>
        if next_id ss < push_bit CLIENT_BITS 1 then
          (let answer = next_id ss;
               ss = ss\<lparr>next_id := next_id ss + 1\<rparr>
           in case rados_write X CLIENT ''next_id'' (enc64 (next_id ss)) 0 s of
                (Inl e, s') \<Rightarrow> (Inl e, ss, s')
              | (Inr _, s') \<Rightarrow> (Inr answer, ss, s'))
        else (Inr (- 1), ss, s))"

definition session_umount :: "(unit, session_impl \<times> 's) step" where
  "session_umount st = (Inr (), st)"

text \<open>
  The constructor reads as many bytes as the object has into the eight bytes of \<open>next_id\<close>: more
  than eight are written out of bounds, fewer leave a part of the counter uninitialised.
\<close>

definition session_new :: "'s ext \<Rightarrow> (session_impl, 's) prog" where
  "session_new X =
     bnd (rados_stat X CLIENT ''next_id'') (\<lambda>(exists, sz) s.
       if exists then
         (if sz \<noteq> 8 then Some (Inl (Crash ''next_id buffer''), s)
          else case rados_read X CLIENT ''next_id'' sz 0 s of
                 (Inl e, bs, s') \<Rightarrow> Some (Inl e, s')
               | (Inr n, bs, s') \<Rightarrow> Some (Inr \<lparr>next_id = dec64 bs\<rparr>, s'))
       else Some (Inr \<lparr>next_id = 1\<rparr>, s))"

section \<open>The client side\<close>

text \<open>\<open>session_client::mount\<close> and the constructor of \<open>client\<close>: \<open>stub\<close> is the remote call, whose
  status is not \<open>OK\<close> when it answers \<open>None\<close>.\<close>

record client =
  client_id :: "64 word"
  client_uid :: "32 word"
  client_gid :: "32 word"

definition session_client_mount :: "('s \<Rightarrow> 64 word option \<times> 's) \<Rightarrow> (64 word, 's) step" where
  "session_client_mount stub s =
     (case stub s of
        (Some answer, s') \<Rightarrow> (Inr answer, s')
      | (None, s') \<Rightarrow> (Inl (Runtime_error ''session_client::mount() failed''), s'))"

definition session_client_umount :: "('s \<Rightarrow> unit option \<times> 's) \<Rightarrow> (unit, 's) step" where
  "session_client_umount stub s =
     (case stub s of
        (Some _, s') \<Rightarrow> (Inr (), s')
      | (None, s') \<Rightarrow> (Inl (Runtime_error ''session_client::umount() failed''), s'))"

definition client_new :: "('s \<Rightarrow> 64 word option \<times> 's) \<Rightarrow> (client, 's) step" where
  "client_new stub s =
     (case session_client_mount stub s of
        (Inl e, s') \<Rightarrow> (Inl e, s')
      | (Inr answer, s') \<Rightarrow> (Inr \<lparr>client_id = answer, client_uid = 0, client_gid = 0\<rparr>, s'))"

section \<open>Runs of the service\<close>

text \<open>The life of the service: mounts, and restarts of the manager that build it from the pool.\<close>

datatype session_event = Mount | Restart

fun session_run :: "'s ext \<Rightarrow> session_event list \<Rightarrow> (64 word list, session_impl \<times> 's) prog" where
  "session_run X [] st = ret [] st"
| "session_run X (Mount # evs) st =
     bnd (lift (session_mount X)) (\<lambda>answer. bnd (session_run X evs) (\<lambda>answers. ret (answer # answers))) st"
| "session_run X (Restart # evs) (ss, s) =
     (case session_new X s of
        None \<Rightarrow> None
      | Some (Inl e, s') \<Rightarrow> Some (Inl e, ss, s')
      | Some (Inr ss', s') \<Rightarrow> session_run X evs (ss', s'))"

text \<open>The ids of mounts number \<open>k\<close>, \<open>k + 1\<close>, \dots, in that order.\<close>

definition nth_id :: "nat \<Rightarrow> 64 word" where
  "nth_id k = (if k < 2 ^ CLIENT_BITS then of_nat k else - 1)"

definition mounts :: "session_event list \<Rightarrow> nat" where
  "mounts evs = length (filter (\<lambda>e. e = Mount) evs)"

lemma nth_id_inj:
  assumes "nth_id j = nth_id k" and "nth_id j \<noteq> - 1"
  shows "j = k"
proof -
  have "j < 2 ^ 24" "k < 2 ^ 24" "(of_nat j :: 64 word) = of_nat k"
    using assms by (auto simp: nth_id_def CLIENT_BITS_def split: if_splits)
  then have "unat (of_nat j :: 64 word) = unat (of_nat k :: 64 word)" by simp
  with \<open>j < 2 ^ 24\<close> \<open>k < 2 ^ 24\<close> show ?thesis by (simp add: unat_of_nat)
qed

text \<open>The counter in memory is the one in the pool; without one the next id is 1.\<close>

definition session_inv :: "('s \<Rightarrow> string \<rightharpoonup> bytes) \<Rightarrow> nat \<Rightarrow> session_impl \<times> 's \<Rightarrow> bool" where
  "session_inv objs k st \<longleftrightarrow> (case st of (ss, s) \<Rightarrow>
     next_id ss = of_nat (min k (2 ^ 24)) \<and>
     (if rados_present objs s CLIENT ''next_id''
      then rados_file objs s CLIENT ''next_id'' (enc64 (next_id ss))
      else rados_file objs s CLIENT ''next_id'' [] \<and> next_id ss = 1))"

context librados
begin

lemma session_mount_inv:
  assumes "session_inv objs k st"
  obtains st' where "session_mount X st = (Inr (nth_id k), st')" and "session_inv objs (Suc k) st'"
proof -
  obtain ss s where st: "st = (ss, s)" by (cases st)
  have id: "next_id ss = of_nat (min k (2 ^ 24))"
    using assms by (simp add: session_inv_def st)
  obtain c where c: "rados_file objs s CLIENT ''next_id'' c" and len: "c = [] \<or> length c = 8"
    using assms by (auto simp: session_inv_def st split: if_splits)
  have guard: "next_id ss < push_bit CLIENT_BITS 1 \<longleftrightarrow> k < 2 ^ 24"
    by (simp add: id word_less_nat_alt unat_of_nat CLIENT_BITS_def push_bit_eq_mult min_def)
  show thesis
  proof (cases "k < 2 ^ 24")
    case True
    let ?n = "next_id ss + 1"
    have ne: "enc64 ?n \<noteq> []" by (metis length_enc64 list.size(3) zero_neq_numeral)
    obtain s' where w: "rados_write X CLIENT ''next_id'' (enc64 ?n) 0 s = (Inr (length (enc64 ?n)), s')"
      "rados_file objs s' CLIENT ''next_id'' (overlay c 0 (enc64 ?n))" "rados_present objs s' CLIENT ''next_id''"
      using files.fwrite_file [OF c ne, of 0] by blast
    have "overlay c 0 (enc64 ?n) = enc64 ?n" using len by (auto simp: overlay_def)
    with w(2,3) True have "session_inv objs (Suc k) (ss\<lparr>next_id := ?n\<rparr>, s')"
      by (simp add: session_inv_def id min_def algebra_simps)
    moreover have "session_mount X st = (Inr (nth_id k), ss\<lparr>next_id := ?n\<rparr>, s')"
      using True guard w(1) by (simp add: session_mount_def st Let_def nth_id_def CLIENT_BITS_def id)
    ultimately show thesis by (intro that)
  next
    case False
    then have "session_mount X st = (Inr (nth_id k), st)"
      using guard by (simp add: session_mount_def st nth_id_def CLIENT_BITS_def)
    moreover from False have "min (Suc k) (2 ^ 24) = min k (2 ^ 24)" by simp
    with assms have "session_inv objs (Suc k) st"
      by (simp add: session_inv_def)
    ultimately show thesis by (rule that)
  qed
qed

lemma session_restart_inv:
  assumes "session_inv objs k (ss, s)"
  obtains s' where "session_new X s = Some (Inr ss, s')" and "session_inv objs k (ss, s')"
proof -
  obtain c where c: "rados_file objs s CLIENT ''next_id'' c"
    using assms by (auto simp: session_inv_def split: if_splits)
  obtain s1 where s1: "rados_stat X CLIENT ''next_id'' s =
      Some (Inr (rados_present objs s CLIENT ''next_id'', length c), s1)"
    and same1: "\<And>d. rados_file objs s1 CLIENT ''next_id'' d = rados_file objs s CLIENT ''next_id'' d"
      "rados_present objs s1 CLIENT ''next_id'' = rados_present objs s CLIENT ''next_id''"
    using files.fstat_file [OF c] by blast
  show thesis
  proof (cases "rados_present objs s CLIENT ''next_id''")
    case False
    then have "ss = \<lparr>next_id = 1\<rparr>" using assms by (cases ss) (simp add: session_inv_def)
    with False s1 have "session_new X s = Some (Inr ss, s1)"
      by (simp add: session_new_def bnd_def)
    moreover have "session_inv objs k (ss, s1)" using assms unfolding session_inv_def prod.case same1 .
    ultimately show thesis by (rule that)
  next
    case True
    then have f: "rados_file objs s CLIENT ''next_id'' (enc64 (next_id ss))"
      using assms by (auto simp: session_inv_def)
    have "length c = 8"
    proof -
      obtain s2 where "rados_stat X CLIENT ''next_id'' s = Some (Inr (True, length (enc64 (next_id ss))), s2)"
        using files.fstat_file [OF f] True by auto
      with s1 show ?thesis by simp
    qed
    obtain r s2 where r: "rados_read X CLIENT ''next_id'' 8 0 s1 = (r, take 8 (drop 0 (enc64 (next_id ss))), s2)"
      and same2: "\<And>d. rados_file objs s2 CLIENT ''next_id'' d = rados_file objs s1 CLIENT ''next_id'' d"
        "rados_present objs s2 CLIENT ''next_id'' = rados_present objs s1 CLIENT ''next_id''"
      using files.fread_file [of s1 CLIENT "''next_id''" "enc64 (next_id ss)" 8 0] f same1(1) by blast
    have "fst (rados_read X CLIENT ''next_id'' 8 0 s1) = Inr (length (take 8 (enc64 (next_id ss))))"
      by (rule files.fread_first) (use f True same1 in \<open>simp_all add: OBJ_SIZE_def OBJ_BITS_def\<close>)
    with r have "rados_read X CLIENT ''next_id'' 8 0 s1 = (Inr 8, enc64 (next_id ss), s2)" by simp
    with s1 True \<open>length c = 8\<close> have "session_new X s = Some (Inr ss, s2)"
      by (cases ss) (simp add: session_new_def bnd_def)
    moreover have "session_inv objs k (ss, s2)" using assms unfolding session_inv_def prod.case same2 same1 .
    ultimately show thesis by (rule that)
  qed
qed

lemma session_run_ids:
  assumes "session_inv objs k st"
  shows "\<exists>st'. session_run X evs st = Some (Inr (map nth_id [k..<k + mounts evs]), st')"
  using assms
proof (induction evs arbitrary: k st)
  case (Cons ev evs)
  show ?case
  proof (cases ev)
    case Mount
    obtain st1 where st1: "session_mount X st = (Inr (nth_id k), st1)" "session_inv objs (Suc k) st1"
      using session_mount_inv [OF Cons.prems] .
    from Cons.IH [OF st1(2)] obtain st2
      where "session_run X evs st1 = Some (Inr (map nth_id [Suc k..<Suc k + mounts evs]), st2)" by blast
    with st1(1) Mount have "session_run X (ev # evs) st = Some (Inr (nth_id k # map nth_id [Suc k..<Suc k + mounts evs]), st2)"
      by (simp add: bnd_def lift_def ret_def)
    moreover have "nth_id k # map nth_id [Suc k..<Suc k + mounts evs] = map nth_id [k..<k + mounts (ev # evs)]"
      by (simp add: Mount mounts_def upt_conv_Cons [of k] del: upt_Suc)
    ultimately show ?thesis by metis
  next
    case Restart
    obtain ss s where st: "st = (ss, s)" by (cases st)
    obtain s1 where s1: "session_new X s = Some (Inr ss, s1)" "session_inv objs k (ss, s1)"
      using session_restart_inv Cons.prems st by metis
    with Cons.IH [OF s1(2)] Restart st show ?thesis by (simp add: mounts_def)
  qed
qed (simp add: ret_def mounts_def)

end

section \<open>Properties\<close>



end
