(* ===== verification/Path.thy ===== *)
theory Path
  imports Nmfs_Prelude
begin

text \<open>
  Path splitting (\<open>util/path.cpp\<close>). Both functions scan from the end of the path for a
  delimiter; an empty path, or one without a delimiter, is rejected.
\<close>

abbreviation path_delimiter :: char where "path_delimiter \<equiv> CHR ''/''"

text \<open>\<open>for (size_t i = path.length() - 1; i > 0; i--)\<close>: the last delimiter at a positive index\<close>

fun parent_scan :: "string \<Rightarrow> nat \<Rightarrow> nat option" where
  "parent_scan path 0 = None"
| "parent_scan path (Suc i) = (if path ! Suc i = path_delimiter then Some (Suc i) else parent_scan path i)"

definition get_parent_dir_path :: "string \<Rightarrow> exn + string" where
  "get_parent_dir_path path =
     (if path = [] then Inl (Runtime_error ''Invalid path: path is empty string'')
      else case parent_scan path (length path - 1) of
        Some i \<Rightarrow> Inr (take i path)
      | None \<Rightarrow>
          if path ! 0 = path_delimiter then Inr (take 1 path)
          else Inl (Runtime_error ''Invalid path: No delimiter on path''))"

text \<open>
  \<open>for (size_t i = path.length() - 1; i >= 0; i--)\<close>: the index is unsigned, so the condition
  never fails; past index 0 the loop reads outside the string.
\<close>

fun filename_scan :: "string \<Rightarrow> nat \<Rightarrow> exn + nat" where
  "filename_scan path i =
     (if path ! i = path_delimiter then Inr i
      else case i of 0 \<Rightarrow> Inl (Crash ''index wraps around'') | Suc j \<Rightarrow> filename_scan path j)"

declare filename_scan.simps [simp del]

definition get_filename_from_path :: "string \<Rightarrow> exn + string" where
  "get_filename_from_path path =
     (if path = [] then Inl (Runtime_error ''Invalid path: path is empty string'')
      else if length path = 1 \<and> path ! 0 = path_delimiter then Inr (take 1 path)
      else case filename_scan path (length path - 1) of
        Inl e \<Rightarrow> Inl e
      | Inr i \<Rightarrow> Inr (drop (i + 1) path))"

section \<open>Joining and splitting\<close>

lemma filename_scan_last:
  assumes "path ! k = path_delimiter" and "k \<le> i" and "\<And>j. k < j \<Longrightarrow> j \<le> i \<Longrightarrow> path ! j \<noteq> path_delimiter"
  shows "filename_scan path i = Inr k"
  using assms(2,3)
proof (induction i)
  case 0
  with assms(1) show ?case by (simp add: filename_scan.simps)
next
  case (Suc i)
  then show ?case
    using assms(1) by (cases "k = Suc i") (auto simp: filename_scan.simps [of path "Suc i"])
qed

lemma filename_scan_none:
  "(\<And>j. j \<le> i \<Longrightarrow> path ! j \<noteq> path_delimiter) \<Longrightarrow> filename_scan path i = Inl (Crash ''index wraps around'')"
proof (induction i)
  case (Suc i)
  then show ?case by (simp add: filename_scan.simps [of path "Suc i"])
qed (simp add: filename_scan.simps)

lemma parent_scan_last:
  assumes "path ! k = path_delimiter" and "0 < k" and "k \<le> i"
    and "\<And>j. k < j \<Longrightarrow> j \<le> i \<Longrightarrow> path ! j \<noteq> path_delimiter"
  shows "parent_scan path i = Some k"
  using assms(3,4)
proof (induction i)
  case 0
  with assms(2) show ?case by simp
next
  case (Suc i)
  then show ?case using assms(1,2) by (cases "k = Suc i") auto
qed

lemma parent_scan_none:
  "(\<And>j. 0 < j \<Longrightarrow> j \<le> i \<Longrightarrow> path ! j \<noteq> path_delimiter) \<Longrightarrow> parent_scan path i = None"
  by (induction i) auto

text \<open>The position of the delimiter in \<open>dir @ ''/'' @ name\<close>.\<close>

lemma joined_nth_delim: "(dir @ path_delimiter # name) ! length dir = path_delimiter"
  by simp

lemma joined_nth_name:
  assumes "path_delimiter \<notin> set name" and "length dir < j" and "j \<le> length dir + length name"
  shows "(dir @ path_delimiter # name) ! j \<noteq> path_delimiter"
proof -
  from assms(2,3) have "(dir @ path_delimiter # name) ! j = name ! (j - length dir - 1)"
    and "j - length dir - 1 < length name"
    by (auto simp: nth_append nth_Cons')
  with assms(1) show ?thesis by (metis nth_mem)
qed

lemma get_filename_joined:
  assumes "path_delimiter \<notin> set name" and "dir \<noteq> [] \<or> name \<noteq> []"
  shows "get_filename_from_path (dir @ path_delimiter # name) = Inr name"
proof -
  have "filename_scan (dir @ path_delimiter # name) (length dir + length name) = Inr (length dir)"
    using assms(1) by (intro filename_scan_last joined_nth_name) auto
  with assms(2) show ?thesis
    by (auto simp: get_filename_from_path_def)
qed

lemma get_parent_joined:
  assumes "path_delimiter \<notin> set name"
  shows "get_parent_dir_path (dir @ path_delimiter # name) =
    Inr (if dir = [] then [path_delimiter] else dir)"
proof (cases "dir = []")
  case True
  have "parent_scan (path_delimiter # name) (length name) = None"
    using joined_nth_name [OF assms, of "[]"] by (intro parent_scan_none) simp
  with True show ?thesis by (simp add: get_parent_dir_path_def)
next
  case False
  have "parent_scan (dir @ path_delimiter # name) (length dir + length name) = Some (length dir)"
    using False by (intro parent_scan_last joined_nth_name assms) auto
  with False show ?thesis by (simp add: get_parent_dir_path_def)
qed

lemma get_filename_no_delim:
  assumes "path \<noteq> []" and "path_delimiter \<notin> set path"
  shows "get_filename_from_path path = Inl (Crash ''index wraps around'')"
proof -
  have "path ! j \<noteq> path_delimiter" if "j \<le> length path - 1" for j
    using assms that by (metis One_nat_def Suc_pred le_imp_less_Suc length_greater_0_conv nth_mem)
  then show ?thesis
    using assms(1) by (auto simp: get_filename_from_path_def filename_scan_none)
qed

lemma get_parent_no_delim:
  assumes "path \<noteq> []" and "path_delimiter \<notin> set path"
  shows "get_parent_dir_path path = Inl (Runtime_error ''Invalid path: No delimiter on path'')"
proof -
  have nd: "path ! j \<noteq> path_delimiter" if "j \<le> length path - 1" for j
    using assms that by (metis One_nat_def Suc_pred le_imp_less_Suc length_greater_0_conv nth_mem)
  then have "parent_scan path (length path - 1) = None"
    by (intro parent_scan_none) auto
  with assms(1) nd [of 0] show ?thesis by (simp add: get_parent_dir_path_def)
qed

section \<open>Properties\<close>

text \<open>Splitting a path undoes joining it: for a name without a delimiter, the file name and the
  parent of \<open>dir/name\<close> are \<open>name\<close> and \<open>dir\<close> (the root's path for an empty \<open>dir\<close>).\<close>

theorem path_split_join:
  assumes "path_delimiter \<notin> set name" and "dir \<noteq> [] \<or> name \<noteq> []"
  shows "get_filename_from_path (dir @ path_delimiter # name) = Inr name
    \<and> get_parent_dir_path (dir @ path_delimiter # name) = Inr (if dir = [] then [path_delimiter] else dir)"
  using get_filename_joined [OF assms] get_parent_joined [OF assms(1)] by simp

theorem path_split_join_witness:
  "get_filename_from_path (''/a'' @ path_delimiter # ''b'') = Inr ''b''
    \<and> get_parent_dir_path (''/a'' @ path_delimiter # ''b'') = Inr ''/a''"
  using path_split_join [of "''b''" "''/a''"] by simp

end
