(* ===== verification/Rpc_Messages.thy ===== *)
theory Rpc_Messages
  imports Inode
begin

text \<open>
  The messages of the service \<open>remote_ops\<close> (\<open>client/proto/rpc.proto\<close>) that clients send to the
  leader of a directory, one record each. Messages that begin with the same fields extend a common
  record. The prefix of a field says whether it belongs to a request (\<open>q\<close>) or an answer (\<open>a\<close>); the
  rest is its name in the protocol. The result code \<open>ret\<close> of an answer is a C++ \<open>int\<close>.
\<close>

section \<open>Requests\<close>

record dir_request =
  q_dentry_table_ino_prefix :: "64 word"
  q_dentry_table_ino_postfix :: "64 word"

record file_request = dir_request +
  q_filename :: string

record target_request = file_request +
  q_target_is_parent :: bool

type_synonym rpc_dentry_table_request = file_request
type_synonym rpc_getattr_request = target_request
type_synonym rpc_readdir_request = dir_request
type_synonym rpc_unlink_request = file_request

record rpc_inode_request = target_request +
  q_mask :: "32 word"

record rpc_access_request = target_request +
  q_access_mask :: "32 word"

record rpc_mkdir_request = dir_request +
  q_new_dir_name :: string
  q_new_dir_mode :: "32 word"
  q_new_dir_uid :: "32 word"
  q_new_dir_gid :: "32 word"

record rpc_rmdir_request = dir_request +
  q_target_name :: string
  q_target_ino_prefix :: "64 word"
  q_target_ino_postfix :: "64 word"

record rpc_symlink_request = file_request +
  q_src :: string
  q_dst :: string

record rpc_readlink_request = file_request +
  q_readlink_size :: "64 word"

record rpc_rename_same_parent_request = dir_request +
  q_old_path :: string
  q_new_path :: string
  q_rename_flags :: "32 word"

record rpc_rename_not_same_parent_src_request = dir_request +
  q_src_old_path :: string
  q_src_flags :: "32 word"

record rpc_rename_not_same_parent_dst_request = rename_target +
  q_dst_ino_prefix :: "64 word"
  q_dst_ino_postfix :: "64 word"
  q_check_dst_ino_prefix :: "64 word"
  q_check_dst_ino_postfix :: "64 word"
  q_dst_new_path :: string
  q_dst_flags :: "32 word"

record rpc_open_opendir_request = target_request +
  q_flags :: "32 word"

record rpc_create_request = dir_request +
  q_new_file_name :: string
  q_new_mode :: "32 word"

record rpc_write_request = file_request +
  q_size :: "64 word"
  q_offset :: "64 word"
  q_write_flags :: "32 word"

record rpc_chmod_request = target_request +
  q_mode :: "32 word"

record rpc_chown_request = target_request +
  q_uid :: "32 word"
  q_gid :: "32 word"

record rpc_utimens_request = target_request +
  q_a_sec :: "64 word"
  q_a_nsec :: "64 word"
  q_m_sec :: "64 word"
  q_m_nsec :: "64 word"

record rpc_truncate_request = target_request +
  q_truncate_offset :: "64 word"

section \<open>Answers\<close>

record rpc_dentry_table_respond =
  a_checked_ino_prefix :: "64 word"
  a_checked_ino_postfix :: "64 word"
  a_checked_ret :: int

record rpc_inode_respond =
  a_i_mode :: "32 word"
  a_inode_ret :: int

record rpc_common_respond =
  a_ret :: int

record rpc_getattr_respond =
  a_mode :: "32 word"
  a_uid :: "32 word"
  a_gid :: "32 word"
  a_ino_prefix :: "64 word"
  a_ino_postfix :: "64 word"
  a_nlink :: "64 word"
  a_i_size :: "64 word"
  a_a_sec :: "64 word"
  a_a_nsec :: "64 word"
  a_m_sec :: "64 word"
  a_m_nsec :: "64 word"
  a_c_sec :: "64 word"
  a_c_nsec :: "64 word"
  a_getattr_ret :: int

record rpc_name_respond =
  a_filename :: string
  a_name_ret :: int

record rpc_create_respond =
  a_new_ino_prefix :: "64 word"
  a_new_ino_postfix :: "64 word"
  a_create_ret :: int

record rpc_mkdir_respond =
  a_new_dir_ino_prefix :: "64 word"
  a_new_dir_ino_postfix :: "64 word"
  a_mkdir_ret :: int

record rpc_rename_not_same_parent_src_respond = rename_target +
  a_rename_ret :: int

record rpc_write_respond =
  a_size :: "64 word"
  a_offset :: "64 word"
  a_write_ret :: int

text \<open>A message whose fields are not set has zeros and empty strings in them.\<close>

definition no_target :: rename_target where
  "no_target =
     \<lparr>target_i_mode = 0, target_i_uid = 0, target_i_gid = 0, target_i_ino_prefix = 0, target_i_ino_postfix = 0,
      target_i_nlink = 0, target_i_size = 0, target_a_sec = 0, target_a_nsec = 0, target_m_sec = 0, target_m_nsec = 0,
      target_c_sec = 0, target_c_nsec = 0, target_i_link_target_len = 0, target_i_link_target_name = []\<rparr>"

definition no_attributes :: rpc_getattr_respond where
  "no_attributes =
     \<lparr>a_mode = 0, a_uid = 0, a_gid = 0, a_ino_prefix = 0, a_ino_postfix = 0, a_nlink = 0, a_i_size = 0, a_a_sec = 0, a_a_nsec = 0,
      a_m_sec = 0, a_m_nsec = 0, a_c_sec = 0, a_c_nsec = 0, a_getattr_ret = 0\<rparr>"

section \<open>The stub\<close>

text \<open>
  A client's stub of the service: a call answers \<open>None\<close> when its status is not \<open>OK\<close>; the first
  argument is the address of the channel. \<open>rpc_readdir\<close> streams its answers: the messages that
  arrive, and whether the final status is \<open>OK\<close>.
\<close>

type_synonym ('q, 'a, 's) remote_call = "string \<Rightarrow> 'q \<Rightarrow> 's \<Rightarrow> 'a option \<times> 's"

record 's remote_ops =
  stub_check_child_inode :: "(rpc_dentry_table_request, rpc_dentry_table_respond, 's) remote_call"
  stub_get_mode :: "(rpc_inode_request, rpc_inode_respond, 's) remote_call"
  stub_permission_check :: "(rpc_inode_request, rpc_inode_respond, 's) remote_call"
  stub_getattr :: "(rpc_getattr_request, rpc_getattr_respond, 's) remote_call"
  stub_access :: "(rpc_access_request, rpc_common_respond, 's) remote_call"
  stub_opendir :: "(rpc_open_opendir_request, rpc_common_respond, 's) remote_call"
  stub_readdir :: "string \<Rightarrow> rpc_readdir_request \<Rightarrow> 's \<Rightarrow> (rpc_name_respond list \<times> bool) \<times> 's"
  stub_mkdir :: "(rpc_mkdir_request, rpc_mkdir_respond, 's) remote_call"
  stub_rmdir_top :: "(rpc_rmdir_request, rpc_common_respond, 's) remote_call"
  stub_rmdir_down :: "(rpc_rmdir_request, rpc_common_respond, 's) remote_call"
  stub_symlink :: "(rpc_symlink_request, rpc_common_respond, 's) remote_call"
  stub_readlink :: "(rpc_readlink_request, rpc_name_respond, 's) remote_call"
  stub_rename_same_parent :: "(rpc_rename_same_parent_request, rpc_common_respond, 's) remote_call"
  stub_rename_src :: "(rpc_rename_not_same_parent_src_request, rpc_rename_not_same_parent_src_respond, 's) remote_call"
  stub_rename_dst :: "(rpc_rename_not_same_parent_dst_request, rpc_common_respond, 's) remote_call"
  stub_open :: "(rpc_open_opendir_request, rpc_common_respond, 's) remote_call"
  stub_create :: "(rpc_create_request, rpc_create_respond, 's) remote_call"
  stub_unlink :: "(rpc_unlink_request, rpc_common_respond, 's) remote_call"
  stub_write :: "(rpc_write_request, rpc_write_respond, 's) remote_call"
  stub_chmod :: "(rpc_chmod_request, rpc_common_respond, 's) remote_call"
  stub_chown :: "(rpc_chown_request, rpc_common_respond, 's) remote_call"
  stub_utimens :: "(rpc_utimens_request, rpc_common_respond, 's) remote_call"
  stub_truncate :: "(rpc_truncate_request, rpc_common_respond, 's) remote_call"

text \<open>The stub when no other client can be reached\<close>

definition nobody_answers :: "'s remote_ops" where
  "nobody_answers =
     \<lparr>stub_check_child_inode = (\<lambda>_ _ s. (None, s)), stub_get_mode = (\<lambda>_ _ s. (None, s)),
      stub_permission_check = (\<lambda>_ _ s. (None, s)), stub_getattr = (\<lambda>_ _ s. (None, s)), stub_access = (\<lambda>_ _ s. (None, s)),
      stub_opendir = (\<lambda>_ _ s. (None, s)), stub_readdir = (\<lambda>_ _ s. (([], False), s)), stub_mkdir = (\<lambda>_ _ s. (None, s)),
      stub_rmdir_top = (\<lambda>_ _ s. (None, s)), stub_rmdir_down = (\<lambda>_ _ s. (None, s)), stub_symlink = (\<lambda>_ _ s. (None, s)),
      stub_readlink = (\<lambda>_ _ s. (None, s)), stub_rename_same_parent = (\<lambda>_ _ s. (None, s)), stub_rename_src = (\<lambda>_ _ s. (None, s)),
      stub_rename_dst = (\<lambda>_ _ s. (None, s)), stub_open = (\<lambda>_ _ s. (None, s)), stub_create = (\<lambda>_ _ s. (None, s)),
      stub_unlink = (\<lambda>_ _ s. (None, s)), stub_write = (\<lambda>_ _ s. (None, s)), stub_chmod = (\<lambda>_ _ s. (None, s)),
      stub_chown = (\<lambda>_ _ s. (None, s)), stub_utimens = (\<lambda>_ _ s. (None, s)), stub_truncate = (\<lambda>_ _ s. (None, s))\<rparr>"

end
