(* ===== verification/Client_State.thy ===== *)
theory Client_State
  imports Journal Lease_Client Session Path Rpc_Messages
begin

text \<open>
  The state of a client process and the world around it. The world is one abstract state \<open>'s\<close>
  with the two RADOS pools, the clocks, the UUID generator and the remote procedures of the
  manager and of other clients; the record \<open>env\<close> holds the functions that act on it. Objects that
  the program shares through \<open>shared_ptr\<close>s (inodes, dentry tables) live in heaps, so that a change
  through one pointer is seen through the others.
\<close>

section \<open>Result codes\<close>

definition ENOTLEADER :: int where "ENOTLEADER = 8000"
definition ENEEDRECOV :: int where "ENEEDRECOV = 8001"
definition EACCES :: int where "EACCES = 13"

section \<open>The world\<close>

text \<open>\<open>utc_time\<close> is \<open>timespec_get(&ts, TIME_UTC)\<close>, \<open>None\<close> when it returns 0. \<open>lease_rpc\<close> is the stub of the
  manager's service, \<open>peers\<close> that of the other clients.\<close>

record 's env =
  meta_io :: "'s ext"
  data_io :: "'s ext"
  sys_clock :: "'s \<Rightarrow> int \<times> 's"
  utc_time :: "'s \<Rightarrow> timespec option \<times> 's"
  new_uuid :: "'s \<Rightarrow> uuid \<times> 's"
  lease_rpc :: "lease_request \<Rightarrow> 's \<Rightarrow> lease_response option \<times> 's"
  peers :: "'s remote_ops"

section \<open>Objects\<close>

text \<open>An inode object is a plain \<open>inode\<close> or a \<open>remote_inode\<close> with its own fields.\<close>

record remote_fields =
  r_leader_ip :: string
  r_dentry_table_ino :: uuid
  r_target_is_parent :: bool
  r_file_name :: string

record iobj =
  base :: inode
  remote :: "remote_fields option"

record dentry_table =
  dir_ino :: uuid
  this_dir_inode :: "nat option"
  dt_dentries :: "dentry option"
  child_inodes :: "(string, nat) robin_map"
  dt_loc :: meta_location
  leader_ip :: string

record file_handler =
  fh_ino :: uuid
  fh_loc :: meta_location
  fh_no :: nat
  fh_i :: "nat option"
  fh_remote_i :: "nat option"

record 's client_state =
  iobjs :: "nat \<Rightarrow> iobj"
  next_iobj :: nat
  dtabs :: "nat \<Rightarrow> dentry_table"
  next_dtab :: nat
  dentry_tables :: "(uuid, nat) robin_map"
  leases :: lease_table_client
  self_remote :: string
  fh_list :: "(nat, file_handler) robin_map"
  next_fh :: nat
  jrnl :: journal
  this_client :: client
  sys :: 's

type_synonym ('a, 's) cprog = "('a, 's client_state) prog"

section \<open>Programs on parts of the state\<close>

definition on_sys :: "('a, 's) prog \<Rightarrow> ('a, 's) cprog" where
  "on_sys m = zoom sys (\<lambda>s' st. st\<lparr>sys := s'\<rparr>) m"

definition on_journal :: "('a, journal) prog \<Rightarrow> ('a, 's) cprog" where
  "on_journal m = zoom jrnl (\<lambda>j' st. st\<lparr>jrnl := j'\<rparr>) m"

text \<open>A call that cannot fail\<close>

definition sys_call :: "('s \<Rightarrow> 'a \<times> 's) \<Rightarrow> ('a, 's) cprog" where
  "sys_call f st = (case f (sys st) of (x, s') \<Rightarrow> Some (Inr x, st\<lparr>sys := s'\<rparr>))"

definition new_iobj :: "iobj \<Rightarrow> (nat, 's) cprog" where
  "new_iobj i st =
     Some (Inr (next_iobj st), st\<lparr>iobjs := (iobjs st)(next_iobj st := i), next_iobj := Suc (next_iobj st)\<rparr>)"

definition new_dtab :: "dentry_table \<Rightarrow> (nat, 's) cprog" where
  "new_dtab d st =
     Some (Inr (next_dtab st), st\<lparr>dtabs := (dtabs st)(next_dtab st := d), next_dtab := Suc (next_dtab st)\<rparr>)"

definition upd_inode :: "nat \<Rightarrow> (inode \<Rightarrow> inode) \<Rightarrow> (unit, 's) cprog" where
  "upd_inode a f = modify (\<lambda>st. st\<lparr>iobjs := (iobjs st)(a := (iobjs st a)\<lparr>base := f (base (iobjs st a))\<rparr>)\<rparr>)"

definition upd_dtab :: "nat \<Rightarrow> (dentry_table \<Rightarrow> dentry_table) \<Rightarrow> (unit, 's) cprog" where
  "upd_dtab d f = modify (\<lambda>st. st\<lparr>dtabs := (dtabs st)(d := f (dtabs st d))\<rparr>)"

abbreviation the_inode :: "'s client_state \<Rightarrow> nat \<Rightarrow> inode" where
  "the_inode st a \<equiv> base (iobjs st a)"

abbreviation ino_of :: "'s client_state \<Rightarrow> nat \<Rightarrow> uuid" where
  "ino_of st a \<equiv> i_ino (core (the_inode st a))"

definition set_mtime :: "timespec \<Rightarrow> inode \<Rightarrow> inode" where
  "set_mtime t i = i\<lparr>core := (core i)\<lparr>i_mtime := t\<rparr>\<rparr>"

definition set_ctime :: "timespec \<Rightarrow> inode \<Rightarrow> inode" where
  "set_ctime t i = i\<lparr>core := (core i)\<lparr>i_ctime := t\<rparr>\<rparr>"

definition set_atime :: "timespec \<Rightarrow> inode \<Rightarrow> inode" where
  "set_atime t i = i\<lparr>core := (core i)\<lparr>i_atime := t\<rparr>\<rparr>"

definition set_size :: "64 word \<Rightarrow> inode \<Rightarrow> inode" where
  "set_size n i = i\<lparr>core := (core i)\<lparr>i_size := n\<rparr>\<rparr>"

definition set_mode :: "32 word \<Rightarrow> inode \<Rightarrow> inode" where
  "set_mode m i = i\<lparr>core := (core i)\<lparr>i_mode := m\<rparr>\<rparr>"

definition set_uid :: "32 word \<Rightarrow> inode \<Rightarrow> inode" where
  "set_uid u i = i\<lparr>core := (core i)\<lparr>i_uid := u\<rparr>\<rparr>"

definition set_gid :: "32 word \<Rightarrow> inode \<Rightarrow> inode" where
  "set_gid g i = i\<lparr>core := (core i)\<lparr>i_gid := g\<rparr>\<rparr>"

definition set_nlink :: "64 word \<Rightarrow> inode \<Rightarrow> inode" where
  "set_nlink n i = i\<lparr>core := (core i)\<lparr>i_nlink := n\<rparr>\<rparr>"

definition set_ino :: "uuid \<Rightarrow> inode \<Rightarrow> inode" where
  "set_ino u i = i\<lparr>core := (core i)\<lparr>i_ino := u\<rparr>\<rparr>"

definition set_loc :: "meta_location \<Rightarrow> inode \<Rightarrow> inode" where
  "set_loc l i = i\<lparr>loc := l\<rparr>"

definition set_p_ino :: "uuid \<Rightarrow> inode \<Rightarrow> inode" where
  "set_p_ino u i = i\<lparr>p_ino := u\<rparr>"

section \<open>Calls to the leader of a directory\<close>

definition make_dir_request :: "uuid \<Rightarrow> dir_request" where
  "make_dir_request ino =
     \<lparr>q_dentry_table_ino_prefix = get_prefix_from_uuid ino, q_dentry_table_ino_postfix = get_postfix_from_uuid ino\<rparr>"

definition make_file_request :: "uuid \<Rightarrow> string \<Rightarrow> file_request" where
  "make_file_request ino name = dir_request.extend (make_dir_request ino) \<lparr>q_filename = name\<rparr>"

definition make_target_request :: "uuid \<Rightarrow> string \<Rightarrow> bool \<Rightarrow> target_request" where
  "make_target_request ino name is_parent =
     file_request.extend (make_file_request ino name) \<lparr>q_target_is_parent = is_parent\<rparr>"

definition rpc_check_child_inode :: "'s env \<Rightarrow> string \<Rightarrow> uuid \<Rightarrow> string \<Rightarrow> (uuid, 's) cprog" where
  "rpc_check_child_inode E address dentry_table_ino filename =
     bnd (sys_call (stub_check_child_inode (peers E) address (make_file_request dentry_table_ino filename))) (\<lambda>answer.
       case answer of
         Some out \<Rightarrow>
           if a_checked_ret out = - ENOTLEADER then throw (Runtime_error ''ACCESS IMPROPER LEADER'')
           else ret (splice_prefix_and_postfix (a_checked_ino_prefix out) (a_checked_ino_postfix out))
       | None \<Rightarrow> throw (Runtime_error ''rpc_client::check_child_inode() failed''))"

definition inode_request :: "uuid \<Rightarrow> string \<Rightarrow> 32 word \<Rightarrow> bool \<Rightarrow> rpc_inode_request" where
  "inode_request dentry_table_ino filename msk target_is_parent =
     target_request.extend (make_target_request dentry_table_ino filename target_is_parent) \<lparr>q_mask = msk\<rparr>"

definition rpc_get_mode :: "'s env \<Rightarrow> string \<Rightarrow> uuid \<Rightarrow> string \<Rightarrow> (32 word, 's) cprog" where
  "rpc_get_mode E address dentry_table_ino filename =
     bnd (sys_call (stub_get_mode (peers E) address (inode_request dentry_table_ino filename 0 False))) (\<lambda>answer.
       case answer of
         Some out \<Rightarrow>
           if a_inode_ret out = - ENOTLEADER then throw (Runtime_error ''ACCESS IMPROPER LEADER'')
           else ret (a_i_mode out)
       | None \<Rightarrow> throw (Runtime_error ''rpc_client::get_mode() failed''))"

definition rpc_permission_check :: "'s env \<Rightarrow> string \<Rightarrow> uuid \<Rightarrow> string \<Rightarrow> 32 word \<Rightarrow> bool \<Rightarrow> (unit, 's) cprog" where
  "rpc_permission_check E address dentry_table_ino filename msk target_is_parent =
     bnd (sys_call (stub_permission_check (peers E) address (inode_request dentry_table_ino filename msk target_is_parent))) (\<lambda>answer.
       case answer of
         Some out \<Rightarrow>
           if a_inode_ret out = - ENOTLEADER then throw (Runtime_error ''ACCESS IMPROPER LEADER'')
           else if a_inode_ret out = - EACCES then throw Permission_denied
           else ret ()
       | None \<Rightarrow> throw (Runtime_error ''rpc_client::permission_check() failed''))"

section \<open>Virtual functions of inodes\<close>

definition remote_inode_new :: "string \<Rightarrow> uuid \<Rightarrow> string \<Rightarrow> bool \<Rightarrow> iobj" where
  "remote_inode_new ip dentry_table_ino file_name target_is_parent =
     \<lparr>base = inode_blank REMOTE,
      remote = Some \<lparr>r_leader_ip = ip, r_dentry_table_ino = dentry_table_ino,
                     r_target_is_parent = target_is_parent, r_file_name = file_name\<rparr>\<rparr>"

text \<open>\<open>get_mode\<close>: a remote inode asks the leader and keeps the answer.\<close>

definition get_mode :: "'s env \<Rightarrow> nat \<Rightarrow> (32 word, 's) cprog" where
  "get_mode E a st =
     (case remote (iobjs st a) of
        None \<Rightarrow> Some (Inr (i_mode (core (the_inode st a))), st)
      | Some r \<Rightarrow>
          bnd (rpc_get_mode E (r_leader_ip r) (r_dentry_table_ino r) (r_file_name r)) (\<lambda>m.
          bnd (upd_inode a (set_mode m)) (\<lambda>_. ret m)) st)"

definition inode_permission_check :: "'s env \<Rightarrow> nat \<Rightarrow> 32 word \<Rightarrow> (unit, 's) cprog" where
  "inode_permission_check E a msk st =
     (case remote (iobjs st a) of
        None \<Rightarrow> Some (permission_check (client_uid (this_client st)) (client_gid (this_client st)) (the_inode st a) msk, st)
      | Some r \<Rightarrow>
          rpc_permission_check E (r_leader_ip r) (r_dentry_table_ino r) (r_file_name r) msk (r_target_is_parent r) st)"

section \<open>The leases of this client\<close>

definition lc_is_valid :: "'s env \<Rightarrow> uuid \<Rightarrow> (bool, 's) cprog" where
  "lc_is_valid E ino =
     bnd (sys_call (sys_clock E)) (\<lambda>now. gets (\<lambda>st. is_valid now (leases st) ino))"

definition lc_is_mine :: "'s env \<Rightarrow> uuid \<Rightarrow> (bool, 's) cprog" where
  "lc_is_mine E ino =
     bnd (sys_call (sys_clock E)) (\<lambda>now. gets (\<lambda>st. is_mine now (leases st) ino))"

definition lc_acquire :: "'s env \<Rightarrow> uuid \<Rightarrow> string \<Rightarrow> (int \<times> string, 's) cprog" where
  "lc_acquire E ino remote_addr =
     bnd (sys_call (sys_clock E)) (\<lambda>now st.
       case lease_client_acquire (lease_rpc E) now (self_remote st) ino remote_addr (leases st, sys st) of
         (r, t, s') \<Rightarrow> Some (r, st\<lparr>leases := t, sys := s'\<rparr>))"

end
