(* ===== verification/File_Handler.thy ===== *)
theory File_Handler
  imports Client_State
begin

text \<open>
  Open files (\<open>client/meta/file_handler.cpp\<close>). The key of a handle is the address of the
  \<open>file_handler\<close> object, which is the value of \<open>fuse_file_info::fh\<close>; addresses of objects that
  are alive are distinct, so the model draws them from a counter.
\<close>

definition EIO :: int where "EIO = 5"

definition file_handler_new :: "uuid \<Rightarrow> file_handler" where
  "file_handler_new ino = \<lparr>fh_ino = ino, fh_loc = NOBODY, fh_no = 0, fh_i = None, fh_remote_i = None\<rparr>"

definition get_open_inode_info :: "file_handler \<Rightarrow> exn + nat option" where
  "get_open_inode_info fh =
     (case fh_loc fh of
        LOCAL \<Rightarrow> Inr (fh_i fh)
      | REMOTE \<Rightarrow> Inr (fh_remote_i fh)
      | _ \<Rightarrow> Inl (Runtime_error ''file_handler is corrupted : cannot know loc of opened file''))"

definition add_file_handler :: "nat \<Rightarrow> file_handler \<Rightarrow> (unit, 's) cprog" where
  "add_file_handler key fh st =
     (case rm_insert key fh (fh_list st) of
        (m, inserted) \<Rightarrow>
          if inserted then Some (Inr (), st\<lparr>fh_list := m\<rparr>)
          else Some (Inl (Runtime_error ''file_handler is corrupted : cannot add file_handler to list''), st))"

definition get_file_handler :: "nat \<Rightarrow> (file_handler, 's) cprog" where
  "get_file_handler key st =
     (case rm_find (fh_list st) key of
        None \<Rightarrow> Some (Inl (Runtime_error ''file_handler is corrupted : cannot get file_handler from list''), st)
      | Some fh \<Rightarrow> Some (Inr fh, st))"

definition delete_file_handler :: "nat \<Rightarrow> (int, 's) cprog" where
  "delete_file_handler key st =
     (case rm_find (fh_list st) key of
        None \<Rightarrow> Some (Inr (- EIO), st)
      | Some _ \<Rightarrow> Some (Inr 0, st\<lparr>fh_list := rm_erase key (fh_list st)\<rparr>))"

text \<open>The fragment that \<open>opendir\<close>, \<open>open\<close> and \<open>create\<close> share: a new handle for a local inode,
  registered under its address, which is the result.\<close>

definition open_handle :: "nat \<Rightarrow> (nat, 's) cprog" where
  "open_handle a st =
     (let key = next_fh st;
          fh = (file_handler_new (ino_of st a))\<lparr>fh_loc := LOCAL, fh_i := Some a, fh_no := key\<rparr>
      in bnd (add_file_handler key fh) (\<lambda>_. ret key) (st\<lparr>next_fh := Suc key\<rparr>))"

section \<open>Handles are found until they are released\<close>

definition fh_fresh :: "'s client_state \<Rightarrow> bool" where
  "fh_fresh st \<longleftrightarrow> (\<forall>k \<in> fst ` set (fh_list st). k < next_fh st)"

lemma open_handle_ok:
  assumes "fh_fresh st"
  obtains fh st' where "open_handle a st = Some (Inr (next_fh st), st')" and "rm_find (fh_list st') (next_fh st) = Some fh"
    and "get_open_inode_info fh = Inr (Some a)" and "fh_ino fh = ino_of st a" and "fh_fresh st'"
    and "\<And>k. k \<noteq> next_fh st \<Longrightarrow> rm_find (fh_list st') k = rm_find (fh_list st) k"
    and "st' = st\<lparr>next_fh := Suc (next_fh st), fh_list := fh_list st'\<rparr>"
proof -
  let ?k = "next_fh st" and ?fh = "(file_handler_new (ino_of st a))\<lparr>fh_loc := LOCAL, fh_i := Some a, fh_no := next_fh st\<rparr>"
  let ?st = "st\<lparr>next_fh := Suc ?k, fh_list := fh_list st @ [(?k, ?fh)]\<rparr>"
  have none: "rm_find (fh_list st) ?k = None"
    using assms by (auto simp: fh_fresh_def map_of_eq_None_iff)
  show thesis
  proof (rule that [of ?st ?fh])
    show "open_handle a st = Some (Inr ?k, ?st)"
      using none by (simp add: open_handle_def add_file_handler_def rm_simps bnd_def ret_def Let_def)
    show "fh_fresh ?st" using assms by (auto simp: fh_fresh_def)
  qed (use none in \<open>simp_all add: rm_simps get_open_inode_info_def file_handler_new_def\<close>)
qed

end
