(* ===== verification/Dentry_Table.thy ===== *)
theory Dentry_Table
  imports File_Handler
begin

text \<open>
  The table of one directory (\<open>client/in_memory/dentry_table.cpp\<close>): for a directory this client
  leads, its entries and the inodes of its children; for another client's directory, the address
  of the leader.
\<close>

text \<open>The constructor for a directory in the pool; a \<open>REMOTE\<close> table has no inode.\<close>

definition dentry_table_new :: "'s env \<Rightarrow> uuid \<Rightarrow> meta_location \<Rightarrow> (nat, 's) cprog" where
  "dentry_table_new E ino l =
     (let d = \<lparr>dir_ino = ino, this_dir_inode = None, dt_dentries = None, child_inodes = [], dt_loc = l, leader_ip = []\<rparr>
      in if l = LOCAL then
           bnd (on_sys (lift (inode_load (meta_io E) ino))) (\<lambda>i.
           bnd (new_iobj \<lparr>base = set_loc LOCAL i, remote = None\<rparr>) (\<lambda>a.
             new_dtab (d\<lparr>this_dir_inode := Some a\<rparr>)))
         else new_dtab d)"

text \<open>The constructor for a directory that was just made\<close>

definition dentry_table_new_mkdir :: "nat \<Rightarrow> dentry \<Rightarrow> meta_location \<Rightarrow> (nat, 's) cprog" where
  "dentry_table_new_mkdir new_dir_inode new_dir_dentry l st =
     (if l = LOCAL then
        bnd (upd_inode new_dir_inode (set_loc LOCAL)) (\<lambda>_.
          new_dtab \<lparr>dir_ino = ino_of st new_dir_inode, this_dir_inode = Some new_dir_inode,
                    dt_dentries = Some new_dir_dentry, child_inodes = [], dt_loc = l, leader_ip = []\<rparr>) st
      else new_dtab \<lparr>dir_ino = nil_uuid, this_dir_inode = None, dt_dentries = None, child_inodes = [], dt_loc = l,
                     leader_ip = []\<rparr> st)"

definition create_child_inode :: "nat \<Rightarrow> string \<Rightarrow> nat \<Rightarrow> (int, 's) cprog" where
  "create_child_inode d filename i st =
     (case rm_insert filename i (child_inodes (dtabs st d)) of
        (m, inserted) \<Rightarrow>
          if inserted then
            (case dt_dentries (dtabs st d) of
               None \<Rightarrow> Some (Inl (Crash ''null dentries''), st)
             | Some ds \<Rightarrow>
                 bnd (upd_dtab d (\<lambda>t. t\<lparr>child_inodes := m, dt_dentries := Some (add_child filename (ino_of st i) ds)\<rparr>))
                   (\<lambda>_. ret 0) st)
          else Some (Inr (- 1), st))"

definition add_child_inode :: "nat \<Rightarrow> string \<Rightarrow> nat \<Rightarrow> (int, 's) cprog" where
  "add_child_inode d filename i st =
     (case rm_insert filename i (child_inodes (dtabs st d)) of
        (m, inserted) \<Rightarrow>
          if inserted then bnd (upd_dtab d (\<lambda>t. t\<lparr>child_inodes := m\<rparr>)) (\<lambda>_. ret 0) st
          else Some (Inr (- 1), st))"

definition delete_child_inode :: "nat \<Rightarrow> string \<Rightarrow> (int, 's) cprog" where
  "delete_child_inode d filename st =
     (case rm_find (child_inodes (dtabs st d)) filename of
        None \<Rightarrow> Some (Inr (- 1), st)
      | Some _ \<Rightarrow>
          (case dt_dentries (dtabs st d) of
             None \<Rightarrow> Some (Inl (Crash ''null dentries''), st)
           | Some ds \<Rightarrow>
               bnd (upd_dtab d (\<lambda>t. t\<lparr>child_inodes := rm_erase filename (child_inodes t),
                                      dt_dentries := Some (delete_child filename ds)\<rparr>))
                 (\<lambda>_. ret 0) st))"

text \<open>\<open>get_child_inode\<close>: the inode of a child, or a new remote inode; \<open>None\<close> is the null pointer.\<close>

definition get_child_inode :: "nat \<Rightarrow> string \<Rightarrow> uuid \<Rightarrow> (nat option, 's) cprog" where
  "get_child_inode d filename target_ino st =
     (case dt_loc (dtabs st d) of
        LOCAL \<Rightarrow>
          (case rm_find (child_inodes (dtabs st d)) filename of
             None \<Rightarrow> Some (Inl No_entry, st)
           | Some a \<Rightarrow> bnd (upd_inode a (set_loc LOCAL)) (\<lambda>_. ret (Some a)) st)
      | REMOTE \<Rightarrow>
          (let r = remote_inode_new (leader_ip (dtabs st d)) (dir_ino (dtabs st d)) filename False
           in bnd (new_iobj (r\<lparr>base := set_loc REMOTE (set_ino target_ino (base r))\<rparr>)) (\<lambda>a. ret (Some a)) st)
      | _ \<Rightarrow> Some (Inr None, st))"

definition check_child_inode :: "'s env \<Rightarrow> nat \<Rightarrow> string \<Rightarrow> (uuid, 's) cprog" where
  "check_child_inode E d filename st =
     (case dt_loc (dtabs st d) of
        LOCAL \<Rightarrow>
          if filename = ''/'' then Some (Inr get_root_ino, st)
          else (case dt_dentries (dtabs st d) of
                  None \<Rightarrow> Some (Inl (Crash ''null dentries''), st)
                | Some ds \<Rightarrow> Some (Inr (get_child_ino ds filename), st))
      | REMOTE \<Rightarrow> rpc_check_child_inode E (leader_ip (dtabs st d)) (dir_ino (dtabs st d)) filename st
      | _ \<Rightarrow> Some (Inr nil_uuid, st))"

text \<open>\<open>pull_child_metadata\<close>: the entries from the pool, then the inode of each of them\<close>

fun pull_children :: "'s env \<Rightarrow> nat \<Rightarrow> (string, uuid) robin_map \<Rightarrow> (int, 's) cprog" where
  "pull_children E d [] st = ret 0 st"
| "pull_children E d ((name, ino) # rest) st =
     bnd (on_sys (lift (inode_load (meta_io E) ino))) (\<lambda>i st1.
       bnd (new_iobj \<lparr>base = set_loc (if S_ISDIR (i_mode (core i)) then UNKNOWN else LOCAL)
                               (set_p_ino (dir_ino (dtabs st1 d)) i), remote = None\<rparr>) (\<lambda>a.
       bnd (add_child_inode d name a) (\<lambda>_.
         pull_children E d rest)) st1) st"

definition pull_child_metadata :: "'s env \<Rightarrow> nat \<Rightarrow> (int, 's) cprog" where
  "pull_child_metadata E d =
     bnd (gets (\<lambda>st. dir_ino (dtabs st d))) (\<lambda>ino.
     bnd (on_sys (lift (dentry_new (meta_io E) ino False))) (\<lambda>ds.
     bnd (upd_dtab d (\<lambda>t. t\<lparr>dt_dentries := Some ds\<rparr>)) (\<lambda>_.
       pull_children E d (child_list ds))))"

definition get_this_dir_inode :: "nat \<Rightarrow> (nat option, 's) cprog" where
  "get_this_dir_inode d st =
     (case dt_loc (dtabs st d) of
        LOCAL \<Rightarrow> Some (Inr (this_dir_inode (dtabs st d)), st)
      | REMOTE \<Rightarrow>
          (let ino = dir_ino (dtabs st d); r = remote_inode_new (leader_ip (dtabs st d)) ino [] True
           in bnd (new_iobj (r\<lparr>base := set_loc REMOTE (set_ino ino (base r))\<rparr>)) (\<lambda>a. ret (Some a)) st)
      | _ \<Rightarrow> Some (Inr None, st))"

definition table_fill_filler :: "nat \<Rightarrow> (string list, 's) cprog" where
  "table_fill_filler d st =
     (case dt_dentries (dtabs st d) of
        None \<Rightarrow> Some (Inl (Crash ''null dentries''), st)
      | Some ds \<Rightarrow> Some (Inr (fill_filler ds), st))"

definition table_get_child_num :: "nat \<Rightarrow> (nat, 's) cprog" where
  "table_get_child_num d st =
     (case dt_dentries (dtabs st d) of
        None \<Rightarrow> Some (Inl (Crash ''null dentries''), st)
      | Some ds \<Rightarrow> Some (Inr (get_child_num ds), st))"

section \<open>Entries and inodes agree\<close>

text \<open>The table of a directory this client leads: every entry has its inode, with the number the
  entry gives, and conversely.\<close>

definition dtable_ok :: "'s client_state \<Rightarrow> nat \<Rightarrow> bool" where
  "dtable_ok st d \<longleftrightarrow> dt_loc (dtabs st d) = LOCAL \<and>
     (case dt_dentries (dtabs st d) of
        None \<Rightarrow> False
      | Some ds \<Rightarrow>
          this_ino ds = dir_ino (dtabs st d) \<and> rm_wf (child_list ds) \<and> rm_wf (child_inodes (dtabs st d)) \<and>
          (\<forall>name. children ds name = map_option (ino_of st) (rm_find (child_inodes (dtabs st d)) name)))"

abbreviation dir_children :: "'s client_state \<Rightarrow> nat \<Rightarrow> string \<rightharpoonup> uuid" where
  "dir_children st d \<equiv> (case dt_dentries (dtabs st d) of None \<Rightarrow> Map.empty | Some ds \<Rightarrow> children ds)"

lemma dtable_okE:
  assumes "dtable_ok st d"
  obtains ds where "dt_loc (dtabs st d) = LOCAL" and "dt_dentries (dtabs st d) = Some ds" and "this_ino ds = dir_ino (dtabs st d)"
    and "rm_wf (child_list ds)" and "rm_wf (child_inodes (dtabs st d))"
    and "\<forall>name. children ds name = map_option (ino_of st) (rm_find (child_inodes (dtabs st d)) name)"
  using assms by (auto simp: dtable_ok_def split: option.splits)

lemma create_child_inode_ok:
  assumes ok: "dtable_ok st d" and new: "dir_children st d name = None"
  obtains st' where "create_child_inode d name i st = Some (Inr 0, st')" and "dtable_ok st' d"
    and "dir_children st' d = (dir_children st d)(name \<mapsto> ino_of st i)"
    and "map_of (child_inodes (dtabs st' d)) = (map_of (child_inodes (dtabs st d)))(name \<mapsto> i)" and "st' = st\<lparr>dtabs := (dtabs st)(d := dtabs st' d)\<rparr>"
    and "this_dir_inode (dtabs st' d) = this_dir_inode (dtabs st d)" and "dir_ino (dtabs st' d) = dir_ino (dtabs st d)"
proof -
  obtain ds where ds: "dt_loc (dtabs st d) = LOCAL" "dt_dentries (dtabs st d) = Some ds" "this_ino ds = dir_ino (dtabs st d)"
    "rm_wf (child_list ds)" "rm_wf (child_inodes (dtabs st d))"
    "\<forall>name. children ds name = map_option (ino_of st) (rm_find (child_inodes (dtabs st d)) name)"
    by (rule dtable_okE [OF ok])
  let ?t = "(dtabs st d)\<lparr>child_inodes := child_inodes (dtabs st d) @ [(name, i)], dt_dentries := Some (add_child name (ino_of st i) ds)\<rparr>"
  let ?st = "st\<lparr>dtabs := (dtabs st)(d := ?t)\<rparr>"
  have none: "rm_find (child_inodes (dtabs st d)) name = None" using new ds(2) ds(6) by simp
  show thesis
  proof (rule that [of ?st])
    show "create_child_inode d name i st = Some (Inr 0, ?st)"
      using none ds(2) by (simp add: create_child_inode_def rm_simps upd_dtab_def ret_def)
    show "dtable_ok ?st d"
      using ds none by (simp add: dtable_ok_def rm_wf_add_child rm_wf_snoc add_child_map rm_simps del: map_append)
  qed (use ds none in \<open>simp_all add: add_child_map rm_simps\<close>)
qed

lemma delete_child_inode_ok:
  assumes ok: "dtable_ok st d" and old: "dir_children st d name \<noteq> None"
  obtains st' where "delete_child_inode d name st = Some (Inr 0, st')" and "dtable_ok st' d"
    and "dir_children st' d = (dir_children st d)(name := None)"
    and "st' = st\<lparr>dtabs := (dtabs st)(d := dtabs st' d)\<rparr>"
    and "this_dir_inode (dtabs st' d) = this_dir_inode (dtabs st d)" and "dir_ino (dtabs st' d) = dir_ino (dtabs st d)"
    and "child_inodes (dtabs st' d) = rm_erase name (child_inodes (dtabs st d))"
proof -
  obtain ds where ds: "dt_loc (dtabs st d) = LOCAL" "dt_dentries (dtabs st d) = Some ds" "this_ino ds = dir_ino (dtabs st d)"
    "rm_wf (child_list ds)" "rm_wf (child_inodes (dtabs st d))"
    "\<forall>name. children ds name = map_option (ino_of st) (rm_find (child_inodes (dtabs st d)) name)"
    by (rule dtable_okE [OF ok])
  let ?t = "(dtabs st d)\<lparr>child_inodes := rm_erase name (child_inodes (dtabs st d)), dt_dentries := Some (delete_child name ds)\<rparr>"
  let ?st = "st\<lparr>dtabs := (dtabs st)(d := ?t)\<rparr>"
  obtain i where some: "rm_find (child_inodes (dtabs st d)) name = Some i" using old ds(2) ds(6) by auto
  show thesis
  proof (rule that [of ?st])
    show "delete_child_inode d name st = Some (Inr 0, ?st)"
      using some ds(2) by (simp add: delete_child_inode_def upd_dtab_def ret_def)
    show "dtable_ok ?st d"
      using ds by (simp add: dtable_ok_def rm_wf_delete_child rm_wf_erase delete_child_map rm_find_erase)
  qed (use ds in \<open>simp_all add: delete_child_map\<close>)
qed

lemma check_child_inode_local:
  assumes "dtable_ok st d" and "name \<noteq> ''/''"
  shows "check_child_inode E d name st = Some (Inr (case dir_children st d name of None \<Rightarrow> nil_uuid | Some ino \<Rightarrow> ino), st)"
  using assms by (auto simp: check_child_inode_def dtable_ok_def get_child_ino_def split: option.splits)

lemma get_child_inode_local:
  assumes "dtable_ok st d"
  shows "get_child_inode d name t st =
    (case rm_find (child_inodes (dtabs st d)) name of
       None \<Rightarrow> Some (Inl No_entry, st)
     | Some a \<Rightarrow> Some (Inr (Some a), st\<lparr>iobjs := (iobjs st)(a := (iobjs st a)\<lparr>base := set_loc LOCAL (the_inode st a)\<rparr>)\<rparr>))"
  using assms by (auto simp: get_child_inode_def dtable_ok_def upd_inode_def ret_def split: option.splits)

end
