(* ===== verification/Directory_Table.thy ===== *)
theory Directory_Table
  imports Dentry_Table
begin

text \<open>
  The table of directories (\<open>client/in_memory/directory_table.cpp\<close>): which dentry tables this
  client has, how it gets one through a lease, and the traversal of a path.
\<close>

section \<open>The table\<close>

definition add_dentry_table :: "uuid \<Rightarrow> nat \<Rightarrow> (int, 's) cprog" where
  "add_dentry_table ino d st =
     (case rm_insert ino d (dentry_tables st) of
        (m, inserted) \<Rightarrow> if inserted then Some (Inr 0, st\<lparr>dentry_tables := m\<rparr>) else Some (Inr (- 1), st))"

definition delete_dentry_table :: "uuid \<Rightarrow> (int, 's) cprog" where
  "delete_dentry_table ino st =
     (case rm_find (dentry_tables st) ino of
        None \<Rightarrow> Some (Inr (- 1), st)
      | Some _ \<Rightarrow> Some (Inr 0, st\<lparr>dentry_tables := rm_erase ino (dentry_tables st)\<rparr>))"

definition set_leader_ip :: "nat \<Rightarrow> string \<Rightarrow> (unit, 's) cprog" where
  "set_leader_ip d ip = upd_dtab d (\<lambda>t. t\<lparr>leader_ip := ip\<rparr>)"

text \<open>\<open>lease_dentry_table\<close>: \<open>None\<close> is the null pointer it returns for other results of \<open>acquire\<close>.\<close>

definition lease_dentry_table :: "'s env \<Rightarrow> uuid \<Rightarrow> (nat option, 's) cprog" where
  "lease_dentry_table E ino =
     bnd (lc_acquire E ino []) (\<lambda>(r, temp_address).
       if r = 0 then
         bnd (dentry_table_new E ino LOCAL) (\<lambda>d.
         bnd (set_leader_ip d temp_address) (\<lambda>_.
         bnd (pull_child_metadata E d) (\<lambda>_.
         bnd (add_dentry_table ino d) (\<lambda>_.
           ret (Some d)))))
       else if r = - 1 then
         bnd (dentry_table_new E ino REMOTE) (\<lambda>d.
         bnd (set_leader_ip d temp_address) (\<lambda>_.
         bnd (add_dentry_table ino d) (\<lambda>_.
           ret (Some d))))
       else ret None)"

definition lease_dentry_table_mkdir :: "'s env \<Rightarrow> nat \<Rightarrow> dentry \<Rightarrow> (nat option, 's) cprog" where
  "lease_dentry_table_mkdir E new_dir_inode new_dir_dentry =
     bnd (gets (\<lambda>st. ino_of st new_dir_inode)) (\<lambda>ino.
     bnd (lc_acquire E ino []) (\<lambda>(r, temp_address).
       if r = 0 then
         bnd (dentry_table_new_mkdir new_dir_inode new_dir_dentry LOCAL) (\<lambda>d.
         bnd (set_leader_ip d temp_address) (\<lambda>_.
         bnd (add_dentry_table ino d) (\<lambda>_.
           ret (Some d))))
       else if r = - 1 then throw (Runtime_error ''New directory should have local dentry table'')
       else ret None))"

definition get_dentry_table :: "'s env \<Rightarrow> uuid \<Rightarrow> bool \<Rightarrow> (nat option, 's) cprog" where
  "get_dentry_table E ino remote_call st =
     (if remote_call then
        (case rm_find (dentry_tables st) ino of
           Some d \<Rightarrow>
             bnd (lc_is_valid E ino) (\<lambda>valid.
               if valid then ret (Some d)
               else bnd (modify (\<lambda>st. st\<lparr>dentry_tables := rm_erase ino (dentry_tables st)\<rparr>)) (\<lambda>_. throw Not_leader)) st
         | None \<Rightarrow> Some (Inl Not_leader, st))
      else
        (case rm_find (dentry_tables st) ino of
           Some d \<Rightarrow>
             bnd (lc_is_valid E ino) (\<lambda>valid.
               if valid then ret (Some d)
               else bnd (modify (\<lambda>st. st\<lparr>dentry_tables := rm_erase ino (dentry_tables st)\<rparr>)) (\<lambda>_.
                      lease_dentry_table E ino)) st
         | None \<Rightarrow> lease_dentry_table E ino st))"

text \<open>The constructor fetches the table of the root directory.\<close>

definition directory_table_new :: "'s env \<Rightarrow> (unit, 's) cprog" where
  "directory_table_new E = bnd (get_dentry_table E get_root_ino False) (\<lambda>_. ret ())"

definition find_remote_dentry_table_again :: "'s env \<Rightarrow> nat \<Rightarrow> (unit, 's) cprog" where
  "find_remote_dentry_table_again E a st =
     (case remote (iobjs st a) of
        None \<Rightarrow> Some (Inl (Crash ''not a remote inode''), st)
      | Some r \<Rightarrow>
          bnd (get_dentry_table E (r_dentry_table_ino r) False) (\<lambda>t.
            case t of
              None \<Rightarrow> throw (Crash ''null dentry table'')
            | Some d \<Rightarrow>
                modify (\<lambda>st. st\<lparr>iobjs := (iobjs st)(a := (iobjs st a)\<lparr>remote :=
                  Some (r\<lparr>r_leader_ip := leader_ip (dtabs st d)\<rparr>)\<rparr>)\<rparr>)) st)"

section \<open>Path traversal\<close>

text \<open>\<open>set_name_bound\<close>: the bounds of the next name, \<open>None\<close> for the result \<open>-1\<close>.\<close>

fun scan_name :: "string \<Rightarrow> int \<Rightarrow> nat \<Rightarrow> int" where
  "scan_name path i 0 = i - 1"
| "scan_name path i (Suc n) = (if path ! nat i = CHR ''/'' then i - 1 else scan_name path (i + 1) n)"

definition set_name_bound :: "int \<Rightarrow> string \<Rightarrow> (int \<times> int) option" where
  "set_name_bound end_name path =
     (let path_len = int (length path); start_name = end_name + 2
      in if start_name \<ge> path_len then None
         else Some (start_name, scan_name path start_name (nat (path_len - start_name))))"

lemma scan_name_ge: "i - 1 \<le> scan_name path i n"
  by (induction path i n rule: scan_name.induct) auto

text \<open>The names the loop visits, in order; they depend on the path alone.\<close>

function target_names :: "int \<Rightarrow> string \<Rightarrow> string list" where
  "target_names end_name path =
     (case set_name_bound end_name path of
        None \<Rightarrow> []
      | Some (start_name, end_name') \<Rightarrow>
          take (nat (end_name' - start_name + 1)) (drop (nat start_name) path) # target_names end_name' path)"
  by pat_completeness auto
termination
proof (relation "measure (\<lambda>(end_name, path). nat (int (length path) - end_name))", goal_cases)
  case (2 end_name path p start_name end_name')
  then have "start_name = end_name + 2" "start_name < int (length path)" "start_name - 1 \<le> end_name'"
    using scan_name_ge by (auto simp: set_name_bound_def Let_def split: if_splits)
  then show ?case by simp
qed simp

declare target_names.simps [simp del]

fun traverse :: "'s env \<Rightarrow> string list \<Rightarrow> nat \<Rightarrow> nat option \<Rightarrow> (nat option, 's) cprog" where
  "traverse E [] parent target st = ret target st"
| "traverse E (name # rest) parent target st =
     bnd (check_child_inode E parent name) (\<lambda>ino.
       if is_nil ino then throw No_entry
       else
         bnd (get_child_inode parent name ino) (\<lambda>t.
           case t of
             None \<Rightarrow> throw (Runtime_error ''Failed to make remote_inode in path_traversal()'')
           | Some a \<Rightarrow>
               bnd (get_mode E a) (\<lambda>m.
                 if S_ISDIR m then
                   bnd (get_dentry_table E ino False) (\<lambda>p.
                     case p of
                       None \<Rightarrow> throw (Crash ''null dentry table'')
                     | Some d \<Rightarrow>
                         bnd (get_this_dir_inode d) (\<lambda>t'.
                           case t' of
                             None \<Rightarrow> throw (Crash ''null inode'')
                           | Some a' \<Rightarrow>
                               bnd (inode_permission_check E a' X_OK) (\<lambda>_. traverse E rest d (Some a'))))
                 else traverse E rest parent (Some a)))) st"

definition path_traversal :: "'s env \<Rightarrow> string \<Rightarrow> (nat option, 's) cprog" where
  "path_traversal E path =
     bnd (get_dentry_table E get_root_ino False) (\<lambda>p.
       case p of
         None \<Rightarrow> throw (Crash ''null dentry table'')
       | Some d \<Rightarrow> bnd (get_this_dir_inode d) (\<lambda>t. traverse E (target_names (- 1) path) d t))"

section \<open>Names on a path\<close>

lemma scan_name_eq:
  assumes "CHR ''/'' \<notin> set name" and "path = pre @ name @ rest" and "rest = [] \<or> hd rest = CHR ''/''"
  shows "scan_name path (int (length pre)) (length name + length rest) = int (length pre + length name) - 1"
  using assms
proof (induction name arbitrary: pre)
  case Nil
  then show ?case by (cases rest) (auto simp: nth_append)
next
  case (Cons c name)
  have "path ! length pre = c" using Cons.prems(2) by simp
  moreover have "scan_name path (int (length (pre @ [c]))) (length name + length rest) = int (length (pre @ [c]) + length name) - 1"
    using Cons.prems by (intro Cons.IH) auto
  ultimately show ?case using Cons.prems(1) by (auto simp: algebra_simps)
qed

text \<open>A path is a slash before each name.\<close>

fun path_of :: "string list \<Rightarrow> string" where
  "path_of [] = []"
| "path_of (name # names) = CHR ''/'' # name @ path_of names"

lemma path_of_hd: "path_of names = [] \<or> hd (path_of names) = CHR ''/''"
  by (cases names) auto

lemma target_names_path_of:
  assumes "\<forall>name \<in> set names. name \<noteq> [] \<and> CHR ''/'' \<notin> set name"
  shows "target_names (int (length pre) - 1) (pre @ path_of names) = names"
  using assms
proof (induction names arbitrary: pre)
  case Nil
  then show ?case by (subst target_names.simps) (simp add: set_name_bound_def)
next
  case (Cons name names)
  let ?path = "pre @ path_of (name # names)" and ?pre = "pre @ [CHR ''/'']"
  have path: "?path = ?pre @ name @ path_of names" by simp
  have ne: "name \<noteq> []" and nd: "CHR ''/'' \<notin> set name" using Cons.prems by auto
  have scan: "scan_name ?path (int (length ?pre)) (length name + length (path_of names)) = int (length ?pre + length name) - 1"
    by (rule scan_name_eq [OF nd path path_of_hd])
  have "set_name_bound (int (length pre) - 1) ?path = Some (int (length ?pre), int (length ?pre + length name) - 1)"
  proof -
    have "0 < int (length name) + int (length (path_of names))" using ne by (cases name) simp_all
    moreover have "nat (int (length ?path) - int (length ?pre)) = length name + length (path_of names)" by simp
    ultimately show ?thesis using scan by (simp add: set_name_bound_def Let_def not_le)
  qed
  moreover have "target_names (int (length (?pre @ name)) - 1) ((?pre @ name) @ path_of names) = names"
    using Cons.prems by (intro Cons.IH) auto
  ultimately show ?case
    by (subst target_names.simps) (simp add: algebra_simps nat_add_distrib)
qed

section \<open>Properties\<close>

text \<open>The loop of \<open>path_traversal\<close> visits exactly the names of the path, in order: for a path made
  of a slash before each of some non-empty names without slashes, these names.\<close>

theorem path_names_visited:
  assumes "\<forall>name \<in> set names. name \<noteq> [] \<and> CHR ''/'' \<notin> set name"
  shows "target_names (- 1) (path_of names) = names"
  using target_names_path_of [OF assms, of "[]"] by simp

theorem path_names_visited_witness: "target_names (- 1) (path_of [''a'', ''bc'']) = [''a'', ''bc'']"
  using path_names_visited [of "[''a'', ''bc'']"] by simp

end
