(* ===== verification/Journal_Spec.thy ===== *)
theory Journal_Spec
  imports Journal
begin

text \<open>
  The journal at work: file system operations, the commit thread and the checkpoint threads
  interleave. An operation fetches the open transaction of its directory and runs on it later;
  the commit thread may have closed the transaction in between, and then the operation fetches
  again. Operations on one directory exclude each other, as the directory's mutex makes them.

  The contents of a directory are those in the pool, changed by the transactions on their way to
  the pool in the order in which they will arrive. No thread step changes these contents except
  the completion of an operation, which changes them by exactly the operation's effect.
\<close>

section \<open>Steps\<close>

record 's jsys =
  jn :: journal
  pending :: "(uuid, nat) robin_map"
  pool :: 's
  held :: "uuid \<Rightarrow> (dir_op \<times> nat) option"

text \<open>A directory must fit the block that \<open>dentry(ino, mkdir)\<close> reads.\<close>

definition fits :: "'s ext \<Rightarrow> ('s \<Rightarrow> string \<rightharpoonup> bytes) \<Rightarrow> 's \<Rightarrow> transaction \<Rightarrow> bool" where
  "fits X objs s tx \<longleftrightarrow>
     (\<forall>v m. dir_at X objs s (s_ino tx) v \<longrightarrow> tx_view tx v = Some m \<longrightarrow> dir_bytes m \<le> MAX_DENTRY_OBJ_SIZE)"

inductive jstep :: "'s ext \<Rightarrow> ('s \<Rightarrow> string \<rightharpoonup> bytes) \<Rightarrow> 's jsys \<Rightarrow> (uuid \<times> dir_op) list \<Rightarrow> 's jsys \<Rightarrow> bool"
  for X objs where
  fetch: "is_uuid ino \<Longrightarrow> held s ino = None \<Longrightarrow> get_entry ino (jn s) = (a, j) \<Longrightarrow>
    jstep X objs s [] (s\<lparr>jn := j, held := (held s)(ino \<mapsto> (op, a))\<rparr>)"
| complete: "held s ino = Some (op, a) \<Longrightarrow> op_pre op (txs (jn s) a) \<Longrightarrow> run_op ino op (txs (jn s) a) = (Inr 0, tx) \<Longrightarrow>
    jstep X objs s [(ino, op)] (s\<lparr>jn := (jn s)\<lparr>txs := (txs (jn s))(a := tx)\<rparr>, held := (held s)(ino := None)\<rparr>)"
| retry: "held s ino = Some (op, a) \<Longrightarrow> run_op ino op (txs (jn s) a) = (Inr r, tx) \<Longrightarrow> r \<noteq> 0 \<Longrightarrow>
    jstep X objs s [] (s\<lparr>jn := (jn s)\<lparr>txs := (txs (jn s))(a := tx)\<rparr>, held := (held s)(ino := None)\<rparr>)"
| swap: "pending s = [] \<Longrightarrow> replace_map (jn s) = (m, j) \<Longrightarrow> jstep X objs s [] (s\<lparr>jn := j, pending := m\<rparr>)"
| commit: "pending s = (ino, a) # rest \<Longrightarrow> commit_one X ino a (jn s, pool s) = Some (Inr (), j, s') \<Longrightarrow>
    jstep X objs s [] (s\<lparr>jn := j, pending := rest, pool := s'\<rparr>)"
| checkpoint: "queues (jn s) i = Some a # q \<Longrightarrow> fits X objs (pool s) (txs (jn s) a) \<Longrightarrow>
    checkpoint_one X i (jn s, pool s) = Some (Inr True, j, s') \<Longrightarrow>
    jstep X objs s [] (s\<lparr>jn := j, pool := s'\<rparr>)"

inductive jrun :: "'s ext \<Rightarrow> ('s \<Rightarrow> string \<rightharpoonup> bytes) \<Rightarrow> 's jsys \<Rightarrow> (uuid \<times> dir_op) list \<Rightarrow> 's jsys \<Rightarrow> bool"
  for X objs where
  nothing: "jrun X objs s [] s"
| more: "jrun X objs s tr s1 \<Longrightarrow> jstep X objs s1 l s2 \<Longrightarrow> jrun X objs s (tr @ l) s2"

lemma jrun_append: "jrun X objs s1 l s2 \<Longrightarrow> jrun X objs s tr s1 \<Longrightarrow> jrun X objs s (tr @ l) s2"
proof (induction rule: jrun.induct)
  case (more s1 l s2 l' s3)
  from jrun.more [OF more.IH [OF more.prems] more.hyps(2)] show ?case by simp
qed simp

definition jinit :: "'s \<Rightarrow> 's jsys" where
  "jinit s = \<lparr>jn = journal_new, pending = [], pool = s, held = (\<lambda>_. None)\<rparr>"

section \<open>The transactions of a directory, in order\<close>

fun addrs :: "nat option list \<Rightarrow> nat list" where
  "addrs [] = []"
| "addrs (None # q) = addrs q"
| "addrs (Some a # q) = a # addrs q"

lemma addrs_append [simp]: "addrs (p @ q) = addrs p @ addrs q"
  by (induction p rule: addrs.induct) simp_all

lemma set_addrs: "a \<in> set (addrs q) \<longleftrightarrow> Some a \<in> set q"
  by (induction q rule: addrs.induct) auto

definition queued :: "journal \<Rightarrow> uuid \<Rightarrow> nat list" where
  "queued j ino = filter (\<lambda>a. s_ino (txs j a) = ino) (addrs (queues j (queue_of ino)))"

definition waiting :: "(uuid, nat) robin_map \<Rightarrow> uuid \<Rightarrow> nat list" where
  "waiting m ino = map snd (filter (\<lambda>p. fst p = ino) m)"

definition path :: "'s jsys \<Rightarrow> uuid \<Rightarrow> nat list" where
  "path s ino = queued (jn s) ino @ waiting (pending s) ino @ waiting (jmap (jn s)) ino"

definition tx_fold :: "(nat \<Rightarrow> transaction) \<Rightarrow> nat list \<Rightarrow> dir \<Rightarrow> dir" where
  "tx_fold h p v = fold (\<lambda>a. tx_view (h a)) p v"

text \<open>The contents of a directory, through the journal\<close>

definition jview :: "'s ext \<Rightarrow> ('s \<Rightarrow> string \<rightharpoonup> bytes) \<Rightarrow> 's jsys \<Rightarrow> uuid \<Rightarrow> dir \<Rightarrow> bool" where
  "jview X objs s ino v \<longleftrightarrow> (\<exists>v0. dir_at X objs (pool s) ino v0 \<and> v = tx_fold (txs (jn s)) (path s ino) v0)"

lemma waiting_eq: "rm_wf m \<Longrightarrow> waiting m ino = (case rm_find m ino of None \<Rightarrow> [] | Some a \<Rightarrow> [a])"
proof (induction m)
  case (Cons p m)
  then show ?case
    by (cases p) (auto simp: waiting_def map_of_eq_None_iff filter_empty_conv image_iff split: option.splits)
qed (simp add: waiting_def)

lemma waiting_snoc: "rm_find m ino = None \<Longrightarrow> waiting (m @ [(ino, a)]) ino' = waiting m ino' @ (if ino' = ino then [a] else [])"
  by (simp add: waiting_def)

lemma tx_fold_cong: "(\<And>a. a \<in> set p \<Longrightarrow> tx_view (h a) = tx_view (h' a)) \<Longrightarrow> tx_fold h p v = tx_fold h' p v"
  unfolding tx_fold_def by (rule fold_cong) auto

lemma tx_fold_append: "tx_fold h (p @ q) v = tx_fold h q (tx_fold h p v)"
  by (simp add: tx_fold_def)

lemma path_cong:
  assumes "\<And>a. a \<in> set (addrs (queues (jn s) (queue_of ino))) \<Longrightarrow> s_ino (txs (jn s') a) = s_ino (txs (jn s) a)"
    and "queues (jn s') = queues (jn s)" and "pending s' = pending s" and "jmap (jn s') = jmap (jn s)"
  shows "path s' ino = path s ino"
  using assms by (simp add: path_def queued_def cong: filter_cong)

section \<open>Invariant\<close>

text \<open>Every directory in the pool is there, well formed, or absent.\<close>

definition dirs_ok :: "'s ext \<Rightarrow> ('s \<Rightarrow> string \<rightharpoonup> bytes) \<Rightarrow> 's \<Rightarrow> bool" where
  "dirs_ok X objs s \<longleftrightarrow> (\<forall>ino. is_uuid ino \<longrightarrow> (\<exists>v. dir_at X objs s ino v))"

definition jinv :: "'s ext \<Rightarrow> ('s \<Rightarrow> string \<rightharpoonup> bytes) \<Rightarrow> 's jsys \<Rightarrow> bool" where
  "jinv X objs s \<longleftrightarrow>
     store_ok objs (pool s) \<and> dirs_ok X objs (pool s) \<and> rm_wf (jmap (jn s)) \<and> rm_wf (pending s) \<and>
     (\<forall>i a. Some a \<in> set (queues (jn s) i) \<longrightarrow> queue_of (s_ino (txs (jn s) a)) = i) \<and>
     (\<forall>i a. Some a \<in> set (queues (jn s) i) \<longrightarrow> a < next_tx (jn s) \<and> wf_tx (txs (jn s) a) \<and> committed (txs (jn s) a)) \<and>
     (\<forall>ino a. (ino, a) \<in> set (pending s) \<union> set (jmap (jn s)) \<longrightarrow>
        a < next_tx (jn s) \<and> wf_tx (txs (jn s) a) \<and> \<not> committed (txs (jn s) a) \<and> s_ino (txs (jn s) a) = ino) \<and>
     (\<forall>ino. distinct (path s ino)) \<and>
     (\<forall>ino op a. held s ino = Some (op, a) \<longrightarrow>
        a < next_tx (jn s) \<and> (committed (txs (jn s) a) \<or> path s ino \<noteq> [] \<and> last (path s ino) = a))"

lemma jinv_init: "store_ok objs s \<Longrightarrow> dirs_ok X objs s \<Longrightarrow> jinv X objs (jinit s)"
  by (simp add: jinv_def jinit_def journal_new_def path_def queued_def waiting_def)

lemma jinvD:
  assumes "jinv X objs s"
  shows "store_ok objs (pool s)" "rm_wf (jmap (jn s))" "rm_wf (pending s)"
    "\<And>i a. Some a \<in> set (queues (jn s) i) \<Longrightarrow> queue_of (s_ino (txs (jn s) a)) = i"
    "\<And>i a. Some a \<in> set (queues (jn s) i) \<Longrightarrow> a < next_tx (jn s)"
    "\<And>i a. Some a \<in> set (queues (jn s) i) \<Longrightarrow> wf_tx (txs (jn s) a)"
    "\<And>i a. Some a \<in> set (queues (jn s) i) \<Longrightarrow> committed (txs (jn s) a)"
    "\<And>ino a. (ino, a) \<in> set (pending s) \<union> set (jmap (jn s)) \<Longrightarrow>
        a < next_tx (jn s) \<and> wf_tx (txs (jn s) a) \<and> \<not> committed (txs (jn s) a) \<and> s_ino (txs (jn s) a) = ino"
    "\<And>ino. distinct (path s ino)"
    "\<And>ino op a. held s ino = Some (op, a) \<Longrightarrow> a < next_tx (jn s)"
    "\<And>ino op a. held s ino = Some (op, a) \<Longrightarrow> \<not> committed (txs (jn s) a) \<Longrightarrow> path s ino \<noteq> [] \<and> last (path s ino) = a"
    "dirs_ok X objs (pool s)"
  using assms unfolding jinv_def by blast+

text \<open>Everything on a path is well formed and belongs to its directory.\<close>

lemma path_member:
  assumes "jinv X objs s" and "a \<in> set (path s ino)"
  shows "s_ino (txs (jn s) a) = ino" and "wf_tx (txs (jn s) a)" and "a < next_tx (jn s)"
proof -
  from assms(2) consider "a \<in> set (queued (jn s) ino)" | "(ino, a) \<in> set (pending s) \<union> set (jmap (jn s))"
    by (auto simp: path_def waiting_def)
  then have "s_ino (txs (jn s) a) = ino \<and> wf_tx (txs (jn s) a) \<and> a < next_tx (jn s)"
  proof cases
    case 1
    then have "Some a \<in> set (queues (jn s) (queue_of ino))" "s_ino (txs (jn s) a) = ino"
      by (auto simp: queued_def set_addrs)
    with jinvD(5,6) [OF assms(1)] show ?thesis by blast
  next
    case 2
    with jinvD(8) [OF assms(1)] show ?thesis by blast
  qed
  then show "s_ino (txs (jn s) a) = ino" and "wf_tx (txs (jn s) a)" and "a < next_tx (jn s)" by simp_all
qed

section \<open>Steps keep the invariant and the contents\<close>

definition ops_of :: "uuid \<Rightarrow> (uuid \<times> dir_op) list \<Rightarrow> dir_op list" where
  "ops_of ino tr = map snd (filter (\<lambda>p. fst p = ino) tr)"

text \<open>A step is right when it keeps the invariant and changes every directory by its label.\<close>

definition step_ok :: "'s ext \<Rightarrow> ('s \<Rightarrow> string \<rightharpoonup> bytes) \<Rightarrow> 's jsys \<Rightarrow> (uuid \<times> dir_op) list \<Rightarrow> 's jsys \<Rightarrow> bool" where
  "step_ok X objs s l s' \<longleftrightarrow> jinv X objs s' \<and>
     (\<forall>ino v. is_uuid ino \<longrightarrow> jview X objs s ino v \<longrightarrow> jview X objs s' ino (fold op_effect (ops_of ino l) v))"

lemma run_op_retry: "run_op ino op tx = (Inr r, tx') \<Longrightarrow> r \<noteq> 0 \<Longrightarrow> tx' = tx \<and> committed tx"
  by (cases op) (auto simp: tx_mkself_def tx_rmself_def tx_chself_def tx_mkdir_def tx_rmdir_def tx_mvdir_def
      tx_mkreg_def tx_rmreg_def tx_mvreg_def tx_chreg_def Let_def split: if_splits sum.splits option.splits)

text \<open>A change of one transaction that keeps its directory, flag and well-formedness\<close>

lemma jinv_heap:
  assumes inv: "jinv X objs s" and tx: "wf_tx tx" "s_ino tx = s_ino (txs (jn s) a)" "committed tx = committed (txs (jn s) a)"
    and h: "\<And>ino x. h ino = Some x \<Longrightarrow> held s ino = Some x"
  shows "jinv X objs (s\<lparr>jn := (jn s)\<lparr>txs := (txs (jn s))(a := tx)\<rparr>, held := h\<rparr>)"
proof -
  let ?s = "s\<lparr>jn := (jn s)\<lparr>txs := (txs (jn s))(a := tx)\<rparr>, held := h\<rparr>"
  have same: "s_ino (txs (jn ?s) b) = s_ino (txs (jn s) b)" "committed (txs (jn ?s) b) = committed (txs (jn s) b)"
    "wf_tx (txs (jn s) b) \<Longrightarrow> wf_tx (txs (jn ?s) b)" for b
    using tx by auto
  have "path ?s ino = path s ino" for ino by (rule path_cong) (use same in auto)
  moreover note inv [unfolded jinv_def]
  ultimately show ?thesis unfolding jinv_def using same h by fastforce
qed

lemma complete_ok:
  assumes inv: "jinv X objs s" and held: "held s ino = Some (op, a)" and pre: "op_pre op (txs (jn s) a)"
    and run: "run_op ino op (txs (jn s) a) = (Inr 0, tx)"
  shows "step_ok X objs s [(ino, op)] (s\<lparr>jn := (jn s)\<lparr>txs := (txs (jn s))(a := tx)\<rparr>, held := (held s)(ino := None)\<rparr>)"
    (is "step_ok X objs s _ ?s")
proof -
  let ?h = "txs (jn s)"
  have opn: "\<not> committed (?h a)" using run run_op_committed by fastforce
  with jinvD(11) [OF inv held] obtain p where p: "path s ino = p @ [a]"
    by (metis append_butlast_last_id)
  then have a: "a \<in> set (path s ino)" by simp
  note mem = path_member [OF inv a]
  from run_op_effect [OF mem(2) opn pre, of ino] run
  have tx: "wf_tx tx" "\<not> committed tx" "s_ino tx = s_ino (?h a)" "\<And>v. tx_view tx v = op_effect op (tx_view (?h a) v)"
    by (auto simp: tx_effect_def)
  have inv': "jinv X objs ?s"
    by (rule jinv_heap [OF inv tx(1,3)]) (use tx(2) opn in \<open>auto split: if_splits\<close>)
  have path': "path ?s ino' = path s ino'" for ino' by (rule path_cong) (use tx(3) in auto)
  have "jview X objs ?s ino' (fold op_effect (ops_of ino' [(ino, op)]) v)" if "jview X objs s ino' v" for ino' v
  proof -
    from that obtain v0 where v0: "dir_at X objs (pool s) ino' v0" "v = tx_fold ?h (path s ino') v0"
      by (auto simp: jview_def)
    have "tx_fold (?h(a := tx)) (path s ino') v0 = fold op_effect (ops_of ino' [(ino, op)]) v"
    proof (cases "ino' = ino")
      case True
      have "a \<notin> set p" using jinvD(9) [OF inv, of ino] p by simp
      then have "tx_fold (?h(a := tx)) p v0 = tx_fold ?h p v0" by (intro tx_fold_cong) auto
      then show ?thesis using True v0(2) p tx(4) by (simp add: tx_fold_append ops_of_def) (simp add: tx_fold_def)
    next
      case False
      then have "a \<notin> set (path s ino')" using path_member(1) [OF inv] mem(1) by blast
      then have "tx_fold (?h(a := tx)) (path s ino') v0 = tx_fold ?h (path s ino') v0" by (intro tx_fold_cong) auto
      then show ?thesis using False v0(2) by (simp add: ops_of_def)
    qed
    with v0(1) show ?thesis by (auto simp: jview_def path')
  qed
  with inv' show ?thesis by (simp add: step_ok_def)
qed

lemma retry_ok:
  assumes inv: "jinv X objs s" and run: "run_op ino op (txs (jn s) a) = (Inr r, tx)" and r: "r \<noteq> 0"
  shows "step_ok X objs s [] (s\<lparr>jn := (jn s)\<lparr>txs := (txs (jn s))(a := tx)\<rparr>, held := (held s)(ino := None)\<rparr>)"
    (is "step_ok X objs s _ ?s")
proof -
  have heap: "(txs (jn s))(a := tx) = txs (jn s)" using run_op_retry [OF run r] by simp
  have path: "path ?s ino' = path s ino'" for ino' by (rule path_cong) (simp_all add: heap)
  with inv have "jinv X objs ?s" unfolding jinv_def heap by (auto split: if_splits)
  with path show ?thesis by (simp add: step_ok_def jview_def ops_of_def heap)
qed

text \<open>A transaction that is fetched for the first time comes last on the path of its directory.\<close>

lemma fetch_new:
  assumes inv: "jinv X objs s" and none: "rm_find (jmap (jn s)) ino = None" and get: "get_entry ino (jn s) = (a, j)"
  shows "a = next_tx (jn s)"
    and "j = (jn s)\<lparr>jmap := jmap (jn s) @ [(ino, a)], txs := (txs (jn s))(a := transaction_new ino), next_tx := Suc a\<rparr>"
    and "\<And>h ino'. path (s\<lparr>jn := j, held := h\<rparr>) ino' = path s ino' @ (if ino' = ino then [a] else [])"
    and "\<And>ino'. a \<notin> set (path s ino')"
proof -
  show j: "a = next_tx (jn s)" "j = (jn s)\<lparr>jmap := jmap (jn s) @ [(ino, a)], txs := (txs (jn s))(a := transaction_new ino), next_tx := Suc a\<rparr>"
    using none get by (auto simp: get_entry_def rm_simps Let_def)
  have "Some a \<notin> set (queues (jn s) i)" for i
    using jinvD(5) [OF inv, of a i] j(1) by auto
  then have queued: "queued j ino' = queued (jn s) ino'" for ino'
    by (auto simp: queued_def j(2) set_addrs intro!: filter_cong)
  show "path (s\<lparr>jn := j, held := h\<rparr>) ino' = path s ino' @ (if ino' = ino then [a] else [])" for h ino'
    using none queued by (simp add: path_def) (simp add: j(2) waiting_snoc)
  show "a \<notin> set (path s ino')" for ino' using path_member(3) [OF inv, of a ino'] j(1) by auto
qed

lemma fetch_ok:
  assumes inv: "jinv X objs s" and ino: "is_uuid ino" and get: "get_entry ino (jn s) = (a, j)"
  shows "step_ok X objs s [] (s\<lparr>jn := j, held := (held s)(ino \<mapsto> (op, a))\<rparr>)"
    (is "step_ok X objs s _ ?s")
proof (cases "rm_find (jmap (jn s)) ino")
  case (Some b)
  with get have j: "j = jn s" "b = a" by (simp_all add: get_entry_def)
  have path: "path ?s ino' = path s ino'" for ino' by (rule path_cong) (simp_all add: j)
  have last: "path s ino \<noteq> [] \<and> last (path s ino) = a"
    using Some j(2) waiting_eq [OF jinvD(2) [OF inv], of ino] by (simp add: path_def)
  have "a < next_tx (jn s)" using jinvD(8) [OF inv, of ino a] Some j(2) by (auto dest: map_of_SomeD)
  with inv last path have "jinv X objs ?s" unfolding jinv_def j by (auto split: if_splits)
  with path show ?thesis by (simp add: step_ok_def jview_def ops_of_def j)
next
  case None
  let ?h = "txs (jn s)" and ?h' = "(txs (jn s))(a := transaction_new ino)"
  note j = fetch_new(1,2) [OF inv None get] and path = fetch_new(3) [OF inv None get] and fresh = fetch_new(4) [OF inv None get]
  have "jinv X objs ?s"
    unfolding jinv_def
  proof (intro conjI allI impI)
    show "rm_wf (jmap (jn ?s))" using rm_wf_snoc [OF jinvD(2) [OF inv] None] j(2) by simp
    show "store_ok objs (pool ?s)" "dirs_ok X objs (pool ?s)" "rm_wf (pending ?s)" using jinvD(1,3,12) [OF inv] by simp_all
    show "distinct (path ?s ino')" for ino' using jinvD(9) [OF inv, of ino'] fresh by (simp add: path)
  next
    fix i b assume b: "Some b \<in> set (queues (jn ?s) i)"
    then have b': "Some b \<in> set (queues (jn s) i)" by (simp add: j(2))
    from jinvD(5) [OF inv b'] j(1) have ne: "b \<noteq> a" by simp
    show "queue_of (s_ino (txs (jn ?s) b)) = i" "wf_tx (txs (jn ?s) b)" "committed (txs (jn ?s) b)" "b < next_tx (jn ?s)"
      using jinvD(4-7) [OF inv b'] ne by (simp_all add: j)
  next
    fix ino' b assume b: "(ino', b) \<in> set (pending ?s) \<union> set (jmap (jn ?s))"
    then have "(ino', b) \<in> set (pending s) \<union> set (jmap (jn s)) \<or> ino' = ino \<and> b = a" by (auto simp: j(2))
    then have "b < Suc a \<and> wf_tx (?h' b) \<and> \<not> committed (?h' b) \<and> s_ino (?h' b) = ino'"
    proof
      assume "(ino', b) \<in> set (pending s) \<union> set (jmap (jn s))"
      from jinvD(8) [OF inv this] j(1) show ?thesis by auto
    qed (use ino wf_tx_new in \<open>auto simp: transaction_new_def\<close>)
    then show "b < next_tx (jn ?s)" "wf_tx (txs (jn ?s) b)" "\<not> committed (txs (jn ?s) b)" "s_ino (txs (jn ?s) b) = ino'"
      by (simp_all add: j(2))
  next
    fix ino' op' b assume "held ?s ino' = Some (op', b)"
    then have hb: "ino' = ino \<and> b = a \<or> ino' \<noteq> ino \<and> held s ino' = Some (op', b)" by (auto split: if_splits)
    then show "b < next_tx (jn ?s)" using jinvD(10) [OF inv, of ino' op' b] j(1) by (auto simp: j(2))
    from hb have "committed (txs j b) \<or> path s ino' @ (if ino' = ino then [a] else []) \<noteq> []
        \<and> last (path s ino' @ (if ino' = ino then [a] else [])) = b"
      using jinvD(10,11) [OF inv, of ino' op' b] j(1) by (auto simp: j(2))
    then show "committed (txs (jn ?s) b) \<or> path ?s ino' \<noteq> [] \<and> last (path ?s ino') = b"
      unfolding path by simp
  qed
  moreover have "jview X objs ?s ino' v" if "jview X objs s ino' v" for ino' v
  proof -
    from that obtain v0 where v0: "dir_at X objs (pool s) ino' v0" "v = tx_fold ?h (path s ino') v0" by (auto simp: jview_def)
    have "tx_fold ?h' (path s ino') v0 = tx_fold ?h (path s ino') v0" using fresh [of ino'] by (intro tx_fold_cong) auto
    then have "tx_fold ?h' (path ?s ino') v0 = v" using v0(2) unfolding path tx_fold_append by (simp add: tx_fold_def)
    then show ?thesis using v0(1) by (auto simp: jview_def j(2))
  qed
  ultimately show ?thesis by (simp add: step_ok_def ops_of_def)
qed

lemma swap_ok:
  assumes inv: "jinv X objs s" and idle: "pending s = []" and rep: "replace_map (jn s) = (m, j)"
  shows "step_ok X objs s [] (s\<lparr>jn := j, pending := m\<rparr>)" (is "step_ok X objs s _ ?s")
proof -
  have j: "m = jmap (jn s)" "j = (jn s)\<lparr>jmap := []\<rparr>" using rep by (simp_all add: replace_map_def)
  have path: "path ?s ino = path s ino" for ino
    by (simp add: path_def queued_def j idle) (simp add: waiting_def)
  have "jinv X objs ?s" using inv path idle unfolding jinv_def j by simp
  with path show ?thesis by (simp add: step_ok_def jview_def ops_of_def j)
qed

text \<open>The commit thread\<close>

lemma tx_flags [simp]:
  "wf_tx (tx\<lparr>committed := b, tx_offset := n\<rparr>) = wf_tx tx"
  "tx_view (tx\<lparr>committed := b, tx_offset := n\<rparr>) = tx_view tx"
  by (simp add: wf_tx_def split: option.split) (rule tx_view_cong; simp)

lemma commit_path:
  assumes inv: "jinv X objs s" and p: "pending s = (ino, a) # rest"
    and j: "j = issue_to (queue_of ino) (Some a) ((jn s)\<lparr>txs := (txs (jn s))(a := (txs (jn s) a)\<lparr>committed := True, tx_offset := off\<rparr>)\<rparr>)"
  shows "path (s\<lparr>jn := j, pending := rest, pool := s'\<rparr>) ino' = path s ino'"
proof -
  let ?h = "txs (jn s)" and ?i = "queue_of ino"
  let ?h' = "?h(a := (?h a)\<lparr>committed := True, tx_offset := off\<rparr>)"
  have tx: "s_ino (?h a) = ino" using jinvD(8) [OF inv, of ino a] p by auto
  have js: "jmap j = jmap (jn s)" "txs j = ?h'" "queues j = (queues (jn s))(?i := queues (jn s) ?i @ [Some a])"
    by (simp_all add: j issue_to_def issue_def)
  have h: "s_ino (?h' b) = s_ino (?h b)" for b by (cases "b = a"; simp)
  have "ino \<notin> fst ` set rest" using jinvD(3) [OF inv] p by simp
  then have rest: "waiting rest ino' = (if ino' = ino then [] else waiting (pending s) ino')"
    and first: "waiting (pending s) ino = [a]"
    by (auto simp: waiting_def p filter_empty_conv image_iff)
  have "queued j ino' = queued (jn s) ino' @ (if ino' = ino then [a] else [])"
    using tx by (simp add: queued_def js h del: fun_upd_apply) (simp add: queued_def)
  then show ?thesis by (simp add: path_def rest first js(1))
qed

lemma checkpoint_path:
  assumes inv: "jinv X objs s" and q: "queues (jn s) i = Some a # q" and j: "j = (jn s)\<lparr>queues := (queues (jn s))(i := q)\<rparr>"
  shows "path s ino = (if ino = s_ino (txs (jn s) a) then a # path (s\<lparr>jn := j, pool := s'\<rparr>) ino else path (s\<lparr>jn := j, pool := s'\<rparr>) ino)"
proof -
  have "queue_of (s_ino (txs (jn s) a)) = i" using jinvD(4) [OF inv, of a i] q by simp
  then have "queued (jn s) ino = (if ino = s_ino (txs (jn s) a) then a # queued j ino else queued j ino)"
    using q by (auto simp: queued_def j)
  then show ?thesis by (simp add: path_def j)
qed

context cluster
begin

lemma commit_one_at:
  assumes inv: "jinv X objs s" and p: "pending s = (ino, a) # rest"
    and c: "commit_one X ino a (jn s, pool s) = Some (Inr (), j, s')"
  obtains off where "j = issue_to (queue_of ino) (Some a) ((jn s)\<lparr>txs := (txs (jn s))(a := (txs (jn s) a)\<lparr>committed := True, tx_offset := off\<rparr>)\<rparr>)"
    and "store_ok objs s'" and "files_same objs {(JOURNAL, uuid_to_string X ino)} (pool s) s'"
proof -
  let ?tx = "txs (jn s) a"
  have tx: "wf_tx ?tx" "\<not> committed ?tx" "s_ino ?tx = ino" using jinvD(8) [OF inv, of ino a] p by auto
  obtain raw where raw: "tx_serialize ?tx = Inr raw" using tx_serialize_wf [OF tx(1)] by blast
  obtain f where f: "rados_file objs (pool s) JOURNAL (uuid_to_string X (s_ino ?tx)) f"
    using store_ok_file [OF jinvD(1) [OF inv]] by blast
  obtain s1 where s1: "tx_commit X (?tx, pool s) = Some (Inr (), ?tx\<lparr>committed := True, tx_offset := length f\<rparr>, s1)"
    "store_ok objs s1" "rados_file objs s1 JOURNAL (uuid_to_string X (s_ino ?tx)) (f @ raw)"
    "files_same objs {(JOURNAL, uuid_to_string X (s_ino ?tx))} (pool s) s1"
    by (rule tx_commit_at [OF jinvD(1) [OF inv] tx(1,2) f raw])
  from c s1(1) have "j = issue_to (queue_of ino) (Some a) ((jn s)\<lparr>txs := (txs (jn s))(a := ?tx\<lparr>committed := True, tx_offset := length f\<rparr>)\<rparr>)"
    and "s' = s1" by (simp_all add: commit_one_def Let_def)
  with s1(2,4) tx(3) show thesis by (intro that [of "length f"]) simp_all
qed

lemma commit_ok:
  assumes inv: "jinv X objs s" and p: "pending s = (ino, a) # rest"
    and c: "commit_one X ino a (jn s, pool s) = Some (Inr (), j, s')"
  shows "step_ok X objs s [] (s\<lparr>jn := j, pending := rest, pool := s'\<rparr>)" (is "step_ok X objs s _ ?s")
proof -
  let ?h = "txs (jn s)" and ?i = "queue_of ino"
  obtain off where j: "j = issue_to ?i (Some a) ((jn s)\<lparr>txs := ?h(a := (?h a)\<lparr>committed := True, tx_offset := off\<rparr>)\<rparr>)"
    and ok: "store_ok objs s'" and same: "files_same objs {(JOURNAL, uuid_to_string X ino)} (pool s) s'"
    using commit_one_at [OF inv p c] .
  let ?h' = "?h(a := (?h a)\<lparr>committed := True, tx_offset := off\<rparr>)"
  have tx: "a < next_tx (jn s)" "wf_tx (?h a)" "s_ino (?h a) = ino" using jinvD(8) [OF inv, of ino a] p by auto
  have js: "jmap j = jmap (jn s)" "txs j = ?h'" "next_tx j = next_tx (jn s)" "queues j = (queues (jn s))(?i := queues (jn s) ?i @ [Some a])"
    by (simp_all add: j issue_to_def issue_def)
  have h: "s_ino (?h' b) = s_ino (?h b)" "tx_view (?h' b) = tx_view (?h b)" "wf_tx (?h' b) = wf_tx (?h b)" for b
    by (cases "b = a"; simp)+
  have "ino \<notin> fst ` set rest" using jinvD(3) [OF inv] p by simp
  then have first: "waiting (pending s) ino = [a]" by (auto simp: waiting_def p filter_empty_conv image_iff)
  have path: "path ?s ino' = path s ino'" for ino' by (rule commit_path [OF inv p j])
  have "jinv X objs ?s"
    unfolding jinv_def
  proof (intro conjI allI impI)
    show "store_ok objs (pool ?s)" "rm_wf (jmap (jn ?s))" "rm_wf (pending ?s)"
      using ok jinvD(2,3) [OF inv] p js(1) by simp_all
    show "dirs_ok X objs (pool ?s)"
      using jinvD(12) [OF inv] dir_at_same [OF same] by (simp add: dirs_ok_def)
    show "distinct (path ?s ino')" for ino' using jinvD(9) [OF inv] by (simp add: path)
  next
    fix i b assume "Some b \<in> set (queues (jn ?s) i)"
    then have "Some b \<in> set (queues (jn s) i) \<or> i = ?i \<and> b = a" by (auto simp: js(4) split: if_splits)
    then have "queue_of (s_ino (?h b)) = i \<and> b < next_tx (jn s) \<and> wf_tx (?h b) \<and> (committed (?h b) \<or> b = a)"
      using jinvD(4-7) [OF inv, of b i] tx by auto
    then show "queue_of (s_ino (txs (jn ?s) b)) = i" "b < next_tx (jn ?s)" "wf_tx (txs (jn ?s) b)" "committed (txs (jn ?s) b)"
      using h [of b] js by auto
  next
    fix ino' b assume b: "(ino', b) \<in> set (pending ?s) \<union> set (jmap (jn ?s))"
    then have b': "(ino', b) \<in> set (pending s) \<union> set (jmap (jn s))" using p js(1) by auto
    have "b \<noteq> a"
    proof
      assume ba: "b = a"
      then have "ino' = ino" using jinvD(8) [OF inv b'] tx(3) by simp
      with b ba \<open>ino \<notin> fst ` set rest\<close> js(1) have "(ino, a) \<in> set (jmap (jn s))" by (auto simp: image_iff)
      then have "a \<in> set (waiting (jmap (jn s)) ino)" by (force simp: waiting_def)
      with first jinvD(9) [OF inv, of ino] show False by (simp add: path_def)
    qed
    with jinvD(8) [OF inv b'] show "b < next_tx (jn ?s)" "wf_tx (txs (jn ?s) b)" "\<not> committed (txs (jn ?s) b)" "s_ino (txs (jn ?s) b) = ino'"
      by (simp_all add: js)
  next
    fix ino' op b assume "held ?s ino' = Some (op, b)"
    then have hb: "held s ino' = Some (op, b)" by simp
    show "b < next_tx (jn ?s)" using jinvD(10) [OF inv hb] js(3) by simp
    show "committed (txs (jn ?s) b) \<or> path ?s ino' \<noteq> [] \<and> last (path ?s ino') = b"
      using jinvD(11) [OF inv hb] js(2) path by auto
  qed
  moreover have "jview X objs ?s ino' v" if "jview X objs s ino' v" for ino' v
  proof -
    have "tx_fold ?h' (path s ino') v0 = tx_fold ?h (path s ino') v0" for v0 by (rule tx_fold_cong) (rule h(2))
    with that dir_at_same [OF same] show ?thesis by (auto simp: jview_def path js(2))
  qed
  ultimately show ?thesis by (simp add: step_ok_def ops_of_def)
qed

text \<open>The checkpoint threads\<close>

lemma checkpoint_one_at:
  assumes inv: "jinv X objs s" and q: "queues (jn s) i = Some a # q" and f: "fits X objs (pool s) (txs (jn s) a)"
    and c: "checkpoint_one X i (jn s, pool s) = Some (Inr True, j, s')"
  shows "j = (jn s)\<lparr>queues := (queues (jn s))(i := q)\<rparr>" and "store_ok objs s'"
    and "dir_at X objs (pool s) (s_ino (txs (jn s) a)) v \<Longrightarrow> dir_at X objs s' (s_ino (txs (jn s) a)) (tx_view (txs (jn s) a) v)"
    and "is_uuid ino \<Longrightarrow> ino \<noteq> s_ino (txs (jn s) a) \<Longrightarrow> dir_at X objs s' ino w \<longleftrightarrow> dir_at X objs (pool s) ino w"
    and "files_same objs (insert (JOURNAL, uuid_to_string X (s_ino (txs (jn s) a))) (tx_files X (txs (jn s) a))) (pool s) s'"
    and "status (txs (jn s) a) \<noteq> S_DELETED \<Longrightarrow> \<forall>n \<in> tx_inodes (txs (jn s) a). inode_at X objs s' n"
proof -
  let ?tx = "txs (jn s) a"
  have wf: "wf_tx ?tx" using jinvD(6) [OF inv, of a i] q by simp
  then have u: "is_uuid (s_ino ?tx)" by (simp add: wf_tx_def)
  have j: "j = (jn s)\<lparr>queues := (queues (jn s))(i := q)\<rparr>" and run: "tx_checkpoint X ?tx (pool s) = Some (Inr (), s')"
    using c q by (auto simp: checkpoint_one_def dispatch_def Let_def split: option.splits sum.splits)
  have live: "v \<noteq> None" if "dir_at X objs (pool s) (s_ino ?tx) v" "status ?tx = S_UNCHANGED" for v
  proof
    assume "v = None"
    with tx_sync_missing [OF jinvD(1) [OF inv] wf that(2)] that(1) obtain s2
      where "tx_sync X ?tx (pool s) = Some (Inl (Runtime_error ''Dentry Corrupted''), s2)" by blast
    with run show False by (simp add: tx_checkpoint_def bnd_def)
  qed
  have at: "store_ok objs s' \<and> dir_at X objs s' (s_ino ?tx) (tx_view ?tx v)
      \<and> files_same objs (insert (JOURNAL, uuid_to_string X (s_ino ?tx)) (tx_files X ?tx)) (pool s) s'
      \<and> (status ?tx \<noteq> S_DELETED \<longrightarrow> (\<forall>n \<in> tx_inodes ?tx. inode_at X objs s' n))"
    if v: "dir_at X objs (pool s) (s_ino ?tx) v" for v
  proof -
    have "dir_bytes m \<le> OBJ_SIZE" if "tx_view ?tx v = Some m" for m
      using f v that by (simp add: fits_def MAX_DENTRY_OBJ_SIZE_def)
    with tx_checkpoint_at [OF jinvD(1) [OF inv] wf v live [OF v]] obtain s2
      where "tx_checkpoint X ?tx (pool s) = Some (Inr (), s2)" "store_ok objs s2" "dir_at X objs s2 (s_ino ?tx) (tx_view ?tx v)"
        "files_same objs (insert (JOURNAL, uuid_to_string X (s_ino ?tx)) (tx_files X ?tx)) (pool s) s2"
        "status ?tx \<noteq> S_DELETED \<Longrightarrow> \<forall>n \<in> tx_inodes ?tx. inode_at X objs s2 n" by metis
    with run show ?thesis by simp
  qed
  obtain v0 where "dir_at X objs (pool s) (s_ino ?tx) v0" using jinvD(12) [OF inv] u by (auto simp: dirs_ok_def)
  note v0 = at [OF this]
  show "j = (jn s)\<lparr>queues := (queues (jn s))(i := q)\<rparr>" by (rule j)
  show "store_ok objs s'" "files_same objs (insert (JOURNAL, uuid_to_string X (s_ino ?tx)) (tx_files X ?tx)) (pool s) s'" using v0 by simp_all
  show "\<forall>n \<in> tx_inodes ?tx. inode_at X objs s' n" if "status ?tx \<noteq> S_DELETED" using v0 that by simp
  show "dir_at X objs s' (s_ino ?tx) (tx_view ?tx v)" if "dir_at X objs (pool s) (s_ino ?tx) v" using at [OF that] by simp
  show "dir_at X objs s' ino w \<longleftrightarrow> dir_at X objs (pool s) ino w" if "is_uuid ino" "ino \<noteq> s_ino ?tx"
    by (rule dir_at_same) (use v0 that u in \<open>auto simp: tx_files_def uuid_to_string_eq_iff\<close>)
qed

lemma checkpoint_ok:
  assumes inv: "jinv X objs s" and q: "queues (jn s) i = Some a # q" and f: "fits X objs (pool s) (txs (jn s) a)"
    and c: "checkpoint_one X i (jn s, pool s) = Some (Inr True, j, s')"
  shows "step_ok X objs s [] (s\<lparr>jn := j, pool := s'\<rparr>)" (is "step_ok X objs s _ ?s")
proof -
  let ?tx = "txs (jn s) a" and ?ino = "s_ino (txs (jn s) a)"
  note at = checkpoint_one_at [OF inv q f c]
  have com: "committed ?tx" using jinvD(7) [OF inv, of a i] q by simp
  have path: "path s ino = (if ino = ?ino then a # path ?s ino else path ?s ino)" for ino by (rule checkpoint_path [OF inv q at(1)])
  have "jinv X objs ?s"
    unfolding jinv_def
  proof (intro conjI allI impI)
    show "store_ok objs (pool ?s)" "rm_wf (jmap (jn ?s))" "rm_wf (pending ?s)"
      using at(2) jinvD(2,3) [OF inv] by (simp_all add: at(1))
    show "dirs_ok X objs (pool ?s)"
      unfolding dirs_ok_def
    proof (intro allI impI)
      fix ino :: uuid assume ino: "is_uuid ino"
      then obtain v where "dir_at X objs (pool s) ino v" using jinvD(12) [OF inv] by (auto simp: dirs_ok_def)
      with at(3,4) ino show "\<exists>v. dir_at X objs (pool ?s) ino v" by (cases "ino = ?ino") auto
    qed
    show "distinct (path ?s ino)" for ino using jinvD(9) [OF inv, of ino] path [of ino] by (simp split: if_splits)
  next
    fix k b assume "Some b \<in> set (queues (jn ?s) k)"
    then have "Some b \<in> set (queues (jn s) k)" using q by (auto simp: at(1) split: if_splits)
    from jinvD(4-7) [OF inv this]
    show "queue_of (s_ino (txs (jn ?s) b)) = k" "b < next_tx (jn ?s)" "wf_tx (txs (jn ?s) b)" "committed (txs (jn ?s) b)"
      by (simp_all add: at(1))
  next
    fix ino b assume "(ino, b) \<in> set (pending ?s) \<union> set (jmap (jn ?s))"
    then have "(ino, b) \<in> set (pending s) \<union> set (jmap (jn s))" by (simp add: at(1))
    from jinvD(8) [OF inv this]
    show "b < next_tx (jn ?s)" "wf_tx (txs (jn ?s) b)" "\<not> committed (txs (jn ?s) b)" "s_ino (txs (jn ?s) b) = ino"
      by (simp_all add: at(1))
  next
    fix ino op b assume "held ?s ino = Some (op, b)"
    then have hb: "held s ino = Some (op, b)" by simp
    show "b < next_tx (jn ?s)" using jinvD(10) [OF inv hb] by (simp add: at(1))
    have "path ?s ino \<noteq> [] \<and> last (path ?s ino) = b" if "\<not> committed (txs (jn s) b)"
      using jinvD(11) [OF inv hb that] path [of ino] com that by (auto split: if_splits)
    then show "committed (txs (jn ?s) b) \<or> path ?s ino \<noteq> [] \<and> last (path ?s ino) = b" by (auto simp: at(1))
  qed
  moreover have "jview X objs ?s ino v" if ino: "is_uuid ino" and "jview X objs s ino v" for ino v
  proof -
    from that(2) obtain v0 where v0: "dir_at X objs (pool s) ino v0" "v = tx_fold (txs (jn s)) (path s ino) v0"
      by (auto simp: jview_def)
    show ?thesis
    proof (cases "ino = ?ino")
      case True
      then have "v = tx_fold (txs (jn s)) (path ?s ino) (tx_view ?tx v0)" using v0(2) path [of ino] by (simp add: tx_fold_def)
      with at(3) v0(1) True show ?thesis by (auto simp: jview_def at(1))
    next
      case False
      with at(4) [OF ino] v0 path [of ino] show ?thesis by (auto simp: jview_def at(1))
    qed
  qed
  ultimately show ?thesis by (simp add: step_ok_def ops_of_def)
qed

section \<open>Runs\<close>

lemma jstep_ok: "jstep X objs s l s' \<Longrightarrow> jinv X objs s \<Longrightarrow> step_ok X objs s l s'"
  by (induction rule: jstep.induct) (auto intro: fetch_ok complete_ok retry_ok swap_ok commit_ok checkpoint_ok)

lemma jrun_inv: "jrun X objs s tr s' \<Longrightarrow> jinv X objs s \<Longrightarrow> jinv X objs s'"
  by (induction rule: jrun.induct) (use jstep_ok in \<open>auto simp: step_ok_def\<close>)

lemma ops_of_append: "ops_of ino (tr @ l) = ops_of ino tr @ ops_of ino l"
  by (simp add: ops_of_def)

text \<open>The contents of a directory are always the effects of the completed operations, in order.\<close>

lemma jrun_view:
  assumes "jrun X objs s tr s'" and "jinv X objs s" and "is_uuid ino" and "jview X objs s ino v"
  shows "jinv X objs s' \<and> jview X objs s' ino (fold op_effect (ops_of ino tr) v)"
  using assms
proof (induction rule: jrun.induct)
  case (nothing s)
  then show ?case by (simp add: ops_of_def)
next
  case (more s tr s1 l s2)
  from more.IH [OF more.prems] have "jinv X objs s1" "jview X objs s1 ino (fold op_effect (ops_of ino tr) v)" by simp_all
  with jstep_ok [OF more.hyps(2)] more.prems(2) show ?case by (auto simp: step_ok_def ops_of_append)
qed

text \<open>When nothing is under way any more, the pool itself holds these contents.\<close>

lemma jrun_durable:
  assumes run: "jrun X objs (jinit s) tr s'" and ok: "store_ok objs s" "dirs_ok X objs s"
    and ino: "is_uuid ino" and v: "dir_at X objs s ino v" and idle: "path s' ino = []"
  shows "dir_at X objs (pool s') ino (fold op_effect (ops_of ino tr) v)"
proof -
  have "jview X objs (jinit s) ino v"
    using v by (auto simp: jview_def jinit_def path_def queued_def waiting_def journal_new_def tx_fold_def)
  from jrun_view [OF run jinv_init [OF ok] ino this] idle show ?thesis by (auto simp: jview_def tx_fold_def)
qed

text \<open>The threads are not stuck: a transaction that waits for its commit can be committed, and a
  queued one can be checkpointed.\<close>

lemma commit_progress:
  assumes inv: "jinv X objs s" and p: "pending s = (ino, a) # rest"
  obtains j s' where "commit_one X ino a (jn s, pool s) = Some (Inr (), j, s')"
proof -
  let ?tx = "txs (jn s) a"
  have tx: "wf_tx ?tx" "\<not> committed ?tx" using jinvD(8) [OF inv, of ino a] p by auto
  obtain raw where raw: "tx_serialize ?tx = Inr raw" using tx_serialize_wf [OF tx(1)] by blast
  obtain f where f: "rados_file objs (pool s) JOURNAL (uuid_to_string X (s_ino ?tx)) f"
    using store_ok_file [OF jinvD(1) [OF inv]] by blast
  obtain s1 where "tx_commit X (?tx, pool s) = Some (Inr (), ?tx\<lparr>committed := True, tx_offset := length f\<rparr>, s1)"
    by (rule tx_commit_at [OF jinvD(1) [OF inv] tx f raw])
  then show thesis using that by (simp add: commit_one_def Let_def)
qed

lemma checkpoint_progress:
  assumes inv: "jinv X objs s" and q: "queues (jn s) i = Some a # q" and f: "fits X objs (pool s) (txs (jn s) a)"
    and at: "dir_at X objs (pool s) (s_ino (txs (jn s) a)) v" and live: "status (txs (jn s) a) = S_UNCHANGED \<Longrightarrow> v \<noteq> None"
  obtains j s' where "checkpoint_one X i (jn s, pool s) = Some (Inr True, j, s')"
proof -
  let ?tx = "txs (jn s) a"
  have wf: "wf_tx ?tx" using jinvD(6) [OF inv, of a i] q by simp
  have "dir_bytes m \<le> OBJ_SIZE" if "tx_view ?tx v = Some m" for m
    using f at that by (simp add: fits_def MAX_DENTRY_OBJ_SIZE_def)
  then obtain s' where "tx_checkpoint X ?tx (pool s) = Some (Inr (), s')"
    using tx_checkpoint_at [OF jinvD(1) [OF inv] wf at live] by blast
  then show thesis using that q by (simp add: checkpoint_one_def dispatch_def Let_def)
qed

end

text \<open>While the table only holds open transactions, an operation of the journal takes the first
  transaction it fetches.\<close>

lemma journal_apply_once:
  assumes "is_uuid ino" and "\<And>a. rm_find (jmap j) ino = Some a \<Longrightarrow> wf_tx (txs j a) \<and> \<not> committed (txs j a)"
    and "get_entry ino j = (a, j1)" and "op_pre op (txs j1 a)"
  shows "\<exists>tx. run_op ino op (txs j1 a) = (Inr 0, tx) \<and> journal_apply ino (run_op ino op) j = Some (Inr (), j1\<lparr>txs := (txs j1)(a := tx)\<rparr>)
    \<and> (\<forall>v. tx_view tx v = op_effect op (tx_view (txs j1 a) v))"
proof -
  have "wf_tx (txs j1 a) \<and> \<not> committed (txs j1 a)"
    using assms(1-3) wf_tx_new [of ino]
    by (auto simp: get_entry_def Let_def rm_simps transaction_new_def split: option.splits)
  with run_op_effect [of "txs j1 a" op ino] assms(4) obtain tx
    where tx: "run_op ino op (txs j1 a) = (Inr 0, tx)" "\<forall>v. tx_view tx v = op_effect op (tx_view (txs j1 a) v)"
    by (auto simp: tx_effect_def)
  then have "journal_apply ino (run_op ino op) j = Some (Inr (), j1\<lparr>txs := (txs j1)(a := tx)\<rparr>)"
    using assms(3) by (subst journal_apply.simps) (simp add: Let_def)
  with tx show ?thesis by blast
qed

section \<open>Properties\<close>



text \<open>A run: the root directory is created, committed and checkpointed.\<close>

lemma sample_fetch:
  "get_entry get_root_ino journal_new =
     (0, \<lparr>jmap = [(get_root_ino, 0)], txs = (\<lambda>_. transaction_new nil_uuid)(0 := transaction_new get_root_ino), next_tx = 1,
          queues = (\<lambda>_. []), stopped = False\<rparr>)"
  by (simp add: get_entry_def journal_new_def rm_insert_def)

definition sample_fetched :: "(string \<rightharpoonup> bytes) jsys" where
  "sample_fetched = (jinit Map.empty)\<lparr>jn := snd (get_entry get_root_ino journal_new), held := [get_root_ino \<mapsto> (Mkself sample_root, 0)]\<rparr>"

lemma sample_step1: "jstep mem_ext (\<lambda>M. M) (jinit Map.empty) [] sample_fetched"
  using jstep.fetch [of get_root_ino "jinit Map.empty" 0 "snd (get_entry get_root_ino journal_new)" mem_ext "\<lambda>M. M" "Mkself sample_root"]
  by (simp add: sample_fetched_def jinit_def sample_fetch)

lemma mem_dirs_ok: "dirs_ok mem_ext (\<lambda>M. M) Map.empty"
  using mem_empty_dir by (auto simp: dirs_ok_def)

definition sample_open :: "(string \<rightharpoonup> bytes) jsys \<Rightarrow> bool" where
  "sample_open s \<longleftrightarrow> jmap (jn s) = [(get_root_ino, 0)] \<and> pending s = [] \<and> queues (jn s) = (\<lambda>_. []) \<and> next_tx (jn s) = 1
     \<and> held s = Map.empty \<and> s_ino (txs (jn s) 0) = get_root_ino \<and> status (txs (jn s) 0) = S_CREATED"

lemma sample_completed:
  obtains s where "jrun mem_ext (\<lambda>M. M) (jinit Map.empty) [(get_root_ino, Mkself sample_root)] s" and "sample_open s"
    and "txs (jn s) 0 = snd (tx_mkself sample_root (transaction_new get_root_ino))"
    and "tx_view (txs (jn s) 0) = (\<lambda>v. Some Map.empty)" and "s_inode (txs (jn s) 0) = Some (inode_copy sample_root)"
proof -
  obtain tx where tx: "tx_mkself sample_root (transaction_new get_root_ino) = (Inr 0, tx)"
    "s_ino tx = get_root_ino" "status tx = S_CREATED" "dentries tx = []"
    using sample_mkself [of None] .
  have view: "tx_view tx = (\<lambda>v. Some Map.empty)" using tx(3,4) by (simp add: tx_view_def patch_def fun_eq_iff)
  let ?s = "sample_fetched\<lparr>jn := (jn sample_fetched)\<lparr>txs := (txs (jn sample_fetched))(0 := tx)\<rparr>, held := (held sample_fetched)(get_root_ino := None)\<rparr>"
  have h: "txs (jn sample_fetched) 0 = transaction_new get_root_ino" "held sample_fetched get_root_ino = Some (Mkself sample_root, 0)"
    by (simp_all add: sample_fetched_def sample_fetch)
  have "jstep mem_ext (\<lambda>M. M) sample_fetched [(get_root_ino, Mkself sample_root)] ?s"
    by (rule jstep.complete [OF h(2)]) (use h(1) tx(1) sample_self_ok in \<open>simp_all add: transaction_new_def\<close>)
  from jrun.more [OF jrun.more [OF jrun.nothing sample_step1] this]
  have "jrun mem_ext (\<lambda>M. M) (jinit Map.empty) [(get_root_ino, Mkself sample_root)] ?s" by simp
  then show thesis
    by (rule that) (use tx view in \<open>auto simp: sample_open_def sample_fetched_def jinit_def sample_fetch tx_mkself_def transaction_new_def\<close>)
qed

text \<open>From a state with one open transaction that creates the root directory, it is committed and checkpointed.\<close>

lemma sample_rest:
  assumes s0: "jinv mem_ext (\<lambda>M. M) s0" "jmap (jn s0) = [(get_root_ino, 0)]" "pending s0 = []"
    "queues (jn s0) = (\<lambda>_. [])" "txs (jn s0) 0 = tx" "s_ino tx = get_root_ino" "status tx = S_CREATED" "tx_view tx = (\<lambda>v. Some m)"
    "dir_bytes m \<le> OBJ_SIZE" "next_tx (jn s0) = 1"
  obtains s where "jrun mem_ext (\<lambda>M. M) s0 [] s" and "path s get_root_ino = []"
    and "\<And>i. i \<in> tx_inodes tx \<Longrightarrow> inode_at mem_ext (\<lambda>M. M) (pool s) i"
    and "next_tx (jn s) = 1" and "s_ino (txs (jn s) 0) = get_root_ino"
proof -
  let ?i = "queue_of get_root_ino"
  note keep = mem.jrun_inv [OF _ s0(1)]
  let ?s1 = "s0\<lparr>jn := (jn s0)\<lparr>jmap := []\<rparr>, pending := [(get_root_ino, 0)]\<rparr>"
  have "jstep mem_ext (\<lambda>M. M) s0 [] ?s1" by (rule jstep.swap [OF s0(3)]) (simp add: replace_map_def s0(2))
  from jrun.more [OF jrun.nothing this] have r1: "jrun mem_ext (\<lambda>M. M) s0 [] ?s1" by simp
  then have inv1: "jinv mem_ext (\<lambda>M. M) ?s1" by (rule keep)
  obtain j2 p2 where c: "commit_one mem_ext get_root_ino 0 (jn ?s1, pool ?s1) = Some (Inr (), j2, p2)"
    using mem.commit_progress [OF inv1, of get_root_ino 0 "[]"] by auto
  let ?s2 = "?s1\<lparr>jn := j2, pending := [], pool := p2\<rparr>"
  have "jstep mem_ext (\<lambda>M. M) ?s1 [] ?s2" by (rule jstep.commit [OF _ c]) simp
  from jrun.more [OF r1 this] have r2: "jrun mem_ext (\<lambda>M. M) s0 [] ?s2" by simp
  then have inv2: "jinv mem_ext (\<lambda>M. M) ?s2" by (rule keep)
  obtain off where j2: "j2 = issue_to ?i (Some 0) ((jn ?s1)\<lparr>txs := (txs (jn ?s1))(0 := (txs (jn ?s1) 0)\<lparr>committed := True, tx_offset := off\<rparr>)\<rparr>)"
    using mem.commit_one_at [OF inv1 _ c, of "[]"] by auto
  then have t2: "queues j2 = (\<lambda>_. [])(?i := [Some 0])" "txs j2 0 = tx\<lparr>committed := True, tx_offset := off\<rparr>" "jmap j2 = []" "next_tx j2 = 1"
    using s0(4,5,10) by (simp_all add: issue_to_def issue_def)
  have "dirs_ok mem_ext (\<lambda>M. M) p2" using jinvD(12) [OF inv2] by simp
  then obtain v where v: "dir_at mem_ext (\<lambda>M. M) p2 get_root_ino v"
    using is_uuid_root unfolding dirs_ok_def by blast
  have fit: "fits mem_ext (\<lambda>M. M) (pool ?s2) (txs (jn ?s2) 0)"
    using t2(2) s0(8,9) by (auto simp: fits_def MAX_DENTRY_OBJ_SIZE_def)
  obtain j3 p3 where k: "checkpoint_one mem_ext ?i (jn ?s2, pool ?s2) = Some (Inr True, j3, p3)"
    by (rule mem.checkpoint_progress [OF inv2 _ fit, of ?i "[]" v]) (use t2 v s0(6,7) in simp_all)
  have q2: "queues (jn ?s2) ?i = Some 0 # []" using t2(1) by simp
  let ?s3 = "?s2\<lparr>jn := j3, pool := p3\<rparr>"
  have "jstep mem_ext (\<lambda>M. M) ?s2 [] ?s3" by (rule jstep.checkpoint [OF q2 fit k])
  from jrun.more [OF r2 this] have r3: "jrun mem_ext (\<lambda>M. M) s0 [] ?s3" by simp
  have "j3 = j2\<lparr>queues := (queues j2)(?i := [])\<rparr>" using mem.checkpoint_one_at(1) [OF inv2 q2 fit k] by simp
  then have "path ?s3 get_root_ino = []" "next_tx (jn ?s3) = 1" "s_ino (txs (jn ?s3) 0) = get_root_ino"
    using t2 s0(6) by (simp_all add: path_def queued_def waiting_def)
  moreover have "\<And>i. i \<in> tx_inodes tx \<Longrightarrow> inode_at mem_ext (\<lambda>M. M) (pool ?s3) i"
    using mem.checkpoint_one_at(6) [OF inv2 q2 fit k] t2(2) s0(7) by (simp add: tx_inodes_def)
  ultimately show thesis using r3 by (intro that)
qed

lemma sample_finished:
  obtains s where "jrun mem_ext (\<lambda>M. M) (jinit Map.empty) [(get_root_ino, Mkself sample_root)] s" and "path s get_root_ino = []"
    and "inode_at mem_ext (\<lambda>M. M) (pool s) (inode_copy sample_root)"
proof -
  obtain s0 where s0: "jrun mem_ext (\<lambda>M. M) (jinit Map.empty) [(get_root_ino, Mkself sample_root)] s0" "sample_open s0"
    "tx_view (txs (jn s0) 0) = (\<lambda>v. Some Map.empty)" "s_inode (txs (jn s0) 0) = Some (inode_copy sample_root)"
    using sample_completed .
  have inv: "jinv mem_ext (\<lambda>M. M) s0" by (rule mem.jrun_inv [OF s0(1) jinv_init [OF mem_empty_ok mem_dirs_ok]])
  show thesis
  proof (rule sample_rest [OF inv _ _ _ refl _ _ s0(3) sample_dir_bytes(2)])
    fix s assume s: "jrun mem_ext (\<lambda>M. M) s0 [] s" "path s get_root_ino = []"
      "\<And>i. i \<in> tx_inodes (txs (jn s0) 0) \<Longrightarrow> inode_at mem_ext (\<lambda>M. M) (pool s) i"
    show thesis by (rule that [OF _ s(2)]) (use jrun_append [OF s(1) s0(1)] s(3) s0(4) in \<open>simp_all add: tx_inodes_def\<close>)
  qed (use s0(2) in \<open>simp_all add: sample_open_def\<close>)
qed





text \<open>A transaction takes each operation with exactly its effect on the view of the directory, and
  stays well formed and open; once committed it takes none, and answers \<open>-1\<close> so that the caller
  fetches the next one.\<close>

theorem tx_operation_effect:
  assumes "wf_tx tx" and "op_pre op tx"
  shows "(committed tx \<longrightarrow> run_op ino op tx = (Inr (- 1), tx))
    \<and> (\<not> committed tx \<longrightarrow> (\<exists>tx'. run_op ino op tx = (Inr 0, tx') \<and> wf_tx tx' \<and> \<not> committed tx' \<and> s_ino tx' = s_ino tx
        \<and> (\<forall>v. tx_view tx' v = op_effect op (tx_view tx v))))"
  using run_op_committed [of tx ino op] run_op_effect [OF assms(1) _ assms(2), of ino] by (auto simp: tx_effect_def)

theorem tx_operation_effect_witness:
  "\<exists>tx'. run_op get_root_ino (Mkself sample_root) (transaction_new get_root_ino) = (Inr 0, tx') \<and> wf_tx tx'
     \<and> (\<forall>v. tx_view tx' v = Some Map.empty)"
  using tx_operation_effect [OF wf_tx_new [OF is_uuid_root], of "Mkself sample_root" get_root_ino] sample_self_ok
  by (auto simp: transaction_new_def)

text \<open>The queues between the commit thread and the checkpoint threads hand out transactions in the
  order in which they were committed.\<close>

theorem mqueue_in_order:
  "fold issue xs q = q @ xs \<and> (dispatch (issue x q) = Some (y, q') \<longrightarrow> q @ [x] = y # q')"
  using mq.contents_puts [of xs q] mq.get_Some_iff [of "issue x q" y q'] by (simp add: issue_def)

theorem mqueue_in_order_witness: "fold issue [2, 3] [1 :: nat] = [1, 2, 3] \<and> [1] @ [2] = 1 # [2 :: nat]"
  using mqueue_in_order [of "[2, 3]" "[1]" 2 1 "[2]"] by (simp add: dispatch_def issue_def)

end
