(* ===== verification/Local_Ops.thy ===== *)
theory Local_Ops
  imports Directory_Table Journal_Spec
begin

text \<open>
  The file system operations on directories this client leads (\<open>client/fs_ops/local_ops.cpp\<close>).
  An argument \<open>shared_ptr<inode>\<close> is an address of the inode heap. The mutexes of a directory and
  of an inode make an operation atomic for the other operations, so each is one program.

  Sizes and offsets that an operation computes with are 64-bit words; the pool takes them as
  numbers, and offsets are not negative, as FUSE passes them.
\<close>

definition ENOTDIR :: int where "ENOTDIR = 20"
definition EISDIR :: int where "EISDIR = 21"
definition EINVAL :: int where "EINVAL = 22"
definition ENOSYS :: int where "ENOSYS = 38"
definition ENOTEMPTY :: int where "ENOTEMPTY = 39"
definition ELOOP :: int where "ELOOP = 40"
definition EEXIST :: int where "EEXIST = 17"

definition O_TRUNC :: "32 word" where "O_TRUNC = 0x200"
definition O_APPEND :: "32 word" where "O_APPEND = 0x400"
definition O_DIRECTORY :: "32 word" where "O_DIRECTORY = 0x10000"
definition O_NOFOLLOW :: "32 word" where "O_NOFOLLOW = 0x20000"
definition O_PATH :: "32 word" where "O_PATH = 0x200000"

definition UTIME_NOW :: "64 word" where "UTIME_NOW = 0x3FFFFFFF"
definition UTIME_OMIT :: "64 word" where "UTIME_OMIT = 0x3FFFFFFE"

text \<open>The parts of \<open>fuse_file_info\<close> the operations use\<close>

record fuse_file_info =
  fi_flags :: "32 word"
  fi_fh :: nat

section \<open>Fragments the operations share\<close>

text \<open>Following a \<open>shared_ptr\<close> that may be null\<close>

definition deref :: "nat option \<Rightarrow> (nat, 's) cprog" where
  "deref p = (case p of None \<Rightarrow> throw (Crash ''null pointer'') | Some a \<Rightarrow> ret a)"

text \<open>\<open>struct timespec ts{}; timespec_get(&ts, TIME_UTC);\<close> the time stays zero when the call fails\<close>

definition get_ts :: "'s env \<Rightarrow> (timespec, 's) cprog" where
  "get_ts E =
     bnd (sys_call (utc_time E)) (\<lambda>t. ret (case t of None \<Rightarrow> \<lparr>tv_sec = 0, tv_nsec = 0\<rparr> | Some ts \<Rightarrow> ts))"

text \<open>The same, with the check that \<open>local_utimens\<close> makes\<close>

definition get_ts_checked :: "'s env \<Rightarrow> (timespec, 's) cprog" where
  "get_ts_checked E =
     bnd (sys_call (utc_time E)) (\<lambda>t.
       case t of None \<Rightarrow> throw (Runtime_error ''timespec_get() failed'') | Some ts \<Rightarrow> ret ts)"

definition set_mtime_ctime :: "'s env \<Rightarrow> nat \<Rightarrow> (unit, 's) cprog" where
  "set_mtime_ctime E a =
     bnd (get_ts E) (\<lambda>ts.
     bnd (upd_inode a (set_mtime ts)) (\<lambda>_.
       upd_inode a (set_ctime ts)))"

text \<open>\<open>make_shared<inode>(parent, uid, gid, mode)\<close>: a file of this client with a fresh number. The
  constructor drops the error of \<open>timespec_get\<close> (it names a \<open>runtime_error\<close> without throwing it).\<close>

definition make_inode :: "'s env \<Rightarrow> uuid \<Rightarrow> 32 word \<Rightarrow> (nat, 's) cprog" where
  "make_inode E parent_ino mode =
     bnd (get_ts E) (\<lambda>ts.
     bnd (sys_call (new_uuid E)) (\<lambda>ino.
     bnd (gets this_client) (\<lambda>c.
       new_iobj \<lparr>base = inode_new ts ino parent_ino (client_uid c) (client_gid c) mode False, remote = None\<rparr>)))"

definition make_symlink :: "'s env \<Rightarrow> uuid \<Rightarrow> 32 word \<Rightarrow> bytes \<Rightarrow> (nat, 's) cprog" where
  "make_symlink E parent_ino mode src =
     bnd (get_ts E) (\<lambda>ts.
     bnd (sys_call (new_uuid E)) (\<lambda>ino.
     bnd (gets this_client) (\<lambda>c.
       new_iobj \<lparr>base = inode_new_symlink ts ino parent_ino (client_uid c) (client_gid c) mode src, remote = None\<rparr>)))"

text \<open>A call of the journal with the present contents of some inodes\<close>

definition with_inode :: "nat \<Rightarrow> (inode \<Rightarrow> (unit, journal) prog) \<Rightarrow> (unit, 's) cprog" where
  "with_inode a f = bnd (gets (\<lambda>st. the_inode st a)) (\<lambda>i. on_journal (f i))"

definition with_inodes :: "nat \<Rightarrow> nat \<Rightarrow> (inode \<Rightarrow> inode \<Rightarrow> (unit, journal) prog) \<Rightarrow> (unit, 's) cprog" where
  "with_inodes p a f = bnd (gets (\<lambda>st. (the_inode st p, the_inode st a))) (\<lambda>(i, j). on_journal (f i j))"

text \<open>\<open>if (S_ISDIR(i->get_mode())) journalctl->chself(i); else journalctl->chreg(i->get_p_ino(), i);\<close>\<close>

definition journal_attr :: "'s env \<Rightarrow> nat \<Rightarrow> (unit, 's) cprog" where
  "journal_attr E a =
     bnd (get_mode E a) (\<lambda>m.
       if S_ISDIR m then with_inode a journal_chself
       else with_inode a (\<lambda>i. journal_chreg (p_ino i) i))"

definition table_of :: "'s env \<Rightarrow> nat \<Rightarrow> (nat option, 's) cprog" where
  "table_of E a = bnd (gets (\<lambda>st. ino_of st a)) (\<lambda>ino. get_dentry_table E ino False)"

section \<open>Attributes and directories\<close>

definition local_getattr :: "nat \<Rightarrow> stat \<Rightarrow> (stat, 's) cprog" where
  "local_getattr i s = gets (\<lambda>st. fill_stat (the_inode st i) s)"

definition local_access :: "'s env \<Rightarrow> nat \<Rightarrow> 32 word \<Rightarrow> (unit, 's) cprog" where
  "local_access E i msk = inode_permission_check E i msk"

definition local_opendir :: "'s env \<Rightarrow> nat \<Rightarrow> fuse_file_info \<Rightarrow> (int \<times> fuse_file_info, 's) cprog" where
  "local_opendir E i fi =
     bnd (get_mode E i) (\<lambda>m.
       if \<not> S_ISDIR m then ret (- ENOTDIR, fi)
       else bnd (open_handle i) (\<lambda>fh. ret (0, fi\<lparr>fi_fh := fh\<rparr>)))"

definition local_releasedir :: "nat \<Rightarrow> fuse_file_info \<Rightarrow> (int, 's) cprog" where
  "local_releasedir i fi = delete_file_handler (fi_fh fi)"

text \<open>The names that are passed to the filler\<close>

definition local_readdir :: "'s env \<Rightarrow> nat \<Rightarrow> (string list, 's) cprog" where
  "local_readdir E i = bnd (table_of E i) (\<lambda>t. bnd (deref t) table_fill_filler)"

text \<open>The result carries the out parameters: the inode and the entries of the new directory.\<close>

definition local_mkdir :: "'s env \<Rightarrow> nat \<Rightarrow> string \<Rightarrow> 32 word \<Rightarrow> (int \<times> nat \<times> dentry, 's) cprog" where
  "local_mkdir E parent_i new_child_name mode =
     bnd (table_of E parent_i) (\<lambda>t.
     bnd (gets (\<lambda>st. ino_of st parent_i)) (\<lambda>parent_ino.
     bnd (make_inode E parent_ino (mode OR S_IFDIR)) (\<lambda>new_i.
     bnd (deref t) (\<lambda>d.
     bnd (create_child_inode d new_child_name new_i) (\<lambda>_.
     bnd (set_mtime_ctime E parent_i) (\<lambda>_.
     bnd (gets (\<lambda>st. ino_of st new_i)) (\<lambda>new_ino.
     bnd (with_inode parent_i (\<lambda>i. journal_mkdir i new_child_name new_ino)) (\<lambda>_.
     bnd (upd_inode new_i (set_size DIR_INODE_SIZE)) (\<lambda>_.
     bnd (on_sys (lift (dentry_new (meta_io E) new_ino True))) (\<lambda>new_d.
     bnd (with_inode new_i journal_mkself) (\<lambda>_.
       ret (0, new_i, new_d))))))))))))"

definition local_rmdir_top :: "'s env \<Rightarrow> nat \<Rightarrow> uuid \<Rightarrow> (int, 's) cprog" where
  "local_rmdir_top E target_i target_ino =
     bnd (get_dentry_table E target_ino False) (\<lambda>t.
       case t of
         None \<Rightarrow> throw (Runtime_error ''directory table is corrupted : Can't find leased directory'')
       | Some d \<Rightarrow>
           bnd (table_get_child_num d) (\<lambda>n.
             if n > 0 then ret (- ENOTEMPTY)
             else
               bnd (on_journal (journal_rmself target_ino)) (\<lambda>_.
               bnd (delete_dentry_table target_ino) (\<lambda>_.
                 ret 0))))"

definition local_rmdir_down :: "'s env \<Rightarrow> nat \<Rightarrow> uuid \<Rightarrow> string \<Rightarrow> (int, 's) cprog" where
  "local_rmdir_down E parent_i target_ino target_name =
     bnd (table_of E parent_i) (\<lambda>t.
       case t of
         None \<Rightarrow> throw (Runtime_error ''directory table is corrupted : Can't find leased directory'')
       | Some d \<Rightarrow>
           bnd (delete_child_inode d target_name) (\<lambda>_.
           bnd (set_mtime_ctime E parent_i) (\<lambda>_.
           bnd (with_inode parent_i (\<lambda>i. journal_rmdir i target_name target_ino)) (\<lambda>_.
           bnd (delete_dentry_table target_ino) (\<lambda>_.
             ret 0)))))"

section \<open>Symbolic links\<close>

definition local_symlink :: "'s env \<Rightarrow> nat \<Rightarrow> bytes \<Rightarrow> string \<Rightarrow> (int, 's) cprog" where
  "local_symlink E dst_parent_i src dst =
     bnd (table_of E dst_parent_i) (\<lambda>t.
     bnd (from_result (get_filename_from_path dst)) (\<lambda>symlink_name.
     bnd (deref t) (\<lambda>d.
     bnd (check_child_inode E d symlink_name) (\<lambda>present.
       if \<not> is_nil present then ret (- EEXIST)
       else
         bnd (gets (\<lambda>st. ino_of st dst_parent_i)) (\<lambda>parent_ino.
         bnd (make_symlink E parent_ino (S_IFLNK OR 0x1FF) src) (\<lambda>symlink_i.
         bnd (upd_inode symlink_i (set_size (of_nat (length (c_string src))))) (\<lambda>_.
         bnd (create_child_inode d symlink_name symlink_i) (\<lambda>_.
         bnd (get_ts E) (\<lambda>_.
         bnd (with_inodes dst_parent_i symlink_i (\<lambda>i l. journal_mkreg i symlink_name l)) (\<lambda>_.
           ret 0))))))))))"

text \<open>\<open>readlink\<close> stores the target and a zero byte into a buffer of \<open>size\<close> bytes; the result carries
  what is stored.\<close>

definition local_readlink :: "'s env \<Rightarrow> nat \<Rightarrow> 64 word \<Rightarrow> (int \<times> bytes, 's) cprog" where
  "local_readlink E i sz =
     bnd (get_mode E i) (\<lambda>m.
       if \<not> S_ISLNK m then ret (- EINVAL, [])
       else
         bnd (gets (\<lambda>st. the_inode st i)) (\<lambda>n.
           (let len = min (ucast (link_target_len (core n))) (sz - 1)
            in case link_target_name n of
                 None \<Rightarrow> throw (Crash ''null link_target_name'')
               | Some name \<Rightarrow>
                   if length name < unat len then throw (Crash ''link_target_name too short'')
                   else if unat sz \<le> unat len then throw (Crash ''buf'')
                   else ret (0, take (unat len) name @ [zero_byte]))))"

section \<open>Renaming\<close>

text \<open>\<open>std::string(new_path).find(old_path) == 0\<close>, and \<open>at\<close> throws \<open>out_of_range\<close> past the end\<close>

definition paradox_check :: "string \<Rightarrow> string \<Rightarrow> exn + bool" where
  "paradox_check old_path new_path =
     (if take (length old_path) new_path = old_path then
        (if length old_path < length new_path then Inr (new_path ! length old_path = path_delimiter)
         else Inl (Logic_error ''basic_string::at''))
      else Inr False)"

text \<open>An entry that the rename replaces\<close>

definition replace_entry :: "nat \<Rightarrow> nat \<Rightarrow> string \<Rightarrow> (unit, 's) cprog" where
  "replace_entry d parent_i new_name =
     bnd (get_child_inode d new_name nil_uuid) (\<lambda>check_dst_inode.
     bnd (delete_child_inode d new_name) (\<lambda>_.
     bnd (deref check_dst_inode) (\<lambda>old.
       with_inodes parent_i old (\<lambda>i f. journal_rmreg i new_name f))))"

definition local_rename_same_parent :: "'s env \<Rightarrow> nat \<Rightarrow> string \<Rightarrow> string \<Rightarrow> 32 word \<Rightarrow> (int, 's) cprog" where
  "local_rename_same_parent E parent_i old_path new_path flags =
     bnd (from_result (paradox_check old_path new_path)) (\<lambda>paradox.
       if paradox then ret (- EINVAL)
       else
         bnd (from_result (get_filename_from_path old_path)) (\<lambda>old_name.
         bnd (from_result (get_filename_from_path new_path)) (\<lambda>new_name.
         bnd (table_of E parent_i) (\<lambda>t.
         bnd (deref t) (\<lambda>d.
         bnd (get_child_inode d old_name nil_uuid) (\<lambda>t_i.
         bnd (deref t_i) (\<lambda>target_i.
         bnd (check_child_inode E d new_name) (\<lambda>check_dst_ino.
         bnd (set_mtime_ctime E parent_i) (\<lambda>_.
           if flags = 0 then
             bnd (if \<not> is_nil check_dst_ino then replace_entry d parent_i new_name else ret ()) (\<lambda>_.
             bnd (delete_child_inode d old_name) (\<lambda>_.
             bnd (with_inodes parent_i target_i (\<lambda>i f. journal_rmreg i old_name f)) (\<lambda>_.
             bnd (create_child_inode d new_name target_i) (\<lambda>_.
             bnd (with_inodes parent_i target_i (\<lambda>i f. journal_mkreg i new_name f)) (\<lambda>_.
               ret 0)))))
           else ret (- ENOSYS))))))))))"

definition local_rename_not_same_parent_src :: "'s env \<Rightarrow> nat \<Rightarrow> string \<Rightarrow> 32 word \<Rightarrow> (nat, 's) cprog" where
  "local_rename_not_same_parent_src E src_parent_i old_path flags =
     bnd (from_result (get_filename_from_path old_path)) (\<lambda>old_name.
     bnd (table_of E src_parent_i) (\<lambda>t.
     bnd (deref t) (\<lambda>d.
     bnd (get_child_inode d old_name nil_uuid) (\<lambda>t_i.
     bnd (deref t_i) (\<lambda>target_i.
       if flags = 0 then
         bnd (delete_child_inode d old_name) (\<lambda>_.
         bnd (with_inodes src_parent_i target_i (\<lambda>i f. journal_rmreg i old_name f)) (\<lambda>_.
           ret target_i))
       else throw (Runtime_error ''NOT IMPLEMENTED''))))))"

definition local_rename_not_same_parent_dst ::
  "'s env \<Rightarrow> nat \<Rightarrow> nat \<Rightarrow> uuid \<Rightarrow> string \<Rightarrow> 32 word \<Rightarrow> (int, 's) cprog" where
  "local_rename_not_same_parent_dst E dst_parent_i target_inode check_dst_ino new_path flags =
     bnd (from_result (get_filename_from_path new_path)) (\<lambda>new_name.
     bnd (table_of E dst_parent_i) (\<lambda>t.
     bnd (gets (\<lambda>st. ino_of st dst_parent_i)) (\<lambda>parent_ino.
     bnd (upd_inode target_inode (set_loc LOCAL)) (\<lambda>_.
     bnd (upd_inode target_inode (set_p_ino parent_ino)) (\<lambda>_.
     bnd (deref t) (\<lambda>d.
       if flags = 0 then
         bnd (if \<not> is_nil check_dst_ino then replace_entry d dst_parent_i new_name else ret ()) (\<lambda>_.
         bnd (create_child_inode d new_name target_inode) (\<lambda>_.
         bnd (with_inodes dst_parent_i target_inode (\<lambda>i f. journal_mkreg i new_name f)) (\<lambda>_.
           ret 0)))
       else throw (Runtime_error ''NOT IMPLEMENTED'')))))))"

section \<open>Files\<close>

definition local_open :: "'s env \<Rightarrow> nat \<Rightarrow> fuse_file_info \<Rightarrow> (int \<times> fuse_file_info, 's) cprog" where
  "local_open E i fi =
     bnd (if fi_flags fi AND O_DIRECTORY \<noteq> 0 then bnd (get_mode E i) (\<lambda>m. ret (\<not> S_ISDIR m)) else ret False) (\<lambda>not_dir.
       if not_dir then ret (- ENOTDIR, fi)
       else
         bnd (if fi_flags fi AND O_NOFOLLOW \<noteq> 0 then bnd (get_mode E i) (\<lambda>m. ret (S_ISLNK m)) else ret False) (\<lambda>link.
           if link then ret (- ELOOP, fi)
           else
             bnd (if fi_flags fi AND O_TRUNC \<noteq> 0 \<and> fi_flags fi AND O_PATH = 0 then
                    bnd (upd_inode i (set_size 0)) (\<lambda>_. with_inode i (\<lambda>n. journal_chreg (p_ino n) n))
                  else ret ()) (\<lambda>_.
             bnd (open_handle i) (\<lambda>fh. ret (0, fi\<lparr>fi_fh := fh\<rparr>)))))"

definition local_release :: "nat \<Rightarrow> fuse_file_info \<Rightarrow> (int, 's) cprog" where
  "local_release i fi = delete_file_handler (fi_fh fi)"

definition local_create :: "'s env \<Rightarrow> nat \<Rightarrow> string \<Rightarrow> 32 word \<Rightarrow> fuse_file_info \<Rightarrow> (fuse_file_info, 's) cprog" where
  "local_create E parent_i new_child_name mode fi =
     bnd (table_of E parent_i) (\<lambda>t.
     bnd (gets (\<lambda>st. ino_of st parent_i)) (\<lambda>parent_ino.
     bnd (make_inode E parent_ino (mode OR S_IFREG)) (\<lambda>i.
     bnd (deref t) (\<lambda>d.
     bnd (create_child_inode d new_child_name i) (\<lambda>_.
     bnd (set_mtime_ctime E parent_i) (\<lambda>_.
     bnd (with_inodes parent_i i (\<lambda>p f. journal_mkreg p new_child_name f)) (\<lambda>_.
     bnd (open_handle i) (\<lambda>fh.
       ret (fi\<lparr>fi_fh := fh\<rparr>)))))))))"

definition local_unlink :: "'s env \<Rightarrow> nat \<Rightarrow> string \<Rightarrow> (unit, 's) cprog" where
  "local_unlink E parent_i child_name =
     bnd (table_of E parent_i) (\<lambda>t.
     bnd (deref t) (\<lambda>d.
     bnd (get_child_inode d child_name nil_uuid) (\<lambda>t_i.
     bnd (deref t_i) (\<lambda>target_i.
     bnd (gets (\<lambda>st. the_inode st target_i)) (\<lambda>n.
       (let nlink = i_nlink (core n) - 1
        in if nlink = 0 then
             bnd (on_sys (rados_remove (data_io E) DATA (uuid_to_string (data_io E) (i_ino (core n))))) (\<lambda>_.
             bnd (delete_child_inode d child_name) (\<lambda>_.
             bnd (set_mtime_ctime E parent_i) (\<lambda>_.
               with_inodes parent_i target_i (\<lambda>p f. journal_rmreg p child_name f))))
           else
             bnd (upd_inode target_i (set_nlink nlink)) (\<lambda>_.
               with_inode target_i (\<lambda>f. journal_chreg (p_ino f) f))))))))"

section \<open>Data\<close>

text \<open>The bytes that reach the buffer accompany the result, exceptions included.\<close>

definition local_read :: "'s env \<Rightarrow> nat \<Rightarrow> 64 word \<Rightarrow> 64 word \<Rightarrow> 's client_state \<Rightarrow> 's client_state read_outcome" where
  "local_read E i sz offset st =
     (case rados_read (data_io E) DATA (uuid_to_string (data_io E) (ino_of st i)) (unat sz) (unat offset) (sys st) of
        (r, bs, s') \<Rightarrow> (r, bs, st\<lparr>sys := s'\<rparr>))"

text \<open>\<open>get_size() < offset + size\<close> compares unsigned numbers, since \<open>size\<close> is a \<open>size_t\<close>.\<close>

definition local_write :: "'s env \<Rightarrow> nat \<Rightarrow> bytes \<Rightarrow> 64 word \<Rightarrow> 32 word \<Rightarrow> (nat, 's) cprog" where
  "local_write E i buffer offset flags =
     bnd (gets (\<lambda>st. the_inode st i)) (\<lambda>n.
       (let offset = (if flags AND O_APPEND \<noteq> 0 then i_size (core n) else offset);
            end_off = offset + of_nat (length buffer)
        in bnd (on_sys (lift (rados_write (data_io E) DATA (uuid_to_string (data_io E) (i_ino (core n))) buffer (unat offset)))) (\<lambda>written_len.
             if i_size (core n) < end_off then
               bnd (upd_inode i (set_size end_off)) (\<lambda>_.
               bnd (with_inode i (\<lambda>f. journal_chreg (p_ino f) f)) (\<lambda>_.
                 ret written_len))
             else ret written_len)))"

definition local_truncate :: "'s env \<Rightarrow> nat \<Rightarrow> 64 word \<Rightarrow> (int, 's) cprog" where
  "local_truncate E i offset =
     bnd (get_mode E i) (\<lambda>m.
       if S_ISDIR m then ret (- EISDIR)
       else
         bnd (gets (\<lambda>st. ino_of st i)) (\<lambda>ino.
         bnd (on_sys (rados_truncate (data_io E) DATA (uuid_to_string (data_io E) ino) (unat offset))) (\<lambda>r.
         bnd (upd_inode i (set_size offset)) (\<lambda>_.
         bnd (set_mtime_ctime E i) (\<lambda>_.
         bnd (journal_attr E i) (\<lambda>_.
           ret r))))))"

section \<open>Changes of attributes\<close>

definition local_chmod :: "'s env \<Rightarrow> nat \<Rightarrow> 32 word \<Rightarrow> (unit, 's) cprog" where
  "local_chmod E i mode =
     bnd (get_mode E i) (\<lambda>m.
     bnd (upd_inode i (set_mode (mode OR (m AND S_IFMT)))) (\<lambda>_.
       journal_attr E i))"

definition local_chown :: "'s env \<Rightarrow> nat \<Rightarrow> 32 word \<Rightarrow> 32 word \<Rightarrow> (unit, 's) cprog" where
  "local_chown E i uid gid =
     bnd (if sint uid \<ge> 0 then upd_inode i (set_uid uid) else ret ()) (\<lambda>_.
     bnd (if sint gid \<ge> 0 then upd_inode i (set_gid gid) else ret ()) (\<lambda>_.
       journal_attr E i))"

definition utimens_one :: "'s env \<Rightarrow> nat \<Rightarrow> (timespec \<Rightarrow> inode \<Rightarrow> inode) \<Rightarrow> timespec \<Rightarrow> (unit, 's) cprog" where
  "utimens_one E i set_time tv =
     (if tv_nsec tv = UTIME_NOW then bnd (get_ts_checked E) (\<lambda>ts. upd_inode i (set_time ts))
      else if tv_nsec tv = UTIME_OMIT then ret ()
      else upd_inode i (set_time tv))"

definition local_utimens :: "'s env \<Rightarrow> nat \<Rightarrow> timespec \<Rightarrow> timespec \<Rightarrow> (unit, 's) cprog" where
  "local_utimens E i tv0 tv1 =
     bnd (utimens_one E i set_atime tv0) (\<lambda>_.
     bnd (utimens_one E i set_mtime tv1) (\<lambda>_.
       journal_attr E i))"

end
