(* ===== verification/Local_Spec.thy ===== *)
theory Local_Spec
  imports Local_Ops
begin

text \<open>
  What the operations on a local directory keep: the entries in memory, the inodes of the children
  and the open transaction of the journal describe the same directory. An operation that returns
  has changed all three by the same function.
\<close>

section \<open>The journal as the operations see it\<close>

definition open_tx :: "journal \<Rightarrow> uuid \<Rightarrow> transaction" where
  "open_tx j ino = (case rm_find (jmap j) ino of None \<Rightarrow> transaction_new ino | Some a \<Rightarrow> txs j a)"

text \<open>The table holds open transactions, each under the number of its directory.\<close>

definition journal_ok :: "journal \<Rightarrow> bool" where
  "journal_ok j \<longleftrightarrow> (\<forall>ino a. rm_find (jmap j) ino = Some a \<longrightarrow>
     a < next_tx j \<and> wf_tx (txs j a) \<and> \<not> committed (txs j a) \<and> s_ino (txs j a) = ino)"

lemma journal_ok_new: "journal_ok journal_new"
  by (simp add: journal_ok_def journal_new_def)

lemma open_tx_ok:
  assumes "journal_ok j" and "is_uuid ino"
  shows "wf_tx (open_tx j ino)" "\<not> committed (open_tx j ino)" "s_ino (open_tx j ino) = ino"
  using assms wf_tx_new [of ino]
  by (auto simp: open_tx_def journal_ok_def transaction_new_def split: option.splits)

lemma journal_op:
  assumes ok: "journal_ok j" and ino: "is_uuid ino" and pre: "op_pre op (open_tx j ino)"
  obtains j' where "journal_apply ino (run_op ino op) j = Some (Inr (), j')" and "journal_ok j'"
    and "\<And>v. tx_view (open_tx j' ino) v = op_effect op (tx_view (open_tx j ino) v)"
    and "map_of (f_inodes (open_tx j' ino)) = op_files op (map_of (f_inodes (open_tx j ino)))"
    and "\<And>ino'. ino' \<noteq> ino \<Longrightarrow> open_tx j' ino' = open_tx j ino'"
proof -
  obtain a j1 where get: "get_entry ino j = (a, j1)" by fastforce
  have same: "txs j1 a = open_tx j ino" "rm_find (jmap j1) ino = Some a" "a < next_tx j1"
    using get ok by (auto simp: get_entry_def open_tx_def journal_ok_def Let_def rm_simps split: option.splits)
  have other: "rm_find (jmap j1) ino' = rm_find (jmap j) ino'" if "ino' \<noteq> ino" for ino'
    using get that by (auto simp: get_entry_def Let_def rm_simps split: option.splits)
  have apart: "b \<noteq> a \<and> b < next_tx j1 \<and> txs j1 b = txs j b" if "ino' \<noteq> ino" "rm_find (jmap j) ino' = Some b" for ino' b
  proof -
    have b: "b < next_tx j" "s_ino (txs j b) = ino'" using ok that(2) by (auto simp: journal_ok_def)
    show ?thesis
    proof (cases "rm_find (jmap j) ino")
      case None
      with get b(1) show ?thesis by (auto simp: get_entry_def Let_def)
    next
      case (Some c)
      then have "s_ino (txs j c) = ino" using ok by (auto simp: journal_ok_def)
      with Some get b that(1) show ?thesis by (auto simp: get_entry_def)
    qed
  qed
  from journal_apply_once [OF ino _ get, of op] pre same(1) ok obtain tx
    where tx: "run_op ino op (open_tx j ino) = (Inr 0, tx)"
      "journal_apply ino (run_op ino op) j = Some (Inr (), j1\<lparr>txs := (txs j1)(a := tx)\<rparr>)"
    by (auto simp: journal_ok_def)
  let ?j = "j1\<lparr>txs := (txs j1)(a := tx)\<rparr>"
  have eff: "wf_tx tx" "\<not> committed tx" "s_ino tx = ino" "\<And>v. tx_view tx v = op_effect op (tx_view (open_tx j ino) v)"
    using run_op_effect [OF open_tx_ok(1,2) [OF ok ino] pre, of ino] tx(1) open_tx_ok(3) [OF ok ino] by (auto simp: tx_effect_def)
  have new: "open_tx ?j ino = tx" using same(2) by (simp add: open_tx_def)
  show thesis
  proof (rule that [OF tx(2)])
    show "journal_ok ?j"
      unfolding journal_ok_def
    proof (intro allI impI)
      fix ino' b assume b: "rm_find (jmap ?j) ino' = Some b"
      show "b < next_tx ?j \<and> wf_tx (txs ?j b) \<and> \<not> committed (txs ?j b) \<and> s_ino (txs ?j b) = ino'"
      proof (cases "ino' = ino")
        case True
        with b same eff show ?thesis by simp
      next
        case False
        with b have "rm_find (jmap j) ino' = Some b" by (simp add: other)
        with apart [OF False this] ok show ?thesis by (auto simp: journal_ok_def)
      qed
    qed
    show "tx_view (open_tx ?j ino) v = op_effect op (tx_view (open_tx j ino) v)" for v by (simp add: new eff)
    show "map_of (f_inodes (open_tx ?j ino)) = op_files op (map_of (f_inodes (open_tx j ino)))"
      unfolding new by (rule run_op_files [OF tx(1)])
    show "open_tx ?j ino' = open_tx j ino'" if "ino' \<noteq> ino" for ino'
      using other [OF that] apart [OF that] by (auto simp: open_tx_def split: option.splits)
  qed
qed

lemma view_no_entry:
  assumes "tx_view tx v = Some m"
  shows "m name = None \<Longrightarrow> no_entry_as True name tx" and "m name = Some ino \<Longrightarrow> no_entry_as False name tx"
  using assms by (auto simp: tx_view_def patch_def split: self_status.splits option.splits)

section \<open>A directory in memory and in the journal\<close>

text \<open>The directory \<open>p\<close> with its table \<open>d\<close>: entries and inodes agree, all objects are allocated and
  well formed, and no inode is a child under two names.\<close>

definition tab_ok :: "'s client_state \<Rightarrow> nat \<Rightarrow> nat \<Rightarrow> bool" where
  "tab_ok st p d \<longleftrightarrow> dtable_ok st d \<and> p < next_iobj st \<and> wf_inode (the_inode st p) \<and> dir_ino (dtabs st d) = ino_of st p \<and>
     inj_on (dir_children st d) (dom (dir_children st d)) \<and>
     (\<forall>name a. rm_find (child_inodes (dtabs st d)) name = Some a \<longrightarrow>
        a < next_iobj st \<and> wf_inode (the_inode st a) \<and> \<not> is_nil (ino_of st a) \<and> ino_of st a \<noteq> ino_of st p)"

text \<open>The open transaction turns the committed contents \<open>v\<close> into the entries \<open>m\<close>, and deletes none of
  their inodes.\<close>

definition log_is :: "dir \<Rightarrow> 's client_state \<Rightarrow> uuid \<Rightarrow> (string \<rightharpoonup> uuid) \<Rightarrow> bool" where
  "log_is v st ino m \<longleftrightarrow> journal_ok (jrnl st) \<and> tx_view (open_tx (jrnl st) ino) v = Some m \<and>
     (\<forall>i \<in> ran m. rm_find (f_inodes (open_tx (jrnl st) ino)) i \<noteq> Some None)"

definition dir_ok :: "dir \<Rightarrow> 's client_state \<Rightarrow> nat \<Rightarrow> nat \<Rightarrow> bool" where
  "dir_ok v st p d \<longleftrightarrow> tab_ok st p d \<and> log_is v st (ino_of st p) (dir_children st d)"

text \<open>The lease of the directory is valid when the operation looks.\<close>

definition leased :: "'s env \<Rightarrow> 's client_state \<Rightarrow> uuid \<Rightarrow> nat \<Rightarrow> bool" where
  "leased E st ino d \<longleftrightarrow> rm_find (dentry_tables st) ino = Some d \<and> is_valid (fst (sys_clock E (sys st))) (leases st) ino"

lemma get_dentry_table_leased:
  "leased E st ino d \<Longrightarrow> get_dentry_table E ino False st = Some (Inr (Some d), st\<lparr>sys := snd (sys_clock E (sys st))\<rparr>)"
  by (cases "sys_clock E (sys st)") (simp add: leased_def get_dentry_table_def lc_is_valid_def sys_call_def bnd_def gets_def ret_def)

lemma table_of_leased:
  "leased E st (ino_of st p) d \<Longrightarrow> table_of E p st = Some (Inr (Some d), st\<lparr>sys := snd (sys_clock E (sys st))\<rparr>)"
  by (simp add: table_of_def get_dentry_table_leased)

lemma bnd_deref [simp]: "bnd (deref (Some a)) f = f a"
  by (simp add: deref_def)

section \<open>Steps that leave the directory as it is\<close>

text \<open>A change of the world and of attributes of one inode, other than its number\<close>

definition touched :: "nat \<Rightarrow> 's client_state \<Rightarrow> 's client_state \<Rightarrow> bool" where
  "touched a st st' \<longleftrightarrow> (\<exists>i s'. st' = st\<lparr>iobjs := (iobjs st)(a := (iobjs st a)\<lparr>base := i\<rparr>), sys := s'\<rparr> \<and>
     i_ino (core i) = ino_of st a \<and> (wf_inode (the_inode st a) \<longrightarrow> wf_inode i))"

lemma touched_ino: "touched a st st' \<Longrightarrow> ino_of st' b = ino_of st b"
  by (auto simp: touched_def)

lemma touched_wf: "touched a st st' \<Longrightarrow> wf_inode (the_inode st b) \<Longrightarrow> wf_inode (the_inode st' b)"
  by (auto simp: touched_def)

lemma touched_rest:
  assumes "touched a st st'"
  shows "dtabs st' = dtabs st" "jrnl st' = jrnl st" "next_iobj st' = next_iobj st" "fh_list st' = fh_list st" "next_fh st' = next_fh st"
    "dentry_tables st' = dentry_tables st" "leases st' = leases st" "this_client st' = this_client st" "b \<noteq> a \<Longrightarrow> iobjs st' b = iobjs st b"
  using assms by (auto simp: touched_def)

lemma touched_tab:
  assumes "touched a st st'" and "tab_ok st p d"
  shows "tab_ok st' p d"
  using assms(2) touched_wf [OF assms(1)]
  by (auto simp: tab_ok_def dtable_ok_def touched_rest(1,3) [OF assms(1)] touched_ino [OF assms(1)] split: option.splits)

lemma touched_log: "touched a st st' \<Longrightarrow> log_is v st' ino m \<longleftrightarrow> log_is v st ino m"
  by (simp add: log_is_def touched_rest)

lemma touched_dir: "touched a st st' \<Longrightarrow> dir_ok v st p d \<Longrightarrow> dir_ok v st' p d"
  by (simp add: dir_ok_def touched_tab touched_log touched_ino touched_rest(1))

lemma touched_sys: "touched a st (st\<lparr>sys := s'\<rparr>)"
  unfolding touched_def by (rule exI [of _ "the_inode st a"]) auto

lemma touched_trans: "touched a st st1 \<Longrightarrow> touched a st1 st2 \<Longrightarrow> touched a st st2"
  unfolding touched_def by fastforce

lemma upd_inode_touched:
  assumes "i_ino (core (f (the_inode st a))) = ino_of st a" and "wf_inode (the_inode st a) \<Longrightarrow> wf_inode (f (the_inode st a))"
  obtains st' where "upd_inode a f st = Some (Inr (), st')" and "touched a st st'"
proof (rule that)
  show "upd_inode a f st = Some (Inr (), st\<lparr>iobjs := (iobjs st)(a := (iobjs st a)\<lparr>base := f (the_inode st a)\<rparr>)\<rparr>)"
    by (simp add: upd_inode_def modify_def)
  show "touched a st (st\<lparr>iobjs := (iobjs st)(a := (iobjs st a)\<lparr>base := f (the_inode st a)\<rparr>)\<rparr>)"
    unfolding touched_def using assms by (intro exI [of _ "f (the_inode st a)"] exI [of _ "sys st"]) simp
qed

lemma set_attr_simps [simp]:
  "i_ino (core (set_mtime t i)) = i_ino (core i)" "i_ino (core (set_ctime t i)) = i_ino (core i)"
  "i_ino (core (set_loc l i)) = i_ino (core i)" "i_ino (core (set_p_ino u i)) = i_ino (core i)"
  "i_ino (core (set_size n i)) = i_ino (core i)"
  "wf_inode (set_mtime t i) = wf_inode i" "wf_inode (set_ctime t i) = wf_inode i"
  "wf_inode (set_loc l i) = wf_inode i" "wf_inode (set_p_ino u i) = wf_inode i" "wf_inode (set_size n i) = wf_inode i"
  by (simp_all add: set_mtime_def set_ctime_def set_loc_def set_p_ino_def set_size_def wf_inode_def split: option.split)

lemma get_ts_sys: "\<exists>ts. get_ts E st = Some (Inr ts, st\<lparr>sys := snd (utc_time E (sys st))\<rparr>)"
  by (simp add: get_ts_def sys_call_def bnd_def ret_def split: prod.split)

lemma set_mtime_ctime_touched:
  obtains st' where "set_mtime_ctime E a st = Some (Inr (), st')" and "touched a st st'"
proof -
  obtain ts where ts: "get_ts E st = Some (Inr ts, st\<lparr>sys := snd (utc_time E (sys st))\<rparr>)" using get_ts_sys by blast
  obtain st1 where st1: "upd_inode a (set_mtime ts) (st\<lparr>sys := snd (utc_time E (sys st))\<rparr>) = Some (Inr (), st1)"
    "touched a (st\<lparr>sys := snd (utc_time E (sys st))\<rparr>) st1"
    by (rule upd_inode_touched [where st = "st\<lparr>sys := snd (utc_time E (sys st))\<rparr>" and f = "set_mtime ts" and a = a]) simp_all
  obtain st2 where st2: "upd_inode a (set_ctime ts) st1 = Some (Inr (), st2)" "touched a st1 st2"
    by (rule upd_inode_touched [where st = st1 and f = "set_ctime ts" and a = a]) simp_all
  have "set_mtime_ctime E a st = Some (Inr (), st2)"
    by (simp add: set_mtime_ctime_def bnd_def ts st1(1) st2(1))
  with touched_trans [OF touched_trans [OF touched_sys st1(2)] st2(2)] show thesis by (rule that [rotated])
qed

section \<open>Entries into the journal\<close>

lemma with_inodes_apply: "with_inodes p a f st = on_journal (f (the_inode st p) (the_inode st a)) st"
  by (simp add: with_inodes_def)

lemma with_inode_apply: "with_inode a f st = on_journal (f (the_inode st a)) st"
  by (simp add: with_inode_def)

lemma log_op:
  assumes log: "log_is v st ino m" and ino: "is_uuid ino" and pre: "op_pre op (open_tx (jrnl st) ino)"
    and eff: "op_effect op (Some m) = Some m'"
    and alive: "\<And>i. i \<in> ran m' \<Longrightarrow> op_files op (map_of (f_inodes (open_tx (jrnl st) ino))) i \<noteq> Some None"
  obtains j' where "on_journal (journal_apply ino (run_op ino op)) st = Some (Inr (), st\<lparr>jrnl := j'\<rparr>)"
    and "log_is v (st\<lparr>jrnl := j'\<rparr>) ino m'"
    and "map_of (f_inodes (open_tx j' ino)) = op_files op (map_of (f_inodes (open_tx (jrnl st) ino)))"
    and "\<And>ino'. ino' \<noteq> ino \<Longrightarrow> open_tx j' ino' = open_tx (jrnl st) ino'"
proof -
  from log have ok: "journal_ok (jrnl st)" and view: "tx_view (open_tx (jrnl st) ino) v = Some m" by (simp_all add: log_is_def)
  obtain j' where j': "journal_apply ino (run_op ino op) (jrnl st) = Some (Inr (), j')" "journal_ok j'"
    "\<And>v. tx_view (open_tx j' ino) v = op_effect op (tx_view (open_tx (jrnl st) ino) v)"
    "map_of (f_inodes (open_tx j' ino)) = op_files op (map_of (f_inodes (open_tx (jrnl st) ino)))"
    "\<And>ino'. ino' \<noteq> ino \<Longrightarrow> open_tx j' ino' = open_tx (jrnl st) ino'"
    using journal_op [OF ok ino pre] by blast
  show thesis
  proof (rule that)
    show "on_journal (journal_apply ino (run_op ino op)) st = Some (Inr (), st\<lparr>jrnl := j'\<rparr>)"
      by (simp add: on_journal_def zoom_def j'(1))
    show "log_is v (st\<lparr>jrnl := j'\<rparr>) ino m'" using j'(2-4) view eff alive by (simp add: log_is_def)
  qed (use j' in simp_all)
qed

lemma log_pre:
  assumes "tab_ok st p d" and "log_is v st (ino_of st p) m"
  shows "is_uuid (ino_of st p)" and "self_ok (the_inode st p) (open_tx (jrnl st) (ino_of st p))"
    and "s_ino (open_tx (jrnl st) (ino_of st p)) = ino_of st p"
    and "m name = None \<Longrightarrow> no_entry_as True name (open_tx (jrnl st) (ino_of st p))"
    and "m name = Some i \<Longrightarrow> no_entry_as False name (open_tx (jrnl st) (ino_of st p))"
proof -
  have wf: "wf_inode (the_inode st p)" using assms(1) by (simp add: tab_ok_def)
  then show u: "is_uuid (ino_of st p)" by (simp add: wf_inode_def)
  have "journal_ok (jrnl st)" using assms(2) by (simp add: log_is_def)
  then show s: "s_ino (open_tx (jrnl st) (ino_of st p)) = ino_of st p" by (rule open_tx_ok [OF _ u])
  show "self_ok (the_inode st p) (open_tx (jrnl st) (ino_of st p))" using wf s by (simp add: self_ok_def)
  have view: "tx_view (open_tx (jrnl st) (ino_of st p)) v = Some m" using assms(2) by (simp add: log_is_def)
  show "m name = None \<Longrightarrow> no_entry_as True name (open_tx (jrnl st) (ino_of st p))"
    and "m name = Some i \<Longrightarrow> no_entry_as False name (open_tx (jrnl st) (ino_of st p))"
    by (rule view_no_entry [OF view], assumption)+
qed

text \<open>The transaction has no inode under this number, or has deleted it.\<close>

definition log_free :: "'s client_state \<Rightarrow> uuid \<Rightarrow> uuid \<Rightarrow> bool" where
  "log_free st parent ino \<longleftrightarrow> (\<nexists>g. rm_find (f_inodes (open_tx (jrnl st) parent)) ino = Some (Some g))"

lemma log_alive: "log_is v st ino m \<Longrightarrow> m name = Some i \<Longrightarrow> rm_find (f_inodes (open_tx (jrnl st) ino)) i \<noteq> Some None"
  by (auto simp: log_is_def ran_def)

definition child_ok :: "'s client_state \<Rightarrow> nat \<Rightarrow> nat \<Rightarrow> bool" where
  "child_ok st p a \<longleftrightarrow> wf_inode (the_inode st a) \<and> \<not> is_nil (ino_of st a) \<and> ino_of st a \<noteq> ino_of st p"

lemma log_mkreg:
  assumes tab: "tab_ok st p d" and log: "log_is v st (ino_of st p) m" and name: "name_ok name" "m name = None"
    and a: "child_ok st p a" and free: "log_free st (ino_of st p) (ino_of st a)"
  obtains j' where "with_inodes p a (\<lambda>i f. journal_mkreg i name f) st = Some (Inr (), st\<lparr>jrnl := j'\<rparr>)"
    and "log_is v (st\<lparr>jrnl := j'\<rparr>) (ino_of st p) (m(name \<mapsto> ino_of st a))"
proof -
  note pre = log_pre [OF tab log]
  let ?op = "Mkreg (the_inode st p) name (the_inode st a)"
  have "op_pre ?op (open_tx (jrnl st) (ino_of st p))"
    using pre(2-4) name a free by (auto simp: child_ok_def file_ok_def log_free_def)
  then obtain j' where j': "on_journal (journal_apply (ino_of st p) (run_op (ino_of st p) ?op)) st = Some (Inr (), st\<lparr>jrnl := j'\<rparr>)"
    "log_is v (st\<lparr>jrnl := j'\<rparr>) (ino_of st p) (m(name \<mapsto> ino_of st a))"
    by (rule log_op [OF log pre(1)]) (auto simp: ran_def dest: log_alive [OF log] split: if_splits)
  show thesis by (rule that [OF _ j'(2)]) (use j'(1) in \<open>simp add: with_inodes_apply journal_mkreg_def\<close>)
qed

lemma log_rmreg:
  assumes tab: "tab_ok st p d" and log: "log_is v st (ino_of st p) m" and name: "name_ok name" "m name = Some (ino_of st a)"
    and inj: "inj_on m (dom m)" and a: "child_ok st p a"
  obtains j' where "with_inodes p a (\<lambda>i f. journal_rmreg i name f) st = Some (Inr (), st\<lparr>jrnl := j'\<rparr>)"
    and "log_is v (st\<lparr>jrnl := j'\<rparr>) (ino_of st p) (m(name := None))" and "log_free (st\<lparr>jrnl := j'\<rparr>) (ino_of st p) (ino_of st a)"
    and "\<forall>i. log_free st (ino_of st p) i \<longrightarrow> log_free (st\<lparr>jrnl := j'\<rparr>) (ino_of st p) i"
proof -
  note pre = log_pre [OF tab log]
  let ?op = "Rmreg (the_inode st p) name (the_inode st a)"
  have ok: "op_pre ?op (open_tx (jrnl st) (ino_of st p))"
    using pre(2,3) pre(5) [OF name(2)] name(1) a log_alive [OF log name(2)] by (auto simp: child_ok_def file_ok_def)
  have ne: "m k \<noteq> Some (ino_of st a)" if "k \<noteq> name" for k
    using that name(2) inj by (auto simp: inj_on_def dom_def)
  obtain j' where j': "on_journal (journal_apply (ino_of st p) (run_op (ino_of st p) ?op)) st = Some (Inr (), st\<lparr>jrnl := j'\<rparr>)"
    "log_is v (st\<lparr>jrnl := j'\<rparr>) (ino_of st p) (m(name := None))"
    "map_of (f_inodes (open_tx j' (ino_of st p))) = op_files ?op (map_of (f_inodes (open_tx (jrnl st) (ino_of st p))))"
    by (rule log_op [OF log pre(1) ok]) (use ne in \<open>auto simp: ran_def dest: log_alive [OF log] split: if_splits\<close>)
  show thesis
    by (rule that [OF _ j'(2)]) (use j'(1,3) in \<open>simp_all add: with_inodes_apply journal_rmreg_def log_free_def\<close>)
qed

lemma log_mkdir:
  assumes tab: "tab_ok st p d" and log: "log_is v st (ino_of st p) m" and name: "name_ok name" "m name = None"
    and ino: "ino_ok ino" and free: "rm_find (f_inodes (open_tx (jrnl st) (ino_of st p))) ino \<noteq> Some None"
  obtains j' where "with_inode p (\<lambda>i. journal_mkdir i name ino) st = Some (Inr (), st\<lparr>jrnl := j'\<rparr>)"
    and "log_is v (st\<lparr>jrnl := j'\<rparr>) (ino_of st p) (m(name \<mapsto> ino))"
    and "\<And>ino'. ino' \<noteq> ino_of st p \<Longrightarrow> open_tx j' ino' = open_tx (jrnl st) ino'"
proof -
  note pre = log_pre [OF tab log]
  let ?op = "Mkdir (the_inode st p) name ino"
  have "op_pre ?op (open_tx (jrnl st) (ino_of st p))" using pre(2-4) name ino by auto
  then obtain j' where j': "on_journal (journal_apply (ino_of st p) (run_op (ino_of st p) ?op)) st = Some (Inr (), st\<lparr>jrnl := j'\<rparr>)"
    "log_is v (st\<lparr>jrnl := j'\<rparr>) (ino_of st p) (m(name \<mapsto> ino))" "\<And>ino'. ino' \<noteq> ino_of st p \<Longrightarrow> open_tx j' ino' = open_tx (jrnl st) ino'"
    by (rule log_op [OF log pre(1)]) (use free in \<open>auto simp: ran_def dest: log_alive [OF log] split: if_splits\<close>)
  show thesis by (rule that [OF _ j'(2,3)]) (use j'(1) in \<open>simp add: with_inode_apply journal_mkdir_def\<close>)
qed

lemma log_rmdir:
  assumes tab: "tab_ok st p d" and log: "log_is v st (ino_of st p) m" and name: "name_ok name" "m name = Some i"
    and ino: "ino_ok ino"
  obtains j' where "with_inode p (\<lambda>i. journal_rmdir i name ino) st = Some (Inr (), st\<lparr>jrnl := j'\<rparr>)"
    and "log_is v (st\<lparr>jrnl := j'\<rparr>) (ino_of st p) (m(name := None))"
proof -
  note pre = log_pre [OF tab log]
  let ?op = "Rmdir (the_inode st p) name ino"
  have "op_pre ?op (open_tx (jrnl st) (ino_of st p))" using pre(2,3) pre(5) [OF name(2)] name(1) ino by auto
  then obtain j' where j': "on_journal (journal_apply (ino_of st p) (run_op (ino_of st p) ?op)) st = Some (Inr (), st\<lparr>jrnl := j'\<rparr>)"
    "log_is v (st\<lparr>jrnl := j'\<rparr>) (ino_of st p) (m(name := None))"
    by (rule log_op [OF log pre(1)]) (auto simp: ran_def dest: log_alive [OF log] split: if_splits)
  show thesis by (rule that [OF _ j'(2)]) (use j'(1) in \<open>simp add: with_inode_apply journal_rmdir_def\<close>)
qed

section \<open>Changes of the table\<close>

lemma tab_ok_cong:
  "dtabs st' = dtabs st \<Longrightarrow> iobjs st' = iobjs st \<Longrightarrow> next_iobj st' = next_iobj st \<Longrightarrow> tab_ok st' p d \<longleftrightarrow> tab_ok st p d"
  by (simp add: tab_ok_def dtable_ok_def split: option.split)

lemma log_is_cong: "jrnl st' = jrnl st \<Longrightarrow> log_is v st' ino m \<longleftrightarrow> log_is v st ino m"
  by (simp add: log_is_def)

lemma new_iobj_tab:
  assumes "tab_ok st p d"
  shows "tab_ok (st\<lparr>iobjs := (iobjs st)(next_iobj st := x), next_iobj := Suc (next_iobj st)\<rparr>) p d" (is "tab_ok ?st p d")
proof -
  have old: "iobjs ?st b = iobjs st b" if "b < next_iobj st" for b using that by simp
  have "map_option (ino_of ?st) (rm_find (child_inodes (dtabs st d)) name) = map_option (ino_of st) (rm_find (child_inodes (dtabs st d)) name)" for name
    using assms by (cases "rm_find (child_inodes (dtabs st d)) name") (auto simp: tab_ok_def)
  moreover have "p \<noteq> next_iobj st" using assms by (simp add: tab_ok_def)
  ultimately show ?thesis
    using assms by (fastforce simp: tab_ok_def dtable_ok_def split: option.splits)
qed

lemma create_tab:
  assumes tab: "tab_ok st p d" and new: "dir_children st d name = None" and a: "a < next_iobj st" "child_ok st p a"
    and fresh: "ino_of st a \<notin> ran (dir_children st d)"
  obtains st' where "create_child_inode d name a st = Some (Inr 0, st')" and "tab_ok st' p d"
    and "dir_children st' d = (dir_children st d)(name \<mapsto> ino_of st a)"
    and "rm_find (child_inodes (dtabs st' d)) name = Some a" and "st' = st\<lparr>dtabs := (dtabs st)(d := dtabs st' d)\<rparr>"
proof -
  have ok: "dtable_ok st d" using tab by (simp add: tab_ok_def)
  obtain st' where st': "create_child_inode d name a st = Some (Inr 0, st')" "dtable_ok st' d"
    "dir_children st' d = (dir_children st d)(name \<mapsto> ino_of st a)"
    "map_of (child_inodes (dtabs st' d)) = (map_of (child_inodes (dtabs st d)))(name \<mapsto> a)"
    "st' = st\<lparr>dtabs := (dtabs st)(d := dtabs st' d)\<rparr>" "dir_ino (dtabs st' d) = dir_ino (dtabs st d)"
    using create_child_inode_ok [OF ok new] by blast
  have inj: "inj_on (dir_children st' d) (dom (dir_children st' d))"
    using tab fresh unfolding st'(3) by (auto simp: tab_ok_def inj_on_def ran_def dom_def)
  have same: "iobjs st' = iobjs st" "next_iobj st' = next_iobj st" by (subst st'(5), simp)+
  have "tab_ok st' p d"
    using tab a st'(2,6) inj unfolding tab_ok_def st'(4) same by (auto simp: child_ok_def split: if_splits)
  with st' show thesis by (intro that) simp_all
qed

lemma delete_tab:
  assumes tab: "tab_ok st p d" and old: "dir_children st d name = Some ino"
  obtains st' where "delete_child_inode d name st = Some (Inr 0, st')" and "tab_ok st' p d"
    and "dir_children st' d = (dir_children st d)(name := None)" and "st' = st\<lparr>dtabs := (dtabs st)(d := dtabs st' d)\<rparr>"
    and "child_inodes (dtabs st' d) = rm_erase name (child_inodes (dtabs st d))"
proof -
  have ok: "dtable_ok st d" using tab by (simp add: tab_ok_def)
  obtain st' where st': "delete_child_inode d name st = Some (Inr 0, st')" "dtable_ok st' d"
    "dir_children st' d = (dir_children st d)(name := None)" "st' = st\<lparr>dtabs := (dtabs st)(d := dtabs st' d)\<rparr>"
    "dir_ino (dtabs st' d) = dir_ino (dtabs st d)" "child_inodes (dtabs st' d) = rm_erase name (child_inodes (dtabs st d))"
    using delete_child_inode_ok [OF ok, of name] old by auto
  have inj: "inj_on (dir_children st' d) (dom (dir_children st' d))"
    using tab unfolding st'(3) by (auto simp: tab_ok_def inj_on_def dom_def)
  have same: "iobjs st' = iobjs st" "next_iobj st' = next_iobj st" by (subst st'(4), simp)+
  have "tab_ok st' p d"
    using tab st'(2,5) inj unfolding tab_ok_def st'(6) same by (auto simp: rm_find_erase split: if_splits)
  with st' show thesis by (intro that) simp_all
qed

text \<open>The inode behind an entry\<close>

lemma child_inode:
  assumes tab: "tab_ok st p d" and old: "dir_children st d name = Some ino"
  obtains a where "rm_find (child_inodes (dtabs st d)) name = Some a" and "ino_of st a = ino" and "child_ok st p a" and "a < next_iobj st"
proof -
  have "dtable_ok st d" using tab by (simp add: tab_ok_def)
  then obtain a where "rm_find (child_inodes (dtabs st d)) name = Some a" "ino_of st a = ino"
    using old by (auto simp: dtable_ok_def split: option.splits)
  with tab show thesis by (intro that) (auto simp: tab_ok_def child_ok_def)
qed

lemma get_child_touched:
  assumes tab: "tab_ok st p d" and a: "rm_find (child_inodes (dtabs st d)) name = Some a"
  obtains st' where "get_child_inode d name u st = Some (Inr (Some a), st')" and "touched a st st'"
    and "the_inode st' a = set_loc LOCAL (the_inode st a)" and "sys st' = sys st"
proof -
  have "dtable_ok st d" using tab by (simp add: tab_ok_def)
  note get = get_child_inode_local [OF this, of name u]
  let ?st = "st\<lparr>iobjs := (iobjs st)(a := (iobjs st a)\<lparr>base := set_loc LOCAL (the_inode st a)\<rparr>)\<rparr>"
  have "touched a st ?st"
    unfolding touched_def by (intro exI [of _ "set_loc LOCAL (the_inode st a)"] exI [of _ "sys st"]) simp
  then show thesis by (intro that [of ?st]) (use get a in simp_all)
qed

definition drawn_ino :: "'s env \<Rightarrow> 's \<Rightarrow> uuid" where
  "drawn_ino E s = fst (new_uuid E (snd (utc_time E s)))"

lemma make_inode_ok:
  assumes tab: "tab_ok st p d"
  obtains ts st' where "make_inode E u mode st = Some (Inr (next_iobj st), st')" and "tab_ok st' p d"
    and "the_inode st' (next_iobj st) = inode_new ts (drawn_ino E (sys st)) u (client_uid (this_client st)) (client_gid (this_client st)) mode False"
    and "next_iobj st' = Suc (next_iobj st)" and "dtabs st' = dtabs st" and "jrnl st' = jrnl st" and "ino_of st' p = ino_of st p"
    and "fh_list st' = fh_list st" and "next_fh st' = next_fh st"
proof -
  obtain ts where ts: "get_ts E st = Some (Inr ts, st\<lparr>sys := snd (utc_time E (sys st))\<rparr>)" using get_ts_sys by blast
  let ?s = "snd (new_uuid E (snd (utc_time E (sys st))))"
  let ?i = "inode_new ts (drawn_ino E (sys st)) u (client_uid (this_client st)) (client_gid (this_client st)) mode False"
  let ?st = "(st\<lparr>sys := ?s\<rparr>)\<lparr>iobjs := (iobjs st)(next_iobj st := \<lparr>base = ?i, remote = None\<rparr>), next_iobj := Suc (next_iobj st)\<rparr>"
  have "make_inode E u mode st = Some (Inr (next_iobj st), ?st)"
    by (simp add: make_inode_def bnd_def ts sys_call_def gets_def new_iobj_def drawn_ino_def split: prod.split)
  moreover have "tab_ok ?st p d"
    using new_iobj_tab [OF touched_tab [OF touched_sys tab], of ?s] by simp
  moreover have "p < next_iobj st" using tab by (simp add: tab_ok_def)
  ultimately show thesis by (intro that [of ?st ts]) simp_all
qed

section \<open>The data pool\<close>

text \<open>What the operations rely on for the data of files: a RADOS pool, and clocks and a UUID generator
  that leave the pool alone.\<close>

locale client_env = librados "data_io E" dobjs for E :: "'s env" and dobjs :: "'s \<Rightarrow> string \<rightharpoonup> bytes" +
  assumes utc_keeps: "dobjs (snd (utc_time E s)) = dobjs s"
    and clock_keeps: "dobjs (snd (sys_clock E s)) = dobjs s"
    and uuid_keeps: "dobjs (snd (new_uuid E s)) = dobjs s"

abbreviation data_file :: "'s env \<Rightarrow> ('s \<Rightarrow> string \<rightharpoonup> bytes) \<Rightarrow> 's client_state \<Rightarrow> uuid \<Rightarrow> bytes \<Rightarrow> bool" where
  "data_file E dobjs st ino c \<equiv> rados_file dobjs (sys st) DATA (uuid_to_string (data_io E) ino) c"

context client_env
begin

lemma table_of_data:
  "leased E st (ino_of st p) d \<Longrightarrow> \<exists>s'. table_of E p st = Some (Inr (Some d), st\<lparr>sys := s'\<rparr>) \<and> dobjs s' = dobjs (sys st)"
  using table_of_leased clock_keeps by blast

lemma set_mtime_ctime_data:
  obtains st' where "set_mtime_ctime E a st = Some (Inr (), st')" and "touched a st st'" and "dobjs (sys st') = dobjs (sys st)"
    and "core (the_inode st' a) = (core (the_inode st a))\<lparr>i_mtime := i_mtime (core (the_inode st' a)), i_ctime := i_ctime (core (the_inode st' a))\<rparr>"
    and "p_ino (the_inode st' a) = p_ino (the_inode st a)" and "remote (iobjs st' a) = remote (iobjs st a)"
proof -
  obtain ts where ts: "get_ts E st = Some (Inr ts, st\<lparr>sys := snd (utc_time E (sys st))\<rparr>)" using get_ts_sys by blast
  have at: "set_mtime_ctime E a st = Some (Inr (), st\<lparr>sys := snd (utc_time E (sys st)),
      iobjs := (iobjs st)(a := (iobjs st a)\<lparr>base := set_ctime ts (set_mtime ts (the_inode st a))\<rparr>)\<rparr>)"
    by (simp add: set_mtime_ctime_def bnd_def ts upd_inode_def modify_def)
  obtain st' where st': "set_mtime_ctime E a st = Some (Inr (), st')" "touched a st st'" by (rule set_mtime_ctime_touched)
  show thesis by (rule that [OF st']) (use at st'(1) utc_keeps in \<open>auto simp: set_mtime_def set_ctime_def\<close>)
qed

end

text \<open>A client over pools in memory, with a fixed clock and generator\<close>

definition mem_env :: "(string \<rightharpoonup> bytes) env" where
  "mem_env =
     \<lparr>meta_io = mem_ext, data_io = mem_ext, sys_clock = (\<lambda>s. (0, s)), utc_time = (\<lambda>s. (Some \<lparr>tv_sec = 7, tv_nsec = 8\<rparr>, s)),
      new_uuid = (\<lambda>s. (replicate 16 CHR ''w'', s)), lease_rpc = (\<lambda>_ s. (None, s)),
      peers = nobody_answers\<rparr>"

interpretation memc: client_env mem_env "\<lambda>M. M"
  by (intro client_env.intro client_env_axioms.intro) (simp_all add: mem_env_def mem_librados)

lemma mem_client_env: "client_env mem_env (\<lambda>M. M)"
  by (rule memc.client_env_axioms)

text \<open>A client that leads the root directory, with one file in it\<close>

definition sample_table :: dentry_table where
  "sample_table =
     \<lparr>dir_ino = get_root_ino, this_dir_inode = Some 0,
      dt_dentries = Some \<lparr>this_ino = get_root_ino, child_list = [(''f'', replicate 16 CHR ''u'')]\<rparr>,
      child_inodes = [(''f'', 1)], dt_loc = LOCAL, leader_ip = []\<rparr>"

definition sample_client :: "(string \<rightharpoonup> bytes) \<Rightarrow> (string \<rightharpoonup> bytes) client_state" where
  "sample_client M =
     \<lparr>iobjs = (\<lambda>_. \<lparr>base = sample_root, remote = None\<rparr>)(1 := \<lparr>base = sample_file, remote = None\<rparr>), next_iobj = 2,
      dtabs = (\<lambda>_. sample_table), next_dtab = 1, dentry_tables = [(get_root_ino, 0)],
      leases = [(get_root_ino, \<lparr>c_due = 1, leader = True\<rparr>)], self_remote = [], fh_list = [], next_fh = 0,
      jrnl = journal_new, this_client = \<lparr>client_id = 1, client_uid = 0, client_gid = 0\<rparr>, sys = M\<rparr>"

abbreviation sample_entries :: "string \<rightharpoonup> uuid" where
  "sample_entries \<equiv> [''f'' \<mapsto> replicate 16 CHR ''u'']"

lemma sample_client_simps [simp]:
  "ino_of (sample_client M) 0 = get_root_ino" "ino_of (sample_client M) (Suc 0) = replicate 16 CHR ''u''"
  "dir_children (sample_client M) 0 = sample_entries" "jrnl (sample_client M) = journal_new" "sys (sample_client M) = M"
  "rm_find (child_inodes (dtabs (sample_client M) 0)) ''f'' = Some 1" "fh_list (sample_client M) = []" "next_fh (sample_client M) = 0"
  "the_inode (sample_client M) (Suc 0) = sample_file"
  by (simp_all add: sample_client_def sample_table_def sample_inos)

lemma sample_tab: "tab_ok (sample_client M) 0 0"
  using sample_inodes_wf sample_inos file_ino_not_root
  by (auto simp: tab_ok_def dtable_ok_def sample_client_def sample_table_def inj_on_def split: if_splits)

lemma sample_log: "log_is (Some sample_entries) (sample_client M) get_root_ino sample_entries"
  by (simp add: log_is_def journal_ok_new) (simp add: open_tx_def journal_new_def, simp add: transaction_new_def)

lemma sample_dir_ok: "dir_ok (Some sample_entries) (sample_client M) 0 0"
  using sample_tab [of M] sample_log [of M] by (simp add: dir_ok_def)

lemma sample_leased: "leased mem_env (sample_client M) get_root_ino 0"
  by (simp add: leased_def sample_client_def mem_env_def is_valid_def)

end
