(* ===== verification/Local_Coherence.thy ===== *)
theory Local_Coherence
  imports Local_Spec
begin

text \<open>
  The operations that change a directory: each returns, and changes the entries in memory and the
  journal's view of the directory by the same function (\<open>dir_ok\<close> before and after).
\<close>

section \<open>Creation\<close>

text \<open>The number that is drawn is new to the directory and to its open transaction.\<close>

definition fresh_ino :: "'s client_state \<Rightarrow> nat \<Rightarrow> nat \<Rightarrow> uuid \<Rightarrow> bool" where
  "fresh_ino st p d ino \<longleftrightarrow> ino_ok ino \<and> ino \<noteq> ino_of st p \<and> ino \<notin> ran (dir_children st d) \<and>
     rm_find (f_inodes (open_tx (jrnl st) (ino_of st p))) ino = None"

lemma fh_fresh_cong: "fh_list st' = fh_list st \<Longrightarrow> next_fh st' = next_fh st \<Longrightarrow> fh_fresh st' \<longleftrightarrow> fh_fresh st"
  by (simp add: fh_fresh_def)

text \<open>The common part of \<open>mkdir\<close> and \<open>create\<close>: a new inode under a new name\<close>

lemma make_child:
  assumes dir: "dir_ok v st p d" and name: "dir_children st d name = None" and mode: "\<not> S_ISLNK mode"
    and fresh: "fresh_ino st p d (drawn_ino E (sys st))"
  obtains ts st1 st2 st3 where "make_inode E (ino_of st p) mode st = Some (Inr (next_iobj st), st1)"
    and "create_child_inode d name (next_iobj st) st1 = Some (Inr 0, st2)"
    and "set_mtime_ctime E p st2 = Some (Inr (), st3)" and "tab_ok st3 p d" and "child_ok st3 p (next_iobj st)"
    and "log_is v st3 (ino_of st3 p) (dir_children st d)" and "dir_children st3 d = (dir_children st d)(name \<mapsto> drawn_ino E (sys st))"
    and "the_inode st3 (next_iobj st) = inode_new ts (drawn_ino E (sys st)) (ino_of st p)
           (client_uid (this_client st)) (client_gid (this_client st)) mode False"
    and "rm_find (child_inodes (dtabs st3 d)) name = Some (next_iobj st)" and "jrnl st3 = jrnl st" and "ino_of st3 p = ino_of st p"
    and "fh_list st3 = fh_list st" and "next_fh st3 = next_fh st" and "next_iobj st3 = Suc (next_iobj st)"
proof -
  let ?i = "next_iobj st" and ?u = "drawn_ino E (sys st)"
  have tab: "tab_ok st p d" and log: "log_is v st (ino_of st p) (dir_children st d)" using dir by (simp_all add: dir_ok_def)
  have u: "is_uuid ?u" "\<not> is_nil ?u" "?u \<noteq> ino_of st p" "?u \<notin> ran (dir_children st d)"
    using fresh by (simp_all add: fresh_ino_def ino_ok_def)
  obtain ts st1 where st1: "make_inode E (ino_of st p) mode st = Some (Inr ?i, st1)" "tab_ok st1 p d"
    "the_inode st1 ?i = inode_new ts ?u (ino_of st p) (client_uid (this_client st)) (client_gid (this_client st)) mode False"
    "next_iobj st1 = Suc ?i" "dtabs st1 = dtabs st" "jrnl st1 = jrnl st" "ino_of st1 p = ino_of st p"
    "fh_list st1 = fh_list st" "next_fh st1 = next_fh st"
    using make_inode_ok [OF tab] by blast
  have i: "ino_of st1 ?i = ?u" by (simp add: st1(3) inode_new_def)
  have "wf_inode (the_inode st1 ?i)" unfolding st1(3) by (rule wf_inode_new [OF u(1) mode])
  then have c1: "child_ok st1 p ?i" using u i st1(7) by (simp add: child_ok_def)
  obtain st2 where st2: "create_child_inode d name ?i st1 = Some (Inr 0, st2)" "tab_ok st2 p d"
    "dir_children st2 d = (dir_children st1 d)(name \<mapsto> ino_of st1 ?i)" "rm_find (child_inodes (dtabs st2 d)) name = Some ?i"
    "st2 = st1\<lparr>dtabs := (dtabs st1)(d := dtabs st2 d)\<rparr>"
    by (rule create_tab [OF st1(2) _ _ c1, of name]) (use name u i st1(4,5) in simp_all)
  have rest2: "iobjs st2 = iobjs st1" "jrnl st2 = jrnl st" "next_iobj st2 = Suc ?i" "fh_list st2 = fh_list st" "next_fh st2 = next_fh st"
    by (subst st2(5), simp add: st1)+
  obtain st3 where st3: "set_mtime_ctime E p st2 = Some (Inr (), st3)" "touched p st2 st3" by (rule set_mtime_ctime_touched)
  note t3 = touched_rest [OF st3(2)] touched_ino [OF st3(2)]
  have "p \<noteq> ?i" using tab by (simp add: tab_ok_def)
  then have i3: "iobjs st3 ?i = iobjs st1 ?i" using t3(9) [of ?i] rest2(1) by simp
  have "log_is v st3 (ino_of st3 p) (dir_children st d)"
    using log log_is_cong [of st3 st] t3 rest2 st1(7) by simp
  moreover have "child_ok st3 p ?i" using c1 i3 by (simp add: child_ok_def t3(10) rest2(1))
  ultimately show thesis
    using that [of st1 st2 st3 ts] st1 st2 st3(1) touched_tab [OF st3(2) st2(2)] i i3 t3 rest2 by simp
qed

text \<open>A regular file, which also enters the journal\<close>

lemma create_logged:
  assumes dir: "dir_ok v st p d" and name: "name_ok name" "dir_children st d name = None" and mode: "\<not> S_ISLNK mode"
    and fresh: "fresh_ino st p d (drawn_ino E (sys st))"
  obtains st1 st2 st3 st4 where "make_inode E (ino_of st p) mode st = Some (Inr (next_iobj st), st1)"
    and "create_child_inode d name (next_iobj st) st1 = Some (Inr 0, st2)" and "set_mtime_ctime E p st2 = Some (Inr (), st3)"
    and "with_inodes p (next_iobj st) (\<lambda>i f. journal_mkreg i name f) st3 = Some (Inr (), st4)" and "dir_ok v st4 p d"
    and "dir_children st4 d = (dir_children st d)(name \<mapsto> drawn_ino E (sys st))"
    and "rm_find (child_inodes (dtabs st4 d)) name = Some (next_iobj st)" and "ino_of st4 (next_iobj st) = drawn_ino E (sys st)"
    and "i_mode (core (the_inode st4 (next_iobj st))) = mode" and "fh_list st4 = fh_list st" and "next_fh st4 = next_fh st"
proof -
  let ?i = "next_iobj st"
  obtain ts st1 st2 st3 where m: "make_inode E (ino_of st p) mode st = Some (Inr ?i, st1)"
    "create_child_inode d name ?i st1 = Some (Inr 0, st2)" "set_mtime_ctime E p st2 = Some (Inr (), st3)"
    "tab_ok st3 p d" "child_ok st3 p ?i" "log_is v st3 (ino_of st3 p) (dir_children st d)"
    "dir_children st3 d = (dir_children st d)(name \<mapsto> drawn_ino E (sys st))"
    "the_inode st3 ?i = inode_new ts (drawn_ino E (sys st)) (ino_of st p)
       (client_uid (this_client st)) (client_gid (this_client st)) mode False"
    "rm_find (child_inodes (dtabs st3 d)) name = Some ?i" "jrnl st3 = jrnl st" "ino_of st3 p = ino_of st p"
    "fh_list st3 = fh_list st" "next_fh st3 = next_fh st"
    by (rule make_child [OF dir name(2) mode fresh])
  have i: "ino_of st3 ?i = drawn_ino E (sys st)" by (simp add: m(8) inode_new_def)
  have "log_free st3 (ino_of st3 p) (ino_of st3 ?i)" using fresh by (simp add: log_free_def i m(10,11) fresh_ino_def)
  then obtain j' where j': "with_inodes p ?i (\<lambda>i f. journal_mkreg i name f) st3 = Some (Inr (), st3\<lparr>jrnl := j'\<rparr>)"
    "log_is v (st3\<lparr>jrnl := j'\<rparr>) (ino_of st3 p) ((dir_children st d)(name \<mapsto> ino_of st3 ?i))"
    by (rule log_mkreg [OF m(4,6) name m(5)])
  have "dir_ok v (st3\<lparr>jrnl := j'\<rparr>) p d"
    using m(4,7) tab_ok_cong [of "st3\<lparr>jrnl := j'\<rparr>" st3] j'(2) i by (simp add: dir_ok_def)
  then show thesis using m j'(1) i by (intro that [of st1 st2 st3 "st3\<lparr>jrnl := j'\<rparr>"]) (simp_all add: inode_new_def)
qed

text \<open>\<open>create\<close> returns a handle of the new file, whose entry is in memory and in the journal.\<close>

lemma local_create_ok:
  assumes lease: "leased E st (ino_of st p) d" and dir: "dir_ok v st p d" and fh: "fh_fresh st"
    and name: "name_ok name" "dir_children st d name = None" and mode: "\<not> S_ISLNK (mode OR S_IFREG)"
    and fresh: "fresh_ino st p d (drawn_ino E (snd (sys_clock E (sys st))))"
  obtains st' h i where "local_create E p name mode fi st = Some (Inr (fi\<lparr>fi_fh := next_fh st\<rparr>), st')" and "dir_ok v st' p d"
    and "dir_children st' d = (dir_children st d)(name \<mapsto> drawn_ino E (snd (sys_clock E (sys st))))"
    and "rm_find (child_inodes (dtabs st' d)) name = Some i" and "i_mode (core (the_inode st' i)) = mode OR S_IFREG"
    and "rm_find (fh_list st') (next_fh st) = Some h" and "get_open_inode_info h = Inr (Some i)" and "fh_fresh st'"
proof -
  let ?st0 = "st\<lparr>sys := snd (sys_clock E (sys st))\<rparr>" and ?i = "next_iobj st"
  note st0 = table_of_leased [OF lease]
  have dir0: "dir_ok v ?st0 p d" by (rule touched_dir [OF touched_sys dir])
  obtain st1 st2 st3 st4 where m: "make_inode E (ino_of ?st0 p) (mode OR S_IFREG) ?st0 = Some (Inr ?i, st1)"
    "create_child_inode d name ?i st1 = Some (Inr 0, st2)" "set_mtime_ctime E p st2 = Some (Inr (), st3)"
    "with_inodes p ?i (\<lambda>i f. journal_mkreg i name f) st3 = Some (Inr (), st4)" "dir_ok v st4 p d"
    "dir_children st4 d = (dir_children st d)(name \<mapsto> drawn_ino E (sys ?st0))"
    "rm_find (child_inodes (dtabs st4 d)) name = Some ?i" "i_mode (core (the_inode st4 ?i)) = mode OR S_IFREG"
    "fh_list st4 = fh_list st" "next_fh st4 = next_fh st"
    by (rule create_logged [OF dir0 name(1) _ mode, of E]) (use name fresh in \<open>simp_all add: fresh_ino_def\<close>)
  have "fh_fresh st4" using fh m(9,10) fh_fresh_cong [of st4 st] by simp
  then obtain h st5 where st5: "open_handle ?i st4 = Some (Inr (next_fh st4), st5)" "rm_find (fh_list st5) (next_fh st4) = Some h"
    "get_open_inode_info h = Inr (Some ?i)" "fh_fresh st5" "st5 = st4\<lparr>next_fh := Suc (next_fh st4), fh_list := fh_list st5\<rparr>"
    by (rule open_handle_ok)
  have same: "iobjs st5 = iobjs st4" "dtabs st5 = dtabs st4" "next_iobj st5 = next_iobj st4" "jrnl st5 = jrnl st4"
    by (subst st5(5), simp)+
  have "dir_ok v st5 p d" using m(5) tab_ok_cong [of st5 st4] log_is_cong [of st5 st4] same by (simp add: dir_ok_def)
  moreover have "local_create E p name mode fi st = Some (Inr (fi\<lparr>fi_fh := next_fh st\<rparr>), st5)"
    using m(1) by (simp add: local_create_def bnd_def st0 gets_def deref_def ret_def m(2-4) st5(1) m(10))
  ultimately show thesis using m(6-8,10) st5(2-4) same by (intro that) simp_all
qed

text \<open>\<open>mkdir\<close>: the entry goes into the parent's transaction, and a transaction of the new directory
  creates it empty.\<close>

lemma local_mkdir_ok:
  assumes lease: "leased E st (ino_of st p) d" and dir: "dir_ok v st p d"
    and name: "name_ok name" "dir_children st d name = None" and mode: "\<not> S_ISLNK (mode OR S_IFDIR)"
    and u: "u = drawn_ino E (snd (sys_clock E (sys st)))" and fresh: "fresh_ino st p d u" "rm_find (jmap (jrnl st)) u = None"
  obtains st' i where "local_mkdir E p name mode st = Some (Inr (0, i, \<lparr>this_ino = u, child_list = []\<rparr>), st')" and "dir_ok v st' p d"
    and "dir_children st' d = (dir_children st d)(name \<mapsto> u)" and "rm_find (child_inodes (dtabs st' d)) name = Some i"
    and "ino_of st' i = u" and "i_mode (core (the_inode st' i)) = mode OR S_IFDIR" and "i_size (core (the_inode st' i)) = DIR_INODE_SIZE"
    and "\<And>w. tx_view (open_tx (jrnl st') u) w = Some Map.empty"
proof -
  let ?st0 = "st\<lparr>sys := snd (sys_clock E (sys st))\<rparr>" and ?i = "next_iobj st"
  note st0 = table_of_leased [OF lease]
  have dir0: "dir_ok v ?st0 p d" by (rule touched_dir [OF touched_sys dir])
  obtain ts st1 st2 st3 where m: "make_inode E (ino_of ?st0 p) (mode OR S_IFDIR) ?st0 = Some (Inr ?i, st1)"
    "create_child_inode d name ?i st1 = Some (Inr 0, st2)" "set_mtime_ctime E p st2 = Some (Inr (), st3)"
    "tab_ok st3 p d" "child_ok st3 p ?i" "log_is v st3 (ino_of st3 p) (dir_children st d)"
    "dir_children st3 d = (dir_children st d)(name \<mapsto> u)"
    "the_inode st3 ?i = inode_new ts u (ino_of st p) (client_uid (this_client st)) (client_gid (this_client st)) (mode OR S_IFDIR) False"
    "rm_find (child_inodes (dtabs st3 d)) name = Some ?i" "jrnl st3 = jrnl st" "ino_of st3 p = ino_of st p"
    by (rule make_child [OF dir0 _ mode, of name E]) (use name fresh u in \<open>simp_all add: fresh_ino_def\<close>)
  have i: "ino_of st3 ?i = u" by (simp add: m(8) inode_new_def)
  have uu: "is_uuid u" "ino_ok u" "u \<noteq> ino_of st p" using fresh(1) by (simp_all add: fresh_ino_def ino_ok_def)
  have free: "rm_find (f_inodes (open_tx (jrnl st3) (ino_of st3 p))) u \<noteq> Some None" using fresh(1) by (simp add: fresh_ino_def m(10,11))
  obtain j' where j': "with_inode p (\<lambda>i. journal_mkdir i name u) st3 = Some (Inr (), st3\<lparr>jrnl := j'\<rparr>)"
    "log_is v (st3\<lparr>jrnl := j'\<rparr>) (ino_of st3 p) ((dir_children st d)(name \<mapsto> u))"
    "\<And>ino'. ino' \<noteq> ino_of st3 p \<Longrightarrow> open_tx j' ino' = open_tx (jrnl st3) ino'"
    using log_mkdir [OF m(4,6) name uu(2) free] by blast
  let ?st4 = "st3\<lparr>jrnl := j'\<rparr>"
  obtain st5 where st5: "upd_inode ?i (set_size DIR_INODE_SIZE) ?st4 = Some (Inr (), st5)" "touched ?i ?st4 st5"
    by (rule upd_inode_touched [where st = ?st4 and f = "set_size DIR_INODE_SIZE" and a = ?i]) simp_all
  note t5 = touched_rest [OF st5(2)] touched_ino [OF st5(2)]
  have i5: "the_inode st5 ?i = set_size DIR_INODE_SIZE (the_inode st3 ?i)" using st5(1) by (auto simp: upd_inode_def modify_def)
  have new: "open_tx j' u = transaction_new u" using j'(3) [of u] uu(3) m(10,11) fresh(2) by (simp add: open_tx_def)
  have jok: "journal_ok j'" using j'(2) by (simp add: log_is_def)
  have pre: "op_pre (Mkself (the_inode st5 ?i)) (open_tx j' u)"
    using m(5) i i5 by (simp add: new self_ok_def transaction_new_def child_ok_def)
  obtain k where k: "journal_apply u (run_op u (Mkself (the_inode st5 ?i))) j' = Some (Inr (), k)" "journal_ok k"
    "\<And>w. tx_view (open_tx k u) w = op_effect (Mkself (the_inode st5 ?i)) (tx_view (open_tx j' u) w)"
    "\<And>ino'. ino' \<noteq> u \<Longrightarrow> open_tx k ino' = open_tx j' ino'"
    using journal_op [OF jok uu(1) pre] by blast
  let ?st6 = "st5\<lparr>jrnl := k\<rparr>"
  have self: "with_inode ?i journal_mkself st5 = Some (Inr (), ?st6)"
    using k(1) t5(2) t5(10) [of ?i] i by (simp add: with_inode_apply journal_mkself_def on_journal_def zoom_def)
  have d: "on_sys (lift (dentry_new (meta_io E) u True)) st5 = Some (Inr \<lparr>this_ino = u, child_list = []\<rparr>, st5)"
    by (simp add: on_sys_def zoom_def lift_def dentry_new_def)
  have "tab_ok st5 p d" using touched_tab [OF st5(2), of p d] tab_ok_cong [of ?st4 st3] m(4) by simp
  then have "tab_ok ?st6 p d" using tab_ok_cong [of ?st6 st5] by simp
  moreover have "log_is v ?st6 (ino_of ?st6 p) (dir_children ?st6 d)"
    using j'(2) k(2) k(4) [of "ino_of st p"] uu(3) m(7,11) t5(1,10) by (simp add: log_is_def)
  ultimately have "dir_ok v ?st6 p d" by (simp add: dir_ok_def)
  moreover have "local_mkdir E p name mode st = Some (Inr (0, ?i, \<lparr>this_ino = u, child_list = []\<rparr>), ?st6)"
    using m(1) t5(10) by (simp add: local_mkdir_def bnd_def st0 gets_def deref_def ret_def m(2,3) j'(1) i st5(1) d self)
  ultimately show thesis using m(7-9) t5(1) i t5(10) i5 k(3) by (intro that [of ?i ?st6]) (simp_all add: inode_new_def set_size_def)
qed

section \<open>Removal\<close>

text \<open>Taking a child's entry out of the table and of the journal\<close>

lemma rmreg_child:
  assumes dir: "dir_ok v st p d" and name: "name_ok name" and a: "rm_find (child_inodes (dtabs st d)) name = Some a"
  obtains st1 where "delete_child_inode d name st = Some (Inr 0, st1)" and "tab_ok st1 p d"
    and "dir_children st1 d = (dir_children st d)(name := None)" and "st1 = st\<lparr>dtabs := (dtabs st)(d := dtabs st1 d)\<rparr>"
    and "child_ok st p a" and "dir_children st d name = Some (ino_of st a)"
    and "child_inodes (dtabs st1 d) = rm_erase name (child_inodes (dtabs st d))"
proof -
  have tab: "tab_ok st p d" using dir by (simp add: dir_ok_def)
  then have ok: "dtable_ok st d" by (simp add: tab_ok_def)
  have old: "dir_children st d name = Some (ino_of st a)" using ok a by (auto simp: dtable_ok_def split: option.splits)
  have c: "child_ok st p a" using tab a by (auto simp: tab_ok_def child_ok_def)
  obtain st1 where "delete_child_inode d name st = Some (Inr 0, st1)" "tab_ok st1 p d"
    "dir_children st1 d = (dir_children st d)(name := None)" "st1 = st\<lparr>dtabs := (dtabs st)(d := dtabs st1 d)\<rparr>"
    "child_inodes (dtabs st1 d) = rm_erase name (child_inodes (dtabs st d))"
    by (rule delete_tab [OF tab old])
  with old c show thesis by (intro that)
qed

context client_env
begin

lemma unlink_ok:
  assumes lease: "leased E st (ino_of st p) d" and dir: "dir_ok v st p d" and name: "name_ok name"
    and a: "rm_find (child_inodes (dtabs st d)) name = Some a" and nlink: "i_nlink (core (the_inode st a)) = 1"
    and data: "data_file E dobjs st (ino_of st a) c"
  obtains st' where "local_unlink E p name st = Some (Inr (), st')" and "dir_ok v st' p d"
    and "dir_children st' d = (dir_children st d)(name := None)" and "data_file E dobjs st' (ino_of st a) []"
    and "\<not> rados_present dobjs (sys st') DATA (uuid_to_string (data_io E) (ino_of st a))"
proof -
  let ?k = "uuid_to_string (data_io E) (ino_of st a)"
  obtain s0 where s0: "table_of E p st = Some (Inr (Some d), st\<lparr>sys := s0\<rparr>)" "dobjs s0 = dobjs (sys st)"
    using table_of_data [OF lease] by blast
  let ?st0 = "st\<lparr>sys := s0\<rparr>"
  have dir0: "dir_ok v ?st0 p d" by (rule touched_dir [OF touched_sys dir])
  then have tab0: "tab_ok ?st0 p d" by (simp add: dir_ok_def)
  obtain st1 where st1: "get_child_inode d name nil_uuid ?st0 = Some (Inr (Some a), st1)" "touched a ?st0 st1"
    "the_inode st1 a = set_loc LOCAL (the_inode ?st0 a)" "sys st1 = sys ?st0"
    by (rule get_child_touched [OF tab0, of name a]) (use a in simp_all)
  note t1 = touched_rest [OF st1(2)] touched_ino [OF st1(2)]
  have ino1: "ino_of st1 a = ino_of st a" using t1(10) by simp
  have "rados_file dobjs (sys st1) DATA ?k c" using data s0(2) st1(4) by (simp add: rados_file_def)
  then obtain s2 where s2: "rados_remove (data_io E) DATA ?k (sys st1) = Some (Inr (), s2)" "rados_file dobjs s2 DATA ?k []"
    "\<not> rados_present dobjs s2 DATA ?k" by (rule pool_remove)
  let ?st2 = "st1\<lparr>sys := s2\<rparr>"
  have rem: "on_sys (rados_remove (data_io E) DATA ?k) st1 = Some (Inr (), ?st2)" using s2(1) by (simp add: on_sys_def zoom_def)
  have dir2: "dir_ok v ?st2 p d" by (rule touched_dir [OF touched_sys touched_dir [OF st1(2) dir0]])
  have a2: "rm_find (child_inodes (dtabs ?st2 d)) name = Some a" using a t1(1) by simp
  obtain st3 where st3: "delete_child_inode d name ?st2 = Some (Inr 0, st3)" "tab_ok st3 p d"
    "dir_children st3 d = (dir_children ?st2 d)(name := None)" "st3 = ?st2\<lparr>dtabs := (dtabs ?st2)(d := dtabs st3 d)\<rparr>"
    "child_ok ?st2 p a" "dir_children ?st2 d name = Some (ino_of ?st2 a)"
    by (rule rmreg_child [OF dir2 name a2])
  have rest3: "iobjs st3 = iobjs st1" "jrnl st3 = jrnl st1" "sys st3 = s2" by (subst st3(4), simp)+
  obtain st4 where st4: "set_mtime_ctime E p st3 = Some (Inr (), st4)" "touched p st3 st4" "dobjs (sys st4) = dobjs (sys st3)"
    by (rule set_mtime_ctime_data)
  note t4 = touched_rest [OF st4(2)] touched_ino [OF st4(2)]
  have tab4: "tab_ok st4 p d" by (rule touched_tab [OF st4(2) st3(2)])
  have log4: "log_is v st4 (ino_of st4 p) (dir_children ?st2 d)"
    using dir2 log_is_cong [of st4 ?st2] t4 rest3 by (simp add: dir_ok_def)
  have c4: "child_ok st4 p a"
    using st3(5) touched_wf [OF st4(2), of a] by (simp add: child_ok_def t4(10) rest3)
  have name4: "dir_children ?st2 d name = Some (ino_of st4 a)" using st3(6) by (simp add: t4(10) rest3)
  have inj: "inj_on (dir_children ?st2 d) (dom (dir_children ?st2 d))" using dir2 by (simp add: dir_ok_def tab_ok_def)
  obtain j' where j': "with_inodes p a (\<lambda>i f. journal_rmreg i name f) st4 = Some (Inr (), st4\<lparr>jrnl := j'\<rparr>)"
    "log_is v (st4\<lparr>jrnl := j'\<rparr>) (ino_of st4 p) ((dir_children ?st2 d)(name := None))"
    by (rule log_rmreg [OF tab4 log4 name name4 inj c4])
  let ?st5 = "st4\<lparr>jrnl := j'\<rparr>"
  have "dir_ok v ?st5 p d"
    using tab4 tab_ok_cong [of ?st5 st4] j'(2) st3(3) t4(1) by (simp add: dir_ok_def)
  moreover have "local_unlink E p name st = Some (Inr (), ?st5)"
    using nlink rem ino1 st1(3)
    by (simp add: local_unlink_def bnd_def s0(1) gets_def deref_def ret_def st1(1) set_loc_def st3(1) st4(1) j'(1))
  ultimately show thesis
    using st3(3) t4(1) t1(1) s2(2,3) st4(3) rest3(3) by (intro that [of ?st5]) (simp_all add: rados_file_def rados_present_def)
qed

end

section \<open>Renaming\<close>

text \<open>The two halves of a rename: an entry leaves the table and the journal, and one enters both.\<close>

lemma remove_child:
  assumes dir: "dir_ok v st p d" and name: "name_ok name" and a: "rm_find (child_inodes (dtabs st d)) name = Some a"
  obtains st1 st2 where "delete_child_inode d name st = Some (Inr 0, st1)"
    and "with_inodes p a (\<lambda>i f. journal_rmreg i name f) st1 = Some (Inr (), st2)" and "dir_ok v st2 p d"
    and "dir_children st2 d = (dir_children st d)(name := None)" and "iobjs st2 = iobjs st" and "next_iobj st2 = next_iobj st"
    and "log_free st2 (ino_of st p) (ino_of st a)" and "ino_of st a \<notin> ran (dir_children st2 d)" and "child_ok st2 p a"
    and "child_inodes (dtabs st2 d) = rm_erase name (child_inodes (dtabs st d))"
    and "\<forall>i. log_free st (ino_of st p) i \<longrightarrow> log_free st2 (ino_of st p) i" and "sys st2 = sys st"
proof -
  obtain st1 where st1: "delete_child_inode d name st = Some (Inr 0, st1)" "tab_ok st1 p d"
    "dir_children st1 d = (dir_children st d)(name := None)" "st1 = st\<lparr>dtabs := (dtabs st)(d := dtabs st1 d)\<rparr>"
    "child_ok st p a" "dir_children st d name = Some (ino_of st a)" "child_inodes (dtabs st1 d) = rm_erase name (child_inodes (dtabs st d))"
    by (rule rmreg_child [OF dir name a])
  have rest: "iobjs st1 = iobjs st" "jrnl st1 = jrnl st" "next_iobj st1 = next_iobj st" "sys st1 = sys st" by (subst st1(4), simp)+
  have log1: "log_is v st1 (ino_of st1 p) (dir_children st d)"
    using dir log_is_cong [of st1 st] rest by (simp add: dir_ok_def)
  have inj: "inj_on (dir_children st d) (dom (dir_children st d))" using dir by (simp add: dir_ok_def tab_ok_def)
  have name1: "dir_children st d name = Some (ino_of st1 a)" and c1: "child_ok st1 p a" using st1(5,6) rest by (simp_all add: child_ok_def)
  obtain j' where j': "with_inodes p a (\<lambda>i f. journal_rmreg i name f) st1 = Some (Inr (), st1\<lparr>jrnl := j'\<rparr>)"
    "log_is v (st1\<lparr>jrnl := j'\<rparr>) (ino_of st1 p) ((dir_children st d)(name := None))" "log_free (st1\<lparr>jrnl := j'\<rparr>) (ino_of st1 p) (ino_of st1 a)"
    "\<forall>i. log_free st1 (ino_of st1 p) i \<longrightarrow> log_free (st1\<lparr>jrnl := j'\<rparr>) (ino_of st1 p) i"
    by (rule log_rmreg [OF st1(2) log1 name name1 inj c1])
  have "dir_ok v (st1\<lparr>jrnl := j'\<rparr>) p d"
    using st1(2,3) tab_ok_cong [of "st1\<lparr>jrnl := j'\<rparr>" st1] j'(2) by (simp add: dir_ok_def)
  moreover have "ino_of st a \<notin> ran ((dir_children st d)(name := None))"
    using inj st1(6) by (auto simp: ran_def inj_on_def dom_def split: if_splits)
  moreover have "child_ok (st1\<lparr>jrnl := j'\<rparr>) p a" using c1 by (simp add: child_ok_def)
  ultimately show thesis using st1(1,3,7) j'(1,3,4) rest by (intro that [of st1 "st1\<lparr>jrnl := j'\<rparr>"]) (simp_all add: log_free_def)
qed

lemma enter_child:
  assumes dir: "dir_ok v st p d" and name: "name_ok name" "dir_children st d name = None" and a: "a < next_iobj st" "child_ok st p a"
    and fresh: "ino_of st a \<notin> ran (dir_children st d)" "log_free st (ino_of st p) (ino_of st a)"
  obtains st1 st2 where "create_child_inode d name a st = Some (Inr 0, st1)"
    and "with_inodes p a (\<lambda>i f. journal_mkreg i name f) st1 = Some (Inr (), st2)" and "dir_ok v st2 p d"
    and "dir_children st2 d = (dir_children st d)(name \<mapsto> ino_of st a)" and "rm_find (child_inodes (dtabs st2 d)) name = Some a"
    and "iobjs st2 = iobjs st" and "sys st2 = sys st"
proof -
  have tab: "tab_ok st p d" and log: "log_is v st (ino_of st p) (dir_children st d)" using dir by (simp_all add: dir_ok_def)
  obtain st1 where st1: "create_child_inode d name a st = Some (Inr 0, st1)" "tab_ok st1 p d"
    "dir_children st1 d = (dir_children st d)(name \<mapsto> ino_of st a)" "rm_find (child_inodes (dtabs st1 d)) name = Some a"
    "st1 = st\<lparr>dtabs := (dtabs st)(d := dtabs st1 d)\<rparr>"
    by (rule create_tab [OF tab name(2) a fresh(1)])
  have rest: "iobjs st1 = iobjs st" "jrnl st1 = jrnl st" "sys st1 = sys st" by (subst st1(5), simp)+
  have log1: "log_is v st1 (ino_of st1 p) (dir_children st d)" using log log_is_cong [of st1 st] rest by simp
  have c1: "child_ok st1 p a" and f1: "log_free st1 (ino_of st1 p) (ino_of st1 a)"
    using a(2) fresh(2) rest by (simp_all add: child_ok_def log_free_def)
  obtain j' where j': "with_inodes p a (\<lambda>i f. journal_mkreg i name f) st1 = Some (Inr (), st1\<lparr>jrnl := j'\<rparr>)"
    "log_is v (st1\<lparr>jrnl := j'\<rparr>) (ino_of st1 p) ((dir_children st d)(name \<mapsto> ino_of st1 a))"
    by (rule log_mkreg [OF st1(2) log1 name c1 f1])
  have "dir_ok v (st1\<lparr>jrnl := j'\<rparr>) p d"
    using st1(2,3) tab_ok_cong [of "st1\<lparr>jrnl := j'\<rparr>" st1] j'(2) rest by (simp add: dir_ok_def)
  then show thesis using st1(1,3,4) j'(1) rest by (intro that [of st1 "st1\<lparr>jrnl := j'\<rparr>"]) simp_all
qed

text \<open>An entry that the rename replaces\<close>

lemma replace_entry_ok:
  assumes dir: "dir_ok v st p d" and name: "name_ok name" and b: "rm_find (child_inodes (dtabs st d)) name = Some b"
  obtains st' where "replace_entry d p name st = Some (Inr (), st')" and "dir_ok v st' p d"
    and "dir_children st' d = (dir_children st d)(name := None)" and "next_iobj st' = next_iobj st"
    and "\<forall>a. ino_of st' a = ino_of st a" and "child_inodes (dtabs st' d) = rm_erase name (child_inodes (dtabs st d))"
    and "\<forall>x. core (the_inode st' x) = core (the_inode st x) \<and> (child_ok st p x \<longrightarrow> child_ok st' p x)"
    and "\<forall>i. log_free st (ino_of st p) i \<longrightarrow> log_free st' (ino_of st p) i" and "sys st' = sys st"
proof -
  have tab: "tab_ok st p d" using dir by (simp add: dir_ok_def)
  obtain st1 where st1: "get_child_inode d name nil_uuid st = Some (Inr (Some b), st1)" "touched b st st1"
    "the_inode st1 b = set_loc LOCAL (the_inode st b)" "sys st1 = sys st"
    by (rule get_child_touched [OF tab b])
  note t1 = touched_rest [OF st1(2)] touched_ino [OF st1(2)]
  have dir1: "dir_ok v st1 p d" by (rule touched_dir [OF st1(2) dir])
  have b1: "rm_find (child_inodes (dtabs st1 d)) name = Some b" using b t1(1) by simp
  obtain st2 st3 where st3: "delete_child_inode d name st1 = Some (Inr 0, st2)"
    "with_inodes p b (\<lambda>i f. journal_rmreg i name f) st2 = Some (Inr (), st3)" "dir_ok v st3 p d"
    "dir_children st3 d = (dir_children st1 d)(name := None)" "iobjs st3 = iobjs st1" "next_iobj st3 = next_iobj st1"
    "child_inodes (dtabs st3 d) = rm_erase name (child_inodes (dtabs st1 d))"
    "\<forall>i. log_free st1 (ino_of st1 p) i \<longrightarrow> log_free st3 (ino_of st1 p) i" "sys st3 = sys st1"
    by (rule remove_child [OF dir1 name b1])
  have core: "core (the_inode st3 x) = core (the_inode st x)" for x
    using st1(3) st3(5) t1(9) [of x] by (cases "x = b") (simp_all add: set_loc_def)
  have child: "child_ok st p x \<longrightarrow> child_ok st3 p x" for x
    using touched_wf [OF st1(2), of x] st3(5) t1(10) by (simp add: child_ok_def)
  have "replace_entry d p name st = Some (Inr (), st3)"
    by (simp add: replace_entry_def bnd_def st1(1) st3(1,2) deref_def ret_def)
  then show thesis using st3 st1(4) t1 core child by (intro that [of st3]) (simp_all add: log_free_def)
qed

lemma make_room:
  assumes dir: "dir_ok v st p d" and name: "name_ok name" and chk: "chk = (case dir_children st d name of None \<Rightarrow> nil_uuid | Some i \<Rightarrow> i)"
  obtains st' where "(if \<not> is_nil chk then replace_entry d p name else ret ()) st = Some (Inr (), st')" and "dir_ok v st' p d"
    and "dir_children st' d = (dir_children st d)(name := None)" and "next_iobj st' = next_iobj st"
    and "\<forall>a. ino_of st' a = ino_of st a"
    and "\<forall>k. k \<noteq> name \<longrightarrow> rm_find (child_inodes (dtabs st' d)) k = rm_find (child_inodes (dtabs st d)) k"
    and "\<forall>x. core (the_inode st' x) = core (the_inode st x) \<and> (child_ok st p x \<longrightarrow> child_ok st' p x)"
    and "\<forall>i. log_free st (ino_of st p) i \<longrightarrow> log_free st' (ino_of st p) i" and "sys st' = sys st"
proof (cases "dir_children st d name")
  case None
  then show thesis using dir chk by (intro that [of st]) (auto simp: is_nil_def nil_uuid_def ret_def fun_upd_idem)
next
  case (Some i)
  have tab: "tab_ok st p d" using dir by (simp add: dir_ok_def)
  obtain b where b: "rm_find (child_inodes (dtabs st d)) name = Some b" "ino_of st b = i" "child_ok st p b" by (rule child_inode [OF tab Some])
  obtain st' where st': "replace_entry d p name st = Some (Inr (), st')" "dir_ok v st' p d"
    "dir_children st' d = (dir_children st d)(name := None)" "next_iobj st' = next_iobj st"
    "\<forall>a. ino_of st' a = ino_of st a" "child_inodes (dtabs st' d) = rm_erase name (child_inodes (dtabs st d))"
    "\<forall>x. core (the_inode st' x) = core (the_inode st x) \<and> (child_ok st p x \<longrightarrow> child_ok st' p x)"
    "\<forall>i. log_free st (ino_of st p) i \<longrightarrow> log_free st' (ino_of st p) i" "sys st' = sys st"
    by (rule replace_entry_ok [OF dir name b(1)])
  have "\<not> is_nil chk" using b(2,3) Some chk by (simp add: child_ok_def)
  with st' show thesis by (intro that [of st']) (simp_all add: rm_find_erase)
qed

lemma rename_same_parent_ok:
  assumes lease: "leased E st (ino_of st p) d" and dir: "dir_ok v st p d"
    and paths: "paradox_check old_path new_path = Inr False" "get_filename_from_path old_path = Inr old" "get_filename_from_path new_path = Inr new"
    and names: "name_ok old" "name_ok new" "old \<noteq> new" "new \<noteq> ''/''" and src: "dir_children st d old = Some ino"
  obtains st' where "local_rename_same_parent E p old_path new_path 0 st = Some (Inr 0, st')" and "dir_ok v st' p d"
    and "dir_children st' d = (dir_children st d)(old := None, new \<mapsto> ino)"
proof -
  let ?st0 = "st\<lparr>sys := snd (sys_clock E (sys st))\<rparr>"
  note st0 = table_of_leased [OF lease]
  have dir0: "dir_ok v ?st0 p d" by (rule touched_dir [OF touched_sys dir])
  then have tab0: "tab_ok ?st0 p d" by (simp add: dir_ok_def)
  obtain a where a: "rm_find (child_inodes (dtabs ?st0 d)) old = Some a" "ino_of ?st0 a = ino" "a < next_iobj ?st0"
    by (rule child_inode [OF tab0, of old ino]) (use src in simp_all)
  obtain st1 where st1: "get_child_inode d old nil_uuid ?st0 = Some (Inr (Some a), st1)" "touched a ?st0 st1"
    by (rule get_child_touched [OF tab0 a(1)])
  note t1 = touched_rest [OF st1(2)] touched_ino [OF st1(2)]
  have dir1: "dir_ok v st1 p d" by (rule touched_dir [OF st1(2) dir0])
  then have ok1: "dtable_ok st1 d" by (simp add: dir_ok_def tab_ok_def)
  note check = check_child_inode_local [OF ok1 names(4), of E]
  obtain st2 where st2: "set_mtime_ctime E p st1 = Some (Inr (), st2)" "touched p st1 st2" by (rule set_mtime_ctime_touched)
  note t2 = touched_rest [OF st2(2)] touched_ino [OF st2(2)]
  have dir2: "dir_ok v st2 p d" by (rule touched_dir [OF st2(2) dir1])
  let ?chk = "(case dir_children st1 d new of None \<Rightarrow> nil_uuid | Some i \<Rightarrow> i)"
  obtain st3 where st3: "(if \<not> is_nil ?chk then replace_entry d p new else ret ()) st2 = Some (Inr (), st3)" "dir_ok v st3 p d"
    "dir_children st3 d = (dir_children st d)(new := None)" "next_iobj st3 = next_iobj st" "\<forall>a. ino_of st3 a = ino_of st a"
    "\<forall>k. k \<noteq> new \<longrightarrow> rm_find (child_inodes (dtabs st3 d)) k = rm_find (child_inodes (dtabs st d)) k"
    by (rule make_room [OF dir2 names(2), of ?chk]) (use t1 t2 in simp_all)
  have a3: "rm_find (child_inodes (dtabs st3 d)) old = Some a" using st3(6) names(3) a(1) by simp
  obtain st4 st5 where st5: "delete_child_inode d old st3 = Some (Inr 0, st4)"
    "with_inodes p a (\<lambda>i f. journal_rmreg i old f) st4 = Some (Inr (), st5)" "dir_ok v st5 p d"
    "dir_children st5 d = (dir_children st3 d)(old := None)" "iobjs st5 = iobjs st3" "next_iobj st5 = next_iobj st3"
    "log_free st5 (ino_of st3 p) (ino_of st3 a)" "ino_of st3 a \<notin> ran (dir_children st5 d)" "child_ok st5 p a"
    by (rule remove_child [OF st3(2) names(1) a3])
  obtain st6 st7 where st7: "create_child_inode d new a st5 = Some (Inr 0, st6)"
    "with_inodes p a (\<lambda>i f. journal_mkreg i new f) st6 = Some (Inr (), st7)" "dir_ok v st7 p d"
    "dir_children st7 d = (dir_children st5 d)(new \<mapsto> ino_of st5 a)"
    by (rule enter_child [OF st5(3) names(2), of a]) (use st3(3,4) st5(4-9) a(3) in simp_all)
  have "local_rename_same_parent E p old_path new_path 0 st = Some (Inr 0, st7)"
    using st3(1) by (simp add: local_rename_same_parent_def paths bnd_def st0 deref_def ret_def st1(1) check st2(1) st5(1,2) st7(1,2))
  moreover have "dir_children st7 d = (dir_children st d)(old := None, new \<mapsto> ino)"
    using st7(4) st5(4,5) st3(3,5) a(2) names(3) by (simp add: fun_upd_twist)
  ultimately show thesis using st7(3) by (intro that [of st7]) simp_all
qed

section \<open>Removal of directories\<close>

text \<open>\<open>rmdir_top\<close> on the directory's own leader: a directory with entries is refused.\<close>

lemma rmdir_top_ok:
  assumes lease: "leased E st ino d" and tab: "dtable_ok st d" and j: "journal_ok (jrnl st)" and u: "is_uuid ino"
  obtains st' where "local_rmdir_top E t ino st = Some (Inr (if dir_children st d = Map.empty then 0 else - ENOTEMPTY), st')"
    and "dir_children st d \<noteq> Map.empty \<Longrightarrow> st' = st\<lparr>sys := sys st'\<rparr>"
    and "dir_children st d = Map.empty \<Longrightarrow> rm_find (dentry_tables st') ino = None \<and> (\<forall>w. tx_view (open_tx (jrnl st') ino) w = None)"
proof -
  let ?st0 = "st\<lparr>sys := snd (sys_clock E (sys st))\<rparr>"
  note st0 = get_dentry_table_leased [OF lease]
  from tab obtain ds where ds: "dt_dentries (dtabs st d) = Some ds" by (auto simp: dtable_ok_def split: option.splits)
  have num: "0 < get_child_num ds \<longleftrightarrow> children ds \<noteq> Map.empty"
    by (cases "child_list ds") (auto simp: get_child_num_def)
  show thesis
  proof (cases "children ds = Map.empty")
    case False
    with num st0 ds show thesis
      by (intro that [of ?st0]) (simp_all add: local_rmdir_top_def bnd_def table_get_child_num_def ret_def)
  next
    case True
    have pre: "op_pre Rmself (open_tx (jrnl st) ino)" by simp
    obtain j' where j': "journal_apply ino (run_op ino Rmself) (jrnl st) = Some (Inr (), j')"
      "\<And>v. tx_view (open_tx j' ino) v = op_effect Rmself (tx_view (open_tx (jrnl st) ino) v)"
      using journal_op [OF j u pre] by blast
    have "local_rmdir_top E t ino st = Some (Inr 0, ?st0\<lparr>jrnl := j', dentry_tables := rm_erase ino (dentry_tables st)\<rparr>)"
      using True num lease j'(1)
      by (simp add: local_rmdir_top_def bnd_def st0 table_get_child_num_def ds ret_def on_journal_def zoom_def journal_rmself_def
          delete_dentry_table_def leased_def)
    with True ds j'(2) show thesis
      by (intro that [of "?st0\<lparr>jrnl := j', dentry_tables := rm_erase ino (dentry_tables st)\<rparr>"]) (simp_all add: rm_find_erase)
  qed
qed

text \<open>\<open>rmdir_down\<close> on the leader of the parent\<close>

lemma rmdir_down_ok:
  assumes lease: "leased E st (ino_of st p) d" and dir: "dir_ok v st p d" and name: "name_ok name"
    and old: "dir_children st d name = Some i" and target: "ino_ok target"
  obtains st' where "local_rmdir_down E p target name st = Some (Inr 0, st')" and "dir_ok v st' p d"
    and "dir_children st' d = (dir_children st d)(name := None)" and "rm_find (dentry_tables st') target = None"
proof -
  let ?st0 = "st\<lparr>sys := snd (sys_clock E (sys st))\<rparr>"
  note st0 = table_of_leased [OF lease]
  have dir0: "dir_ok v ?st0 p d" by (rule touched_dir [OF touched_sys dir])
  have tab0: "tab_ok ?st0 p d" using dir0 by (simp add: dir_ok_def)
  have old0: "dir_children ?st0 d name = Some i" using old by simp
  obtain st1 where st1: "delete_child_inode d name ?st0 = Some (Inr 0, st1)" "tab_ok st1 p d"
    "dir_children st1 d = (dir_children ?st0 d)(name := None)" "st1 = ?st0\<lparr>dtabs := (dtabs ?st0)(d := dtabs st1 d)\<rparr>"
    by (rule delete_tab [OF tab0 old0])
  have rest: "iobjs st1 = iobjs st" "jrnl st1 = jrnl st" by (subst st1(4), simp)+
  obtain st2 where st2: "set_mtime_ctime E p st1 = Some (Inr (), st2)" "touched p st1 st2" by (rule set_mtime_ctime_touched)
  note t2 = touched_rest [OF st2(2)] touched_ino [OF st2(2)]
  have tab2: "tab_ok st2 p d" by (rule touched_tab [OF st2(2) st1(2)])
  have log2: "log_is v st2 (ino_of st2 p) (dir_children st d)"
    using dir log_is_cong [of st2 st] rest t2 by (simp add: dir_ok_def)
  obtain j' where j': "with_inode p (\<lambda>i. journal_rmdir i name target) st2 = Some (Inr (), st2\<lparr>jrnl := j'\<rparr>)"
    "log_is v (st2\<lparr>jrnl := j'\<rparr>) (ino_of st2 p) ((dir_children st d)(name := None))"
    by (rule log_rmdir [OF tab2 log2 name old target])
  let ?st3 = "st2\<lparr>jrnl := j'\<rparr>"
  obtain r st4 where st4: "delete_dentry_table target ?st3 = Some (Inr r, st4)" "rm_find (dentry_tables st4) target = None"
    "st4 = ?st3\<lparr>dentry_tables := dentry_tables st4\<rparr>"
    by (cases "rm_find (dentry_tables ?st3) target") (auto simp: delete_dentry_table_def rm_find_erase)
  have rest4: "iobjs st4 = iobjs st2" "dtabs st4 = dtabs st2" "next_iobj st4 = next_iobj st2" "jrnl st4 = j'"
    by (subst st4(3), simp)+
  have "dir_ok v st4 p d"
    using tab2 tab_ok_cong [of st4 st2] log_is_cong [of st4 ?st3] j'(2) rest4 t2(1) st1(3) by (simp add: dir_ok_def)
  moreover have "local_rmdir_down E p target name st = Some (Inr 0, st4)"
    by (simp add: local_rmdir_down_def bnd_def st0 st1(1) st2(1) j'(1) st4(1) ret_def)
  ultimately show thesis using st1(3) t2(1) rest4(2) st4(2) by (intro that [of st4]) simp_all
qed

section \<open>Properties\<close>

text \<open>C9. \<open>local_create\<close> on a directory whose lease is valid: it returns a handle of the new file; the name
  leads to the number that was drawn, the inode has the mode asked for, and the entries in memory
  and the journal's view of the directory stay the same directory.\<close>

theorem local_create_coherent:
  assumes "leased E st (ino_of st p) d" and "dir_ok v st p d" and "fh_fresh st"
    and "name_ok name" and "dir_children st d name = None" and "\<not> S_ISLNK (mode OR S_IFREG)"
    and "fresh_ino st p d (drawn_ino E (snd (sys_clock E (sys st))))"
  shows "\<exists>st' h i. local_create E p name mode fi st = Some (Inr (fi\<lparr>fi_fh := next_fh st\<rparr>), st') \<and> dir_ok v st' p d
    \<and> dir_children st' d = (dir_children st d)(name \<mapsto> drawn_ino E (snd (sys_clock E (sys st))))
    \<and> rm_find (child_inodes (dtabs st' d)) name = Some i \<and> i_mode (core (the_inode st' i)) = mode OR S_IFREG
    \<and> rm_find (fh_list st') (next_fh st) = Some h \<and> get_open_inode_info h = Inr (Some i)"
  using local_create_ok [OF assms, of fi] by metis

lemma mem_env_simps [simp]:
  "snd (sys_clock mem_env s) = s" "drawn_ino mem_env s = replicate 16 CHR ''w''" "data_io mem_env = mem_ext"
  by (simp_all add: mem_env_def drawn_ino_def)

lemma sample_fresh: "fresh_ino (sample_client M) 0 0 (replicate 16 CHR ''w'')"
proof -
  have "ino_ok (replicate 16 CHR ''w'')" "replicate 16 CHR ''w'' \<noteq> get_root_ino" by code_simp+
  then show ?thesis by (simp add: fresh_ino_def open_tx_def journal_new_def transaction_new_def)
qed

lemma sample_modes: "\<not> S_ISLNK (0x1A4 OR S_IFREG)" "\<not> S_ISLNK (0x1ED OR S_IFDIR)"
  by (simp_all add: S_ISLNK_def S_IFREG_def S_IFDIR_def S_IFMT_def S_IFLNK_def)

lemma sample_names: "name_ok ''f''" "name_ok ''g''"
  by (simp_all add: name_ok_def)

theorem local_create_coherent_witness:
  "\<exists>st'. local_create mem_env 0 ''g'' 0x1A4 \<lparr>fi_flags = 0, fi_fh = 0\<rparr> (sample_client Map.empty)
       = Some (Inr \<lparr>fi_flags = 0, fi_fh = 0\<rparr>, st')
     \<and> dir_children st' 0 = sample_entries(''g'' \<mapsto> replicate 16 CHR ''w'')"
  using local_create_coherent [of mem_env "sample_client Map.empty" 0 0 "Some sample_entries" "''g''" "0x1A4" "\<lparr>fi_flags = 0, fi_fh = 0\<rparr>"]
    sample_leased sample_dir_ok sample_fresh sample_modes(1) sample_names(2) by (auto simp: fh_fresh_def)

text \<open>C19. \<open>local_mkdir\<close>: the new name is entered in memory and in the parent's transaction alike, and a
  transaction of the new directory creates it empty.\<close>

theorem local_mkdir_coherent:
  assumes "leased E st (ino_of st p) d" and "dir_ok v st p d" and "name_ok name" and "dir_children st d name = None"
    and "\<not> S_ISLNK (mode OR S_IFDIR)" and "u = drawn_ino E (snd (sys_clock E (sys st)))" and "fresh_ino st p d u"
    and "rm_find (jmap (jrnl st)) u = None"
  shows "\<exists>st' i. local_mkdir E p name mode st = Some (Inr (0, i, \<lparr>this_ino = u, child_list = []\<rparr>), st') \<and> dir_ok v st' p d
    \<and> dir_children st' d = (dir_children st d)(name \<mapsto> u) \<and> rm_find (child_inodes (dtabs st' d)) name = Some i
    \<and> i_mode (core (the_inode st' i)) = mode OR S_IFDIR \<and> i_size (core (the_inode st' i)) = DIR_INODE_SIZE
    \<and> (\<forall>w. tx_view (open_tx (jrnl st') u) w = Some Map.empty)"
  using local_mkdir_ok [OF assms] by metis

theorem local_mkdir_coherent_witness:
  "\<exists>st' i. local_mkdir mem_env 0 ''g'' 0x1ED (sample_client Map.empty)
       = Some (Inr (0, i, \<lparr>this_ino = replicate 16 CHR ''w'', child_list = []\<rparr>), st')
     \<and> dir_children st' 0 = sample_entries(''g'' \<mapsto> replicate 16 CHR ''w'')"
proof -
  have "rm_find (jmap (jrnl (sample_client Map.empty))) (replicate 16 CHR ''w'') = None" by (simp add: journal_new_def)
  then show ?thesis
    using local_mkdir_coherent [of mem_env "sample_client Map.empty" 0 0 "Some sample_entries" "''g''" "0x1ED" "replicate 16 CHR ''w''"]
      sample_leased sample_dir_ok sample_fresh sample_modes(2) sample_names(2) by auto
qed

text \<open>C14. \<open>local_unlink\<close> of a file with one link removes its entry from the table and the journal's view
  alike, and its data from the data pool.\<close>

theorem local_unlink_coherent:
  assumes "client_env E dobjs" and "leased E st (ino_of st p) d" and "dir_ok v st p d" and "name_ok name"
    and "rm_find (child_inodes (dtabs st d)) name = Some a" and "i_nlink (core (the_inode st a)) = 1"
    and "data_file E dobjs st (ino_of st a) c"
  shows "\<exists>st'. local_unlink E p name st = Some (Inr (), st') \<and> dir_ok v st' p d
    \<and> dir_children st' d = (dir_children st d)(name := None) \<and> data_file E dobjs st' (ino_of st a) []
    \<and> \<not> rados_present dobjs (sys st') DATA (uuid_to_string (data_io E) (ino_of st a))"
  using client_env.unlink_ok [OF assms] by metis

theorem local_unlink_coherent_witness:
  "\<exists>st'. local_unlink mem_env 0 ''f'' (sample_client Map.empty) = Some (Inr (), st') \<and> dir_children st' 0 = Map.empty"
proof -
  have "i_nlink (core (the_inode (sample_client Map.empty) 1)) = 1" by (simp add: sample_file_def inode_new_def)
  then show ?thesis
    using local_unlink_coherent [of mem_env "\<lambda>M. M" "sample_client Map.empty" 0 0 "Some sample_entries" "''f''" 1 "[]"]
      mem_client_env sample_leased sample_dir_ok sample_names(1) mem_empty_file by auto
qed

text \<open>C10. \<open>local_rename_same_parent\<close> moves an entry to its new name, in place of an entry that had the
  name, in the table and in the journal's view alike.\<close>

theorem local_rename_coherent:
  assumes "leased E st (ino_of st p) d" and "dir_ok v st p d" and "paradox_check old_path new_path = Inr False"
    and "get_filename_from_path old_path = Inr old" and "get_filename_from_path new_path = Inr new"
    and "name_ok old" and "name_ok new" and "old \<noteq> new" and "new \<noteq> ''/''" and "dir_children st d old = Some ino"
  shows "\<exists>st'. local_rename_same_parent E p old_path new_path 0 st = Some (Inr 0, st') \<and> dir_ok v st' p d
    \<and> dir_children st' d = (dir_children st d)(old := None, new \<mapsto> ino)"
  using rename_same_parent_ok [OF assms] by metis

theorem local_rename_coherent_witness:
  "\<exists>st'. local_rename_same_parent mem_env 0 ''/f'' ''/g'' 0 (sample_client Map.empty) = Some (Inr 0, st')
     \<and> dir_children st' 0 = [''g'' \<mapsto> replicate 16 CHR ''u'']"
proof -
  have "paradox_check ''/f'' ''/g'' = Inr False" "get_filename_from_path ''/f'' = Inr ''f''" "get_filename_from_path ''/g'' = Inr ''g''"
    by code_simp+
  then show ?thesis
    using local_rename_coherent [of mem_env "sample_client Map.empty" 0 0 "Some sample_entries" "''/f''" "''/g''" "''f''" "''g''" "replicate 16 CHR ''u''"]
      sample_leased sample_dir_ok sample_names by auto
qed

text \<open>Removing a directory. Its leader refuses while there are entries, and changes nothing but the
  clock; an empty one leaves the table of directories, and its transaction deletes it.\<close>

theorem local_rmdir_top_spec:
  assumes "leased E st ino d" and "dtable_ok st d" and "journal_ok (jrnl st)" and "is_uuid ino"
  shows "\<exists>st'. local_rmdir_top E t ino st = Some (Inr (if dir_children st d = Map.empty then 0 else - ENOTEMPTY), st')
    \<and> (if dir_children st d = Map.empty
        then rm_find (dentry_tables st') ino = None \<and> (\<forall>w. tx_view (open_tx (jrnl st') ino) w = None)
        else st' = st\<lparr>sys := sys st'\<rparr>)"
proof -
  obtain st' where "local_rmdir_top E t ino st = Some (Inr (if dir_children st d = Map.empty then 0 else - ENOTEMPTY), st')"
    "dir_children st d \<noteq> Map.empty \<Longrightarrow> st' = st\<lparr>sys := sys st'\<rparr>"
    "dir_children st d = Map.empty \<Longrightarrow> rm_find (dentry_tables st') ino = None \<and> (\<forall>w. tx_view (open_tx (jrnl st') ino) w = None)"
    using rmdir_top_ok [OF assms] by metis
  then show ?thesis by (cases "dir_children st d = Map.empty") auto
qed

theorem local_rmdir_top_spec_witness:
  "\<exists>st'. local_rmdir_top mem_env 0 get_root_ino (sample_client Map.empty) = Some (Inr (- ENOTEMPTY), st')"
proof -
  have "dtable_ok (sample_client Map.empty) 0" using sample_tab by (simp add: tab_ok_def)
  then show ?thesis
    using local_rmdir_top_spec [OF sample_leased _ _ is_uuid_root, of Map.empty 0] journal_ok_new by auto
qed

text \<open>\<open>local_rmdir_down\<close> takes the entry out of the parent's table and of the journal's view alike, and
  the removed directory has no table any more.\<close>

theorem local_rmdir_down_coherent:
  assumes "leased E st (ino_of st p) d" and "dir_ok v st p d" and "name_ok name"
    and "dir_children st d name = Some i" and "ino_ok target"
  shows "\<exists>st'. local_rmdir_down E p target name st = Some (Inr 0, st') \<and> dir_ok v st' p d
    \<and> dir_children st' d = (dir_children st d)(name := None) \<and> rm_find (dentry_tables st') target = None"
  using rmdir_down_ok [OF assms] by metis

theorem local_rmdir_down_coherent_witness:
  "\<exists>st'. local_rmdir_down mem_env 0 (replicate 16 CHR ''u'') ''f'' (sample_client Map.empty) = Some (Inr 0, st')
     \<and> dir_children st' 0 = Map.empty"
proof -
  have "ino_ok (replicate 16 CHR ''u'')" by code_simp
  then show ?thesis
    using local_rmdir_down_coherent [of mem_env "sample_client Map.empty" 0 0 "Some sample_entries" "''f''"
        "replicate 16 CHR ''u''" "replicate 16 CHR ''u''"]
      sample_leased sample_dir_ok sample_names by auto
qed

end
