(* ===== verification/Journal_Inodes.thy ===== *)
theory Journal_Inodes
  imports Journal_Spec
begin

text \<open>
  What the journal does for the inodes of files. An operation on a directory may carry the inode of
  a file, or say that the file is gone; a transaction keeps the latest of these, and \<open>sync\<close> writes
  the inodes it has. As for the entries, the steps of the threads change nothing in what the pool
  and the transactions on their way say of a file; an operation that completes adds what it carries.

  This holds for a file whose inode goes through the transactions of one directory only: those of
  different directories are checkpointed by different threads, in no order.
\<close>

section \<open>What is said of a file\<close>

text \<open>\<open>None\<close>: nothing; \<open>Some None\<close>: it is gone; \<open>Some (Some i)\<close>: it has inode \<open>i\<close>.\<close>

type_synonym saying = "inode option option"

definition later :: "saying \<Rightarrow> saying \<Rightarrow> saying" where
  "later x v = (case x of None \<Rightarrow> v | Some y \<Rightarrow> Some y)"

lemma later_simps [simp]: "later None v = v" "later (Some y) v = Some y"
  by (simp_all add: later_def)

lemma later_assoc: "later x (later y v) = later (later x y) v"
  by (cases x) simp_all

definition op_says :: "uuid \<Rightarrow> dir_op \<Rightarrow> saying" where
  "op_says w op = op_files op Map.empty w"

lemma op_files_says: "op_files op m w = later (op_says w op) (m w)"
  by (cases op) (simp_all add: op_says_def)

definition tx_says :: "uuid \<Rightarrow> transaction \<Rightarrow> saying" where
  "tx_says w tx = rm_find (f_inodes tx) w"

lemma run_op_says: "run_op ino op tx = (Inr 0, tx') \<Longrightarrow> tx_says w tx' = later (op_says w op) (tx_says w tx)"
  using run_op_files [of ino op tx tx'] by (simp add: tx_says_def op_files_says)

lemma run_op_status: "run_op ino op tx = (Inr 0, tx') \<Longrightarrow> status tx' = S_DELETED \<Longrightarrow> status tx = S_DELETED \<or> op = Rmself"
  by (cases op) (auto simp: tx_mkself_def tx_rmself_def tx_chself_def tx_mkdir_def tx_rmdir_def tx_mvdir_def
      tx_mkreg_def tx_rmreg_def tx_mvreg_def tx_chreg_def Let_def set_dentry_def dest!: put_dentry_Inr
      split: if_splits sum.splits option.splits prod.splits)

text \<open>What a sequence of operations, and what the transactions on a path say in the end\<close>

definition ops_say :: "uuid \<Rightarrow> dir_op list \<Rightarrow> saying \<Rightarrow> saying" where
  "ops_say w ops v = fold (\<lambda>op. later (op_says w op)) ops v"

definition path_says :: "uuid \<Rightarrow> (nat \<Rightarrow> transaction) \<Rightarrow> nat list \<Rightarrow> saying \<Rightarrow> saying" where
  "path_says w h p v = fold (\<lambda>a. later (tx_says w (h a))) p v"

lemma path_says_cong: "(\<And>a. a \<in> set p \<Longrightarrow> tx_says w (h a) = tx_says w (h' a)) \<Longrightarrow> path_says w h p v = path_says w h' p v"
  unfolding path_says_def by (rule fold_cong) auto

lemma path_says_append: "path_says w h (p @ q) v = path_says w h q (path_says w h p v)"
  by (simp add: path_says_def)

lemma path_says_blank: "(\<And>a. a \<in> set p \<Longrightarrow> tx_says w (h a) = None) \<Longrightarrow> path_says w h p v = v"
  by (induction p arbitrary: v) (simp_all add: path_says_def)

lemma tx_says_new [simp]: "tx_says w (transaction_new ino) = None"
  by (simp add: tx_says_def transaction_new_def)

section \<open>Invariant\<close>

text \<open>What the pool holds agrees with what was said last among the transactions already checkpointed.\<close>

definition pool_says :: "'s ext \<Rightarrow> ('s \<Rightarrow> string \<rightharpoonup> bytes) \<Rightarrow> 's \<Rightarrow> 's \<Rightarrow> uuid \<Rightarrow> saying \<Rightarrow> bool" where
  "pool_says X objs s0 s w v =
     (case v of
        None \<Rightarrow> \<forall>i. i_ino (core i) = w \<longrightarrow> (inode_at X objs s i \<longleftrightarrow> inode_at X objs s0 i)
      | Some None \<Rightarrow> True
      | Some (Some i) \<Rightarrow> inode_at X objs s i \<and> i_ino (core i) = w)"

lemma pool_says_same:
  assumes "pool_says X objs s0 s w v" and "files_same objs W s s'" and "(INODE, uuid_to_string X w) \<notin> W"
  shows "pool_says X objs s0 s' w v"
  using assms inode_at_same [OF assms(2)] by (auto simp: pool_says_def split: option.splits)

definition no_dir :: "'s jsys \<Rightarrow> uuid \<Rightarrow> bool" where
  "no_dir s w \<longleftrightarrow> (\<forall>a < next_tx (jn s). s_ino (txs (jn s) a) \<noteq> w)"

text \<open>The transactions on a path say only what the operations of their directory say, and remove the directory only if an operation does.\<close>

definition said :: "(uuid \<times> dir_op) list \<Rightarrow> 's jsys \<Rightarrow> uuid \<Rightarrow> bool" where
  "said tr s w \<longleftrightarrow> (\<forall>u. \<forall>a \<in> set (path s u).
     (status (txs (jn s) a) = S_DELETED \<longrightarrow> Rmself \<in> set (ops_of u tr)) \<and>
     (tx_says w (txs (jn s) a) \<noteq> None \<longrightarrow> (\<exists>op \<in> set (ops_of u tr). op_says w op \<noteq> None)))"

definition finv :: "'s ext \<Rightarrow> ('s \<Rightarrow> string \<rightharpoonup> bytes) \<Rightarrow> 's \<Rightarrow> uuid \<Rightarrow> uuid \<Rightarrow> (uuid \<times> dir_op) list \<Rightarrow> 's jsys \<Rightarrow> bool" where
  "finv X objs s0 u w tr s \<longleftrightarrow> said tr s w \<and>
     (\<exists>v. pool_says X objs s0 (pool s) w v \<and> path_says w (txs (jn s)) (path s u) v = ops_say w (ops_of u tr) None)"

text \<open>The file goes through the transactions of one directory, which is not removed.\<close>

definition owned :: "uuid \<Rightarrow> uuid \<Rightarrow> (uuid \<times> dir_op) list \<Rightarrow> bool" where
  "owned u w tr \<longleftrightarrow> (\<forall>(u', op) \<in> set tr. (op_says w op \<noteq> None \<longrightarrow> u' = u) \<and> (u' = u \<longrightarrow> op \<noteq> Rmself))"

text \<open>Inode \<open>i\<close> is the last that the operations carried, or the one the pool had all along.\<close>

definition carried :: "'s ext \<Rightarrow> ('s \<Rightarrow> string \<rightharpoonup> bytes) \<Rightarrow> 's \<Rightarrow> uuid \<Rightarrow> (uuid \<times> dir_op) list \<Rightarrow> 's jsys \<Rightarrow> uuid \<Rightarrow> inode \<Rightarrow> bool" where
  "carried X objs s u tr s' w i \<longleftrightarrow> is_uuid w \<and> no_dir s' w \<and> owned u w tr \<and>
     (case ops_say w (ops_of u tr) None of
        None \<Rightarrow> inode_at X objs s i \<and> i_ino (core i) = w
      | Some x \<Rightarrow> x = Some i)"

section \<open>Steps\<close>

text \<open>A step that leaves what is said on every path, and perhaps adds new transactions\<close>

lemma finv_quiet:
  assumes "finv X objs s0 u w tr s" and path: "\<And>u'. path s' u' = path s u' @ e u'"
    and old: "\<And>u' a. a \<in> set (path s u') \<Longrightarrow> tx_says w (txs (jn s') a) = tx_says w (txs (jn s) a) \<and> status (txs (jn s') a) = status (txs (jn s) a)"
    and new: "\<And>u' a. a \<in> set (e u') \<Longrightarrow> txs (jn s') a = transaction_new u'"
    and pool: "\<And>v. pool_says X objs s0 (pool s) w v \<Longrightarrow> pool_says X objs s0 (pool s') w v"
  shows "finv X objs s0 u w tr s'"
proof -
  have blank: "status (txs (jn s') a) \<noteq> S_DELETED \<and> tx_says w (txs (jn s') a) = None" if "a \<in> set (e u')" for u' a
    using new [OF that] tx_says_new [of w u'] by (simp add: transaction_new_def)
  have "said tr s' w" 
    unfolding said_def path
  proof (intro allI ballI)
    fix u' a assume "a \<in> set (path s u' @ e u')"
    then consider "a \<in> set (path s u')" | "a \<in> set (e u')" by auto
    then show "(status (txs (jn s') a) = S_DELETED \<longrightarrow> Rmself \<in> set (ops_of u' tr)) \<and>
        (tx_says w (txs (jn s') a) \<noteq> None \<longrightarrow> (\<exists>op \<in> set (ops_of u' tr). op_says w op \<noteq> None))"
    proof cases
      case 1
      then show ?thesis using assms(1) old by (simp add: finv_def said_def)
    next
      case 2
      then show ?thesis using blank by simp
    qed
  qed
  moreover have "path_says w (txs (jn s')) (path s' u) v = path_says w (txs (jn s)) (path s u) v" for v
  proof -
    have "path_says w (txs (jn s')) (e u) x = x" for x by (rule path_says_blank) (use blank in blast)
    moreover have "path_says w (txs (jn s')) (path s u) v = path_says w (txs (jn s)) (path s u) v"
      by (rule path_says_cong) (simp add: old)
    ultimately show ?thesis by (simp add: path path_says_append)
  qed
  ultimately show ?thesis using assms(1) pool unfolding finv_def by auto
qed

lemma fetch_finv:
  assumes inv: "jinv X objs s" and get: "get_entry ino (jn s) = (a, j)" and f: "finv X objs s0 u w tr s"
  shows "finv X objs s0 u w tr (s\<lparr>jn := j, held := h\<rparr>)"
proof (cases "rm_find (jmap (jn s)) ino")
  case (Some b)
  with get have j: "j = jn s" by (simp add: get_entry_def)
  have path: "path (s\<lparr>jn := j, held := h\<rparr>) u' = path s u'" for u' by (rule path_cong) (simp_all add: j)
  show ?thesis by (rule finv_quiet [OF f, where e = "\<lambda>_. []"]) (use path in \<open>simp_all add: j\<close>)
next
  case None
  note new = fetch_new [OF inv None get]
  show ?thesis
  proof (rule finv_quiet [OF f])
    show "path (s\<lparr>jn := j, held := h\<rparr>) u' = path s u' @ (if u' = ino then [a] else [])" for u' by (rule new(3))
    fix u' b
    show "txs (jn (s\<lparr>jn := j, held := h\<rparr>)) b = transaction_new u'" if "b \<in> set (if u' = ino then [a] else [])"
      using that by (auto simp: new(2) split: if_splits)
    assume "b \<in> set (path s u')"
    then have "b \<noteq> a" using new(4) by blast
    then show "tx_says w (txs (jn (s\<lparr>jn := j, held := h\<rparr>)) b) = tx_says w (txs (jn s) b)
        \<and> status (txs (jn (s\<lparr>jn := j, held := h\<rparr>)) b) = status (txs (jn s) b)" by (simp add: new(2))
  qed simp
qed

lemma retry_finv:
  assumes run: "run_op ino op (txs (jn s) a) = (Inr r, tx)" and r: "r \<noteq> 0" and f: "finv X objs s0 u w tr s"
  shows "finv X objs s0 u w tr (s\<lparr>jn := (jn s)\<lparr>txs := (txs (jn s))(a := tx)\<rparr>, held := h\<rparr>)" (is "finv _ _ _ _ _ _ ?s")
proof -
  have heap: "(txs (jn s))(a := tx) = txs (jn s)" using run_op_retry [OF run r] by simp
  have path: "path ?s u' = path s u'" for u' by (rule path_cong) (simp_all add: heap)
  show ?thesis by (rule finv_quiet [OF f, where e = "\<lambda>_. []"]) (use path in \<open>simp_all add: heap\<close>)
qed

lemma swap_finv:
  assumes idle: "pending s = []" and rep: "replace_map (jn s) = (m, j)" and f: "finv X objs s0 u w tr s"
  shows "finv X objs s0 u w tr (s\<lparr>jn := j, pending := m\<rparr>)"
proof -
  have j: "m = jmap (jn s)" "j = (jn s)\<lparr>jmap := []\<rparr>" using rep by (simp_all add: replace_map_def)
  have path: "path (s\<lparr>jn := j, pending := m\<rparr>) u' = path s u'" for u'
    by (simp add: path_def queued_def j idle) (simp add: waiting_def)
  show ?thesis by (rule finv_quiet [OF f, where e = "\<lambda>_. []"]) (use path in \<open>simp_all add: j\<close>)
qed

lemma complete_finv:
  assumes inv: "jinv X objs s" and held: "held s ino = Some (op, a)" and run: "run_op ino op (txs (jn s) a) = (Inr 0, tx)"
    and ino: "s_ino tx = s_ino (txs (jn s) a)" and f: "finv X objs s0 u w tr s"
  shows "finv X objs s0 u w (tr @ [(ino, op)]) (s\<lparr>jn := (jn s)\<lparr>txs := (txs (jn s))(a := tx)\<rparr>, held := h\<rparr>)" (is "finv _ _ _ _ _ ?tr ?s")
proof -
  let ?h = "txs (jn s)"
  have opn: "\<not> committed (?h a)" using run run_op_committed by fastforce
  with jinvD(11) [OF inv held] obtain p where p: "path s ino = p @ [a]" by (metis append_butlast_last_id)
  have last: "a \<notin> set p" using jinvD(9) [OF inv, of ino] p by simp
  have own: "a \<in> set (path s u') \<Longrightarrow> u' = ino" for u' using path_member(1) [OF inv, of a] p by (metis in_set_conv_decomp)
  have path: "path ?s u' = path s u'" for u' by (rule path_cong) (use ino in auto)
  have ops: "ops_of u' ?tr = ops_of u' tr @ (if u' = ino then [op] else [])" for u' by (simp add: ops_of_def)
  have sub: "x \<in> set (ops_of u' tr) \<Longrightarrow> x \<in> set (ops_of u' ?tr)" for u' x by (simp add: ops)
  note s = f [unfolded finv_def said_def]
  have "said ?tr ?s w"
    unfolding said_def path
  proof (intro allI ballI)
    fix u' b assume b: "b \<in> set (path s u')"
    then have sb: "status (?h b) = S_DELETED \<Longrightarrow> Rmself \<in> set (ops_of u' tr)"
      "tx_says w (?h b) \<noteq> None \<Longrightarrow> \<exists>op \<in> set (ops_of u' tr). op_says w op \<noteq> None" using s by blast+
    show "(status (txs (jn ?s) b) = S_DELETED \<longrightarrow> Rmself \<in> set (ops_of u' ?tr)) \<and>
        (tx_says w (txs (jn ?s) b) \<noteq> None \<longrightarrow> (\<exists>op \<in> set (ops_of u' ?tr). op_says w op \<noteq> None))"
    proof (cases "b = a")
      case False
      then have "txs (jn ?s) b = ?h b" by simp
      then show ?thesis using sb sub by metis
    next
      case True
      then have u': "u' = ino" using own b by simp
      have "tx_says w tx = later (op_says w op) (tx_says w (?h a))" by (rule run_op_says [OF run])
      then have "tx_says w tx \<noteq> None \<Longrightarrow> op_says w op \<noteq> None \<or> tx_says w (?h a) \<noteq> None" by (cases "op_says w op") auto
      moreover have "status tx = S_DELETED \<Longrightarrow> status (?h a) = S_DELETED \<or> op = Rmself" by (rule run_op_status [OF run])
      moreover have "op \<in> set (ops_of u' ?tr)" "txs (jn ?s) b = tx" using u' True by (simp_all add: ops)
      ultimately show ?thesis using sb sub True by metis
    qed
  qed
  moreover have "path_says w (?h(a := tx)) (path s u) v = ops_say w (ops_of u ?tr) None"
    if v: "path_says w ?h (path s u) v = ops_say w (ops_of u tr) None" for v
  proof (cases "u = ino")
    case False
    then have "a \<notin> set (path s u)" using own by blast
    then have "path_says w (?h(a := tx)) (path s u) v = path_says w ?h (path s u) v" by (intro path_says_cong) auto
    then show ?thesis using v False by (simp add: ops)
  next
    case True
    have "path_says w (?h(a := tx)) p v = path_says w ?h p v" using last by (intro path_says_cong) auto
    then show ?thesis
      using v True run_op_says [OF run, of w] p by (simp add: ops path_says_append ops_say_def) (simp add: path_says_def later_assoc [symmetric])
  qed
  ultimately show ?thesis using s unfolding finv_def path by auto
qed

context cluster
begin

lemma commit_finv:
  assumes inv: "jinv X objs s" and p: "pending s = (ino, a) # rest" and c: "commit_one X ino a (jn s, pool s) = Some (Inr (), j, s')"
    and f: "finv X objs s0 u w tr s"
  shows "finv X objs s0 u w tr (s\<lparr>jn := j, pending := rest, pool := s'\<rparr>)" (is "finv _ _ _ _ _ _ ?s")
proof -
  obtain off where j: "j = issue_to (queue_of ino) (Some a) ((jn s)\<lparr>txs := (txs (jn s))(a := (txs (jn s) a)\<lparr>committed := True, tx_offset := off\<rparr>)\<rparr>)"
    and same: "files_same objs {(JOURNAL, uuid_to_string X ino)} (pool s) s'"
    using commit_one_at [OF inv p c] .
  have h: "tx_says w (txs (jn ?s) b) = tx_says w (txs (jn s) b) \<and> status (txs (jn ?s) b) = status (txs (jn s) b)" for b
    by (simp add: j issue_to_def issue_def tx_says_def)
  show ?thesis
    by (rule finv_quiet [OF f, where e = "\<lambda>_. []"])
      (use commit_path [OF inv p j] h pool_says_same [OF _ same] in simp_all)
qed

text \<open>A checkpoint writes what its transaction says, and touches no other file.\<close>

lemma checkpoint_pool:
  assumes wf: "wf_tx tx" and w: "is_uuid w" "s_ino tx \<noteq> w" and live: "tx_says w tx \<noteq> None \<Longrightarrow> status tx \<noteq> S_DELETED"
    and same: "files_same objs (insert (JOURNAL, uuid_to_string X (s_ino tx)) (tx_files X tx)) s s'"
    and written: "status tx \<noteq> S_DELETED \<Longrightarrow> \<forall>n \<in> tx_inodes tx. inode_at X objs s' n"
    and v: "pool_says X objs s0 s w v"
  shows "pool_says X objs s0 s' w (later (tx_says w tx) v)"
proof (cases "tx_says w tx")
  case None
  have other: "uuid_to_string X (i_ino (core i)) \<noteq> uuid_to_string X w" if "i \<in> tx_inodes tx" for i
  proof -
    have "i_ino (core i) \<noteq> w" "wf_inode i" using that wf w(2) None by (auto simp: tx_inodes_def wf_tx_def tx_says_def)
    then show ?thesis using w(1) by (simp add: wf_inode_def uuid_to_string_eq_iff)
  qed
  have "uuid_to_string X (s_ino tx) \<noteq> uuid_to_string X w" using w wf by (simp add: wf_tx_def uuid_to_string_eq_iff)
  then have "(INODE, uuid_to_string X w) \<notin> insert (JOURNAL, uuid_to_string X (s_ino tx)) (tx_files X tx)"
    using other by (force simp: tx_files_def)
  then show ?thesis using None pool_says_same [OF v same] by simp
next
  case (Some x)
  show ?thesis
  proof (cases x)
    case None
    then show ?thesis using Some by (simp add: pool_says_def)
  next
    case i: (Some i)
    then have "i \<in> tx_inodes tx" "i_ino (core i) = w" using Some wf by (auto simp: tx_inodes_def tx_says_def wf_tx_def)
    then show ?thesis using written live Some i by (simp add: pool_says_def)
  qed
qed

lemma checkpoint_finv:
  assumes inv: "jinv X objs s" and q: "queues (jn s) i = Some a # q" and fit: "fits X objs (pool s) (txs (jn s) a)"
    and c: "checkpoint_one X i (jn s, pool s) = Some (Inr True, j, s')" and f: "finv X objs s0 u w tr s"
    and w: "is_uuid w" "no_dir s w" and own: "owned u w tr"
  shows "finv X objs s0 u w tr (s\<lparr>jn := j, pool := s'\<rparr>)" (is "finv _ _ _ _ _ _ ?s")
proof -
  let ?tx = "txs (jn s) a" and ?ino = "s_ino (txs (jn s) a)"
  note at = checkpoint_one_at [OF inv q fit c] and path = checkpoint_path [OF inv q checkpoint_one_at(1) [OF inv q fit c]]
  have wf: "wf_tx ?tx" and a: "a < next_tx (jn s)" using jinvD(5,6) [OF inv, of a i] q by simp_all
  have heap: "txs (jn ?s) = txs (jn s)" by (simp add: at(1))
  have sub: "b \<in> set (path ?s u') \<Longrightarrow> b \<in> set (path s u')" for b u' using path [of u' s'] by (auto split: if_splits)
  have here: "a \<in> set (path s ?ino)" using path [of ?ino s'] by simp
  have said: "said tr ?s w" using f sub unfolding finv_def said_def heap by blast
  have mem: "op \<in> set (ops_of u' tr) \<longleftrightarrow> (u', op) \<in> set tr" for u' op by (force simp: ops_of_def)
  have mine: "?ino = u" if "tx_says w ?tx \<noteq> None"
    using f here that own unfolding finv_def said_def owned_def by (fastforce simp: mem)
  have live: "status ?tx \<noteq> S_DELETED" if "tx_says w ?tx \<noteq> None"
    using f here mine [OF that] own unfolding finv_def said_def owned_def by (fastforce simp: mem)
  obtain v where v: "pool_says X objs s0 (pool s) w v" "path_says w (txs (jn s)) (path s u) v = ops_say w (ops_of u tr) None"
    using f by (auto simp: finv_def)
  have pool: "pool_says X objs s0 s' w (later (tx_says w ?tx) v)"
    by (rule checkpoint_pool [OF wf w(1) _ live at(5,6) v(1)]) (use w(2) a in \<open>auto simp: no_dir_def\<close>)
  have "path_says w (txs (jn s)) (path ?s u) (later (tx_says w ?tx) v) = ops_say w (ops_of u tr) None"
  proof (cases "u = ?ino")
    case True
    then show ?thesis using v(2) path [of u s'] by (simp add: path_says_def)
  next
    case False
    then have "tx_says w ?tx = None" using mine by blast
    then show ?thesis using v(2) path [of u s'] False by simp
  qed
  then show ?thesis using said pool heap unfolding finv_def by auto
qed

end

section \<open>Runs\<close>

lemma run_op_dir:
  assumes "jinv X objs s" and "held s ino = Some (op, a)" and "op_pre op (txs (jn s) a)" and "run_op ino op (txs (jn s) a) = (Inr 0, tx)"
  shows "s_ino tx = s_ino (txs (jn s) a)"
proof -
  have opn: "\<not> committed (txs (jn s) a)" using assms(4) run_op_committed by fastforce
  then have "a \<in> set (path s ino)" using jinvD(11) [OF assms(1,2)] last_in_set by blast
  then have "wf_tx (txs (jn s) a)" using path_member(2) [OF assms(1)] by blast
  then show ?thesis using run_op_effect [OF _ opn assms(3), of ino] assms(4) by (auto simp: tx_effect_def)
qed

lemma owned_prefix: "owned u w (tr @ l) \<Longrightarrow> owned u w tr"
  by (auto simp: owned_def)

context cluster
begin

lemma jstep_no_dir: "jstep X objs s l s' \<Longrightarrow> jinv X objs s \<Longrightarrow> no_dir s' w \<Longrightarrow> no_dir s w"
proof (induction rule: jstep.induct)
  case (fetch ino s a j op)
  then show ?case
    by (cases "rm_find (jmap (jn s)) ino") (auto simp: no_dir_def get_entry_def rm_simps Let_def less_Suc_eq)
next
  case (complete s ino op a tx)
  then show ?case using run_op_dir [of X objs s ino op a tx] by (auto simp: no_dir_def split: if_splits)
next
  case (retry s ino op a r tx)
  then show ?case using run_op_retry [of ino op "txs (jn s) a" r tx] by (auto simp: no_dir_def split: if_splits)
next
  case (swap s m j)
  then show ?case by (auto simp: no_dir_def replace_map_def)
next
  case (commit s ino a rest j s')
  obtain off where "j = issue_to (queue_of ino) (Some a) ((jn s)\<lparr>txs := (txs (jn s))(a := (txs (jn s) a)\<lparr>committed := True, tx_offset := off\<rparr>)\<rparr>)"
    using commit_one_at [OF commit.prems(1) commit.hyps] .
  then show ?case using commit.prems(2) by (auto simp: no_dir_def issue_to_def issue_def split: if_splits)
next
  case (checkpoint s i a q j s')
  then show ?case using checkpoint_one_at(1) [OF checkpoint.prems(1) checkpoint.hyps] by (simp add: no_dir_def)
qed

lemma jstep_finv:
  "jstep X objs s l s' \<Longrightarrow> jinv X objs s \<Longrightarrow> finv X objs s0 u w tr s \<Longrightarrow> is_uuid w \<Longrightarrow> no_dir s w \<Longrightarrow> owned u w tr \<Longrightarrow>
   finv X objs s0 u w (tr @ l) s'"
  by (induction rule: jstep.induct)
    (auto intro: fetch_finv complete_finv retry_finv swap_finv commit_finv checkpoint_finv dest: run_op_dir)

lemma jrun_finv:
  assumes "jrun X objs s tr s'" and "jinv X objs s" and "finv X objs s0 u w [] s" and "is_uuid w" and "no_dir s' w" and "owned u w tr"
  shows "jinv X objs s' \<and> finv X objs s0 u w tr s'"
  using assms
proof (induction rule: jrun.induct)
  case (more s tr s1 l s2)
  have inv: "jinv X objs s1" using more.hyps(1) more.prems(1)
  proof (induction rule: jrun.induct)
    case (more s tr s1 l s2)
    then show ?case using jstep_ok [of s1 l s2] by (simp add: step_ok_def)
  qed
  have nd: "no_dir s1 w" using jstep_no_dir [OF more.hyps(2) inv more.prems(4)] .
  have "finv X objs s0 u w tr s1" using more.IH more.prems nd owned_prefix by blast
  then show ?case
    using jstep_finv [OF more.hyps(2) inv _ more.prems(3) nd owned_prefix [OF more.prems(5)]] jstep_ok [OF more.hyps(2) inv] by (simp add: step_ok_def)
qed simp

lemma finv_init: "finv X objs s u w [] (jinit s)"
  by (auto simp: finv_def said_def jinit_def journal_new_def path_def queued_def waiting_def path_says_def ops_say_def ops_of_def pool_says_def
      intro!: exI [of _ None])

lemma inodes_durable:
  assumes "jrun X objs (jinit s) tr s'" and "store_ok objs s" and "dirs_ok X objs s" and "is_uuid w" and "no_dir s' w" and "owned u w tr"
    and "path s' u = []"
  shows "pool_says X objs s (pool s') w (ops_say w (ops_of u tr) None)"
  using jrun_finv [OF assms(1) jinv_init [OF assms(2,3)] finv_init assms(4-6)] assms(7)
  by (auto simp: finv_def path_says_def)

lemma carried_stored:
  assumes "jrun X objs (jinit s) tr s'" and "store_ok objs s" and "dirs_ok X objs s" and "path s' u = []" and c: "carried X objs s u tr s' w i"
  shows "inode_at X objs (pool s') i \<and> i_ino (core i) = w"
  using inodes_durable [OF assms(1-3) _ _ _ assms(4), of w] c by (auto simp: carried_def pool_says_def split: option.splits)

end

section \<open>Property\<close>


text \<open>A run: the root directory is created, then a file in it, before both are committed and checkpointed.\<close>

abbreviation sample_ops :: "(uuid \<times> dir_op) list" where
  "sample_ops \<equiv> [(get_root_ino, Mkself sample_root), (get_root_ino, Mkreg sample_root ''f'' sample_file)]"

lemma sample_mkreg:
  obtains s where "jrun mem_ext (\<lambda>M. M) (jinit Map.empty) sample_ops s" and "sample_open s" and "txs (jn s) 0 = sample_tx"
proof -
  obtain s0 where s0: "jrun mem_ext (\<lambda>M. M) (jinit Map.empty) [(get_root_ino, Mkself sample_root)] s0" "sample_open s0"
    "txs (jn s0) 0 = snd (tx_mkself sample_root (transaction_new get_root_ino))"
    using sample_completed .
  obtain tx where tx: "tx_mkself sample_root (transaction_new get_root_ino) = (Inr 0, tx)" "wf_tx tx" "\<not> committed tx"
    "s_ino tx = get_root_ino" "status tx = S_CREATED" "dentries tx = []" "f_inodes tx = []"
    using sample_mkself [of None] .
  let ?op = "Mkreg sample_root ''f'' sample_file"
  have pre: "op_pre ?op tx"
    using tx sample_inodes_wf file_ino_not_root by (simp add: sample_inos self_ok_def name_ok_def file_ok_def)
  then have run: "run_op get_root_ino ?op tx = (Inr 0, sample_tx)"
    using run_op_effect [OF tx(2,3) pre, of get_root_ino] tx(1) by (auto simp: tx_effect_def sample_tx_def)
  have get: "get_entry get_root_ino (jn s0) = (0, jn s0)" using s0(2) by (simp add: sample_open_def get_entry_def)
  let ?s1 = "s0\<lparr>held := [get_root_ino \<mapsto> (?op, 0)]\<rparr>"
  have "jstep mem_ext (\<lambda>M. M) s0 [] ?s1"
    using jstep.fetch [OF is_uuid_root _ get, of mem_ext "\<lambda>M. M" ?op] s0(2) by (simp add: sample_open_def)
  from jrun.more [OF s0(1) this] have r1: "jrun mem_ext (\<lambda>M. M) (jinit Map.empty) [(get_root_ino, Mkself sample_root)] ?s1" by simp
  let ?s2 = "?s1\<lparr>jn := (jn ?s1)\<lparr>txs := (txs (jn ?s1))(0 := sample_tx)\<rparr>, held := (held ?s1)(get_root_ino := None)\<rparr>"
  have "jstep mem_ext (\<lambda>M. M) ?s1 [(get_root_ino, ?op)] ?s2"
    by (rule jstep.complete) (use s0(3) tx(1) pre run in simp_all)
  from jrun.more [OF r1 this] have r2: "jrun mem_ext (\<lambda>M. M) (jinit Map.empty) sample_ops ?s2" by simp
  show thesis by (rule that [OF r2]) (use s0(2) sample_tx_facts in \<open>simp_all add: sample_open_def\<close>)
qed

lemma sample_stored:
  obtains s where "jrun mem_ext (\<lambda>M. M) (jinit Map.empty) sample_ops s" and "path s get_root_ino = []"
    and "inode_at mem_ext (\<lambda>M. M) (pool s) (inode_copy sample_root)" and "no_dir s (replicate 16 CHR ''u'')"
proof -
  obtain s0 where s0: "jrun mem_ext (\<lambda>M. M) (jinit Map.empty) sample_ops s0" "sample_open s0" "txs (jn s0) 0 = sample_tx"
    using sample_mkreg .
  obtain tx where tx: "tx_mkself sample_root (transaction_new get_root_ino) = (Inr 0, tx)" "\<not> committed tx" "dentries tx = []" "f_inodes tx = []"
    using sample_mkself [of None] .
  moreover have "s_inode tx = Some (inode_copy sample_root)" using tx(1) by (auto simp: tx_mkself_def transaction_new_def)
  ultimately have "inode_copy sample_root \<in> tx_inodes sample_tx"
    by (simp add: inode_copy_def sample_tx_def tx_mkreg_def put_dentry_def rm_insert_def Let_def tx_inodes_def touch_self_def)
  note root = this
  have inv: "jinv mem_ext (\<lambda>M. M) s0" by (rule mem.jrun_inv [OF s0(1) jinv_init [OF mem_empty_ok mem_dirs_ok]])
  obtain s where s: "jrun mem_ext (\<lambda>M. M) s0 [] s" "path s get_root_ino = []"
    "\<And>i. i \<in> tx_inodes sample_tx \<Longrightarrow> inode_at mem_ext (\<lambda>M. M) (pool s) i" "next_tx (jn s) = 1" "s_ino (txs (jn s) 0) = get_root_ino"
  proof (rule sample_rest [OF inv _ _ _ s0(3) sample_tx_facts(2,3) _ sample_dir_bytes(1)])
    show "tx_view sample_tx = (\<lambda>v. Some [''f'' \<mapsto> replicate 16 CHR ''u''])" by (rule ext) (rule sample_tx_facts(4))
  qed (use s0(2) in \<open>simp_all add: sample_open_def\<close>)
  have "no_dir s (replicate 16 CHR ''u'')" using s(4,5) file_ino_not_root(1) by (simp add: no_dir_def)
  then show thesis using s root jrun_append [OF s(1) s0(1)] by (intro that) simp_all
qed

lemma sample_says:
  "is_uuid (replicate 16 CHR ''u'')" "owned get_root_ino (replicate 16 CHR ''u'') sample_ops"
  "ops_say (replicate 16 CHR ''u'') (ops_of get_root_ino sample_ops) None = Some (Some (inode_copy sample_file))"
  using sample_inodes_wf(2) by (simp_all add: wf_inode_def owned_def ops_say_def ops_of_def op_says_def sample_inos)


end
