(* ===== verification/Durable_Ops.thy ===== *)
theory Durable_Ops
  imports Local_Coherence Journal_Inodes
begin

text \<open>
  From an operation of a client to the pool. The call of the journal inside an operation is a run of the transition system of
  \<open>Journal_Spec\<close>: it fetches the open transaction and completes on it. So what an operation of \<open>local_ops.cpp\<close> records takes the way of
  the journal threads to the pool.
\<close>

section \<open>Runs\<close>

lemma jinv_journal_ok: "jinv X objs s \<Longrightarrow> journal_ok (jn s)"
  using jinvD(8) [of X objs s] by (fastforce simp: journal_ok_def dest: map_of_SomeD)

text \<open>A call of the journal is two steps, and nobody else works on the directory in between.\<close>

lemma call_run:
  assumes inv: "jinv X objs s" and ino: "is_uuid ino" and free: "held s ino = None" and pre: "op_pre op (open_tx (jn s) ino)"
    and call: "journal_apply ino (run_op ino op) (jn s) = Some (Inr (), j')"
  shows "jrun X objs s [(ino, op)] (s\<lparr>jn := j'\<rparr>)"
proof -
  obtain a j1 where get: "get_entry ino (jn s) = (a, j1)" by fastforce
  have ok: "journal_ok (jn s)" by (rule jinv_journal_ok [OF inv])
  have same: "txs j1 a = open_tx (jn s) ino"
    using get ok by (auto simp: get_entry_def open_tx_def journal_ok_def Let_def rm_simps split: option.splits)
  from journal_apply_once [OF ino _ get, of op] pre same ok obtain tx
    where tx: "run_op ino op (txs j1 a) = (Inr 0, tx)" "journal_apply ino (run_op ino op) (jn s) = Some (Inr (), j1\<lparr>txs := (txs j1)(a := tx)\<rparr>)"
    by (auto simp: journal_ok_def)
  let ?s1 = "s\<lparr>jn := j1, held := (held s)(ino \<mapsto> (op, a))\<rparr>"
  let ?s2 = "?s1\<lparr>jn := (jn ?s1)\<lparr>txs := (txs (jn ?s1))(a := tx)\<rparr>, held := (held ?s1)(ino := None)\<rparr>"
  have one: "jstep X objs s [] ?s1" by (rule jstep.fetch [OF ino free get])
  have two: "jstep X objs ?s1 [(ino, op)] ?s2" by (rule jstep.complete) (use pre same tx in simp_all)
  from jrun.more [OF jrun.more [OF jrun.nothing one] two] have run: "jrun X objs s [(ino, op)] ?s2" by simp
  have "(held s)(ino := None) = held s" using free by (rule fun_upd_idem)
  then have "?s2 = s\<lparr>jn := j1\<lparr>txs := (txs j1)(a := tx)\<rparr>\<rparr>" by simp
  also have "\<dots> = s\<lparr>jn := j'\<rparr>" using call tx(2) by simp
  finally show ?thesis using run by simp
qed

section \<open>What \<open>create\<close> records\<close>

text \<open>It makes one call of the journal, for the new name with the new inode.\<close>

lemma local_create_call:
  assumes lease: "leased E st (ino_of st p) d" and dir: "dir_ok v st p d" and fh: "fh_fresh st"
    and name: "name_ok name" "dir_children st d name = None" and mode: "\<not> S_ISLNK (mode OR S_IFREG)"
    and fresh: "fresh_ino st p d (drawn_ino E (snd (sys_clock E (sys st))))"
  obtains st' n f where "local_create E p name mode fi st = Some (Inr (fi\<lparr>fi_fh := next_fh st\<rparr>), st')"
    and "op_pre (Mkreg n name f) (open_tx (jrnl st) (ino_of st p))"
    and "journal_apply (ino_of st p) (run_op (ino_of st p) (Mkreg n name f)) (jrnl st) = Some (Inr (), jrnl st')"
    and "i_ino (core f) = drawn_ino E (snd (sys_clock E (sys st)))" and "i_mode (core f) = mode OR S_IFREG"
proof -
  let ?st0 = "st\<lparr>sys := snd (sys_clock E (sys st))\<rparr>" and ?i = "next_iobj st"
  let ?u = "drawn_ino E (snd (sys_clock E (sys st)))"
  note st0 = table_of_leased [OF lease]
  have dir0: "dir_ok v ?st0 p d" by (rule touched_dir [OF touched_sys dir])
  obtain ts st1 st2 st3 where m: "make_inode E (ino_of ?st0 p) (mode OR S_IFREG) ?st0 = Some (Inr ?i, st1)"
    "create_child_inode d name ?i st1 = Some (Inr 0, st2)" "set_mtime_ctime E p st2 = Some (Inr (), st3)"
    "tab_ok st3 p d" "child_ok st3 p ?i" "log_is v st3 (ino_of st3 p) (dir_children st d)"
    "the_inode st3 ?i = inode_new ts ?u (ino_of st p) (client_uid (this_client st)) (client_gid (this_client st)) (mode OR S_IFREG) False"
    "jrnl st3 = jrnl st" "ino_of st3 p = ino_of st p" "fh_list st3 = fh_list st" "next_fh st3 = next_fh st"
    by (rule make_child [OF dir0 _ mode, of name E]) (use name fresh in \<open>simp_all add: fresh_ino_def\<close>)
  have i: "ino_of st3 ?i = ?u" "i_mode (core (the_inode st3 ?i)) = mode OR S_IFREG" by (simp_all add: m(7) inode_new_def)
  have free: "log_free st3 (ino_of st3 p) (ino_of st3 ?i)" using fresh by (simp add: log_free_def i m(8,9) fresh_ino_def)
  let ?op = "Mkreg (the_inode st3 p) name (the_inode st3 ?i)"
  have pre: "op_pre ?op (open_tx (jrnl st3) (ino_of st3 p))"
    using log_pre(2-4) [OF m(4,6)] name m(5) free by (auto simp: child_ok_def file_ok_def log_free_def)
  obtain j' where j': "with_inodes p ?i (\<lambda>i f. journal_mkreg i name f) st3 = Some (Inr (), st3\<lparr>jrnl := j'\<rparr>)"
    by (rule log_mkreg [OF m(4,6) name m(5) free])
  then have call: "journal_apply (ino_of st3 p) (run_op (ino_of st3 p) ?op) (jrnl st3) = Some (Inr (), j')"
    by (auto simp: with_inodes_apply journal_mkreg_def on_journal_def zoom_def dest: arg_cong [where f = jrnl])
  let ?st4 = "st3\<lparr>jrnl := j'\<rparr>"
  have "fh_fresh ?st4" using fh m(10,11) fh_fresh_cong [of ?st4 st] by simp
  then obtain h st5 where st5: "open_handle ?i ?st4 = Some (Inr (next_fh ?st4), st5)" "st5 = ?st4\<lparr>next_fh := Suc (next_fh ?st4), fh_list := fh_list st5\<rparr>"
    by (rule open_handle_ok)
  have "jrnl st5 = j'" by (subst st5(2)) simp
  moreover have "local_create E p name mode fi st = Some (Inr (fi\<lparr>fi_fh := next_fh st\<rparr>), st5)"
    using m(1) by (simp add: local_create_def bnd_def st0 gets_def deref_def ret_def m(2,3) j' st5(1) m(11))
  ultimately show thesis using pre call i unfolding m(8,9) by (intro that [of st5 "the_inode st3 p" "the_inode st3 ?i"]) simp_all
qed

text \<open>So the run of the journal goes on by the entry of the new file, whatever the threads have done so far.\<close>

lemma local_create_run:
  assumes "jinv X objs s" and "jn s = jrnl st" and "held s (ino_of st p) = None" and "is_uuid (ino_of st p)"
    and "leased E st (ino_of st p) d" and "dir_ok v st p d" and "fh_fresh st" and "name_ok name" and "dir_children st d name = None"
    and "\<not> S_ISLNK (mode OR S_IFREG)" and "fresh_ino st p d (drawn_ino E (snd (sys_clock E (sys st))))"
    and run: "local_create E p name mode fi st = Some (r, st')"
  obtains n f where "r = Inr (fi\<lparr>fi_fh := next_fh st\<rparr>)" and "jrun X objs s [(ino_of st p, Mkreg n name f)] (s\<lparr>jn := jrnl st'\<rparr>)"
    and "i_ino (core f) = drawn_ino E (snd (sys_clock E (sys st)))" and "i_mode (core f) = mode OR S_IFREG"
proof -
  obtain st1 n f where c: "local_create E p name mode fi st = Some (Inr (fi\<lparr>fi_fh := next_fh st\<rparr>), st1)"
    "op_pre (Mkreg n name f) (open_tx (jrnl st) (ino_of st p))"
    "journal_apply (ino_of st p) (run_op (ino_of st p) (Mkreg n name f)) (jrnl st) = Some (Inr (), jrnl st1)"
    "i_ino (core f) = drawn_ino E (snd (sys_clock E (sys st)))" "i_mode (core f) = mode OR S_IFREG"
    by (rule local_create_call [OF assms(5-11)])
  have "st' = st1" "r = Inr (fi\<lparr>fi_fh := next_fh st\<rparr>)" using c(1) run by simp_all
  moreover have "jrun X objs s [(ino_of st p, Mkreg n name f)] (s\<lparr>jn := jrnl st1\<rparr>)"
    by (rule call_run [OF assms(1,4,3)]) (use c assms(2) in simp_all)
  ultimately show thesis using c by (intro that) simp_all
qed

section \<open>A leader in the middle of its work\<close>

text \<open>The client of \<open>Local_Spec\<close> with the root directory it has just created: one open transaction holds the directory and its file.\<close>

definition sample_leader :: "(string \<rightharpoonup> bytes) jsys \<Rightarrow> (string \<rightharpoonup> bytes) client_state" where
  "sample_leader s = (sample_client Map.empty)\<lparr>jrnl := jn s\<rparr>"

lemma sample_leader_simps [simp]:
  "ino_of (sample_leader s) 0 = get_root_ino" "dir_children (sample_leader s) 0 = sample_entries" "jrnl (sample_leader s) = jn s"
  "sys (sample_leader s) = Map.empty" "fh_fresh (sample_leader s)" "next_fh (sample_leader s) = 0"
  by (simp_all add: sample_leader_def sample_client_def sample_table_def sample_inos fh_fresh_def)

lemma sample_leader_leased: "leased mem_env (sample_leader s) get_root_ino 0"
  by (simp add: leased_def sample_leader_def sample_client_def mem_env_def is_valid_def)

lemma sample_tx_files: "f_inodes sample_tx = [(replicate 16 CHR ''u'', Some (inode_copy sample_file))]" "s_inode sample_tx \<noteq> None"
  "dentries sample_tx = [(''f'', True, replicate 16 CHR ''u'')]"
proof -
  obtain tx where tx: "tx_mkself sample_root (transaction_new get_root_ino) = (Inr 0, tx)" "\<not> committed tx" "dentries tx = []" "f_inodes tx = []"
    using sample_mkself [of None] .
  then show "f_inodes sample_tx = [(replicate 16 CHR ''u'', Some (inode_copy sample_file))]" "s_inode sample_tx \<noteq> None"
    "dentries sample_tx = [(''f'', True, replicate 16 CHR ''u'')]"
    by (auto simp: sample_tx_def tx_mkreg_def put_dentry_def rm_insert_def Let_def touch_self_def sample_inos split: option.splits)
qed

lemma sample_leader_dir_ok:
  assumes "jinv mem_ext (\<lambda>M. M) s" and "sample_open s" and "txs (jn s) 0 = sample_tx"
  shows "dir_ok None (sample_leader s) 0 0" and "open_tx (jn s) get_root_ino = sample_tx"
proof -
  show tx: "open_tx (jn s) get_root_ino = sample_tx" using assms by (simp add: open_tx_def sample_open_def)
  have "tab_ok (sample_leader s) 0 0"
    using sample_tab [of Map.empty] tab_ok_cong [of "sample_leader s" "sample_client Map.empty"] by (simp add: sample_leader_def)
  moreover have "log_is None (sample_leader s) get_root_ino sample_entries"
    using jinv_journal_ok [OF assms(1)] sample_tx_facts(4) sample_tx_files(1) by (auto simp: log_is_def tx)
  ultimately show "dir_ok None (sample_leader s) 0 0" by (simp add: dir_ok_def)
qed

text \<open>It creates a second file, and its threads write everything to the pool.\<close>

lemma sample_create_stored:
  obtains s st' s' dir where "jrun mem_ext (\<lambda>M. M) (jinit Map.empty) sample_ops s" and "sample_open s" and "txs (jn s) 0 = sample_tx"
    and "local_create mem_env 0 ''g'' 0x1A4 \<lparr>fi_flags = 0, fi_fh = 0\<rparr> (sample_leader s) = Some (Inr \<lparr>fi_flags = 0, fi_fh = 0\<rparr>, st')"
    and "jrun mem_ext (\<lambda>M. M) (s\<lparr>jn := jrnl st'\<rparr>) [] s'" and "path s' get_root_ino = []" and "no_dir s' (replicate 16 CHR ''w'')"
    and "inode_at mem_ext (\<lambda>M. M) (pool s') dir" and "i_ino (core dir) = get_root_ino"
    and "inode_at mem_ext (\<lambda>M. M) (pool s') (inode_copy sample_file)"
proof -
  let ?w = "replicate 16 CHR ''w''"
  obtain s where s: "jrun mem_ext (\<lambda>M. M) (jinit Map.empty) sample_ops s" "sample_open s" "txs (jn s) 0 = sample_tx"
    using sample_mkreg .
  have inv: "jinv mem_ext (\<lambda>M. M) s" by (rule mem.jrun_inv [OF s(1) jinv_init [OF mem_empty_ok mem_dirs_ok]])
  note dir = sample_leader_dir_ok [OF inv s(2,3)]
  have w: "ino_ok ?w" "?w \<noteq> get_root_ino" "?w \<noteq> replicate 16 CHR ''u''" by code_simp+
  have fresh: "fresh_ino (sample_leader s) 0 0 ?w" using w by (simp add: fresh_ino_def dir(2) sample_tx_files(1))
  have lead: "leased mem_env (sample_leader s) (ino_of (sample_leader s) 0) 0" using sample_leader_leased by simp
  have new: "dir_children (sample_leader s) 0 ''g'' = None" "fresh_ino (sample_leader s) 0 0 (drawn_ino mem_env (snd (sys_clock mem_env (sys (sample_leader s)))))"
    using fresh by simp_all
  obtain st' n f where raw: "local_create mem_env 0 ''g'' 0x1A4 \<lparr>fi_flags = 0, fi_fh = 0\<rparr> (sample_leader s)
      = Some (Inr (\<lparr>fi_flags = 0, fi_fh = 0\<rparr>\<lparr>fi_fh := next_fh (sample_leader s)\<rparr>), st')"
    "op_pre (Mkreg n ''g'' f) (open_tx (jrnl (sample_leader s)) (ino_of (sample_leader s) 0))"
    "journal_apply (ino_of (sample_leader s) 0) (run_op (ino_of (sample_leader s) 0) (Mkreg n ''g'' f)) (jrnl (sample_leader s)) = Some (Inr (), jrnl st')"
    "i_ino (core f) = drawn_ino mem_env (snd (sys_clock mem_env (sys (sample_leader s))))" "i_mode (core f) = 0x1A4 OR S_IFREG"
    by (rule local_create_call [OF lead dir(1) sample_leader_simps(5) sample_names(2) new(1) sample_modes(1) new(2)])
  then have c: "local_create mem_env 0 ''g'' 0x1A4 \<lparr>fi_flags = 0, fi_fh = 0\<rparr> (sample_leader s) = Some (Inr \<lparr>fi_flags = 0, fi_fh = 0\<rparr>, st')"
    "op_pre (Mkreg n ''g'' f) sample_tx" "journal_apply get_root_ino (run_op get_root_ino (Mkreg n ''g'' f)) (jn s) = Some (Inr (), jrnl st')"
    "i_ino (core f) = ?w"
    by (simp_all add: dir(2) del: op_pre.simps run_op.simps)
  have get: "get_entry get_root_ino (jn s) = (0, jn s)" using s(2) by (simp add: sample_open_def get_entry_def)
  obtain tx where tx: "run_op get_root_ino (Mkreg n ''g'' f) sample_tx = (Inr 0, tx)" "jrnl st' = (jn s)\<lparr>txs := (txs (jn s))(0 := tx)\<rparr>"
    "\<forall>v. tx_view tx v = op_effect (Mkreg n ''g'' f) (tx_view sample_tx v)"
    using journal_apply_once [OF is_uuid_root _ get, of "Mkreg n ''g'' f"] c(2,3) s(2,3) sample_tx_facts(1,5) by (auto simp: sample_open_def)
  have wf: "wf_tx tx" "s_ino tx = get_root_ino"
    using run_op_effect [OF sample_tx_facts(1,5) c(2), of get_root_ino] tx(1) sample_tx_facts(2) by (auto simp: tx_effect_def)
  have view: "tx_view tx = (\<lambda>v. Some (sample_entries(''g'' \<mapsto> ?w)))" using tx(3) sample_tx_facts(4) c(4) by (simp add: fun_eq_iff)
  obtain y where y: "s_inode sample_tx = Some y" using sample_tx_files(2) by blast
  have "tx_mkreg n ''g'' f sample_tx = (Inr 0, tx)" using tx(1) by simp
  then have "tx = (touch_self n (sample_tx\<lparr>dentries := dentries sample_tx @ [(''g'', True, ?w)]\<rparr>))
      \<lparr>f_inodes := f_inodes sample_tx @ [(?w, Some (inode_copy f))]\<rparr>"
    using c(4) w(3) sample_tx_facts(5) sample_tx_files y
    by (simp add: tx_mkreg_def put_dentry_def rm_insert_def Let_def touch_self_def)
  then have "rm_find (f_inodes tx) (replicate 16 CHR ''u'') = Some (Some (inode_copy sample_file))" "status tx = S_CREATED" "\<exists>i. s_inode tx = Some i"
    using sample_tx_facts(3) sample_tx_files(1) y by (simp_all add: touch_self_def)
  then have st: "status tx = S_CREATED" "\<exists>i. s_inode tx = Some i" "inode_copy sample_file \<in> tx_inodes tx" unfolding tx_inodes_def by blast+
  let ?s = "s\<lparr>jn := jrnl st'\<rparr>"
  have run: "jrun mem_ext (\<lambda>M. M) s [(get_root_ino, Mkreg n ''g'' f)] ?s"
    by (rule call_run [OF inv is_uuid_root _ _ c(3)]) (use s(2) c(2) dir(2) in \<open>simp_all add: sample_open_def\<close>)
  have small: "dir_bytes (sample_entries(''g'' \<mapsto> ?w)) \<le> OBJ_SIZE" by (simp add: dir_bytes_def OBJ_SIZE_def OBJ_BITS_def)
  obtain s' where s': "jrun mem_ext (\<lambda>M. M) ?s [] s'" "path s' get_root_ino = []" "\<And>i. i \<in> tx_inodes tx \<Longrightarrow> inode_at mem_ext (\<lambda>M. M) (pool s') i"
    "next_tx (jn s') = 1" "s_ino (txs (jn s') 0) = get_root_ino"
    by (rule sample_rest [OF mem.jrun_inv [OF run inv] _ _ _ _ wf(2) st(1) view small]) (use s(2) tx(2) in \<open>simp_all add: sample_open_def\<close>)
  obtain i where i: "s_inode tx = Some i" using st(2) by blast
  have "i_ino (core i) = get_root_ino" using wf i by (auto simp: wf_tx_def)
  moreover have "no_dir s' ?w" using s'(4,5) w(2) by (simp add: no_dir_def)
  ultimately show thesis using that [OF s c(1) s'(1,2), of i] s'(3) [of i] s'(3) [OF st(3)] i by (simp add: tx_inodes_def)
qed

end
