(* ===== verification/Rpc_Client.thy ===== *)
theory Rpc_Client
  imports Local_Ops
begin

text \<open>
  The calls of the service on the leader of a directory (\<open>client/rpc/rpc_client.cpp\<close>) and the
  operations on remote inodes that make them (\<open>client/fs_ops/remote_ops.cpp\<close>). \<open>address\<close> is the
  channel of the \<open>rpc_client\<close> object: \<open>get_rpc_client\<close> keeps one object per address. Out parameters
  are part of the result.
\<close>

section \<open>Fragments the calls share\<close>

text \<open>The result of a call that is only a code: \<open>-ENEEDRECOV\<close> when the status is not \<open>OK\<close>\<close>

definition common_result :: "rpc_common_respond option \<Rightarrow> int" where
  "common_result answer = (case answer of Some out \<Rightarrow> a_ret out | None \<Rightarrow> - ENEEDRECOV)"

text \<open>A handle on a remote inode, registered under its address\<close>

definition open_remote_handle :: "uuid \<Rightarrow> nat \<Rightarrow> (nat, 's) cprog" where
  "open_remote_handle ino a st =
     (let key = next_fh st;
          fh = (file_handler_new ino)\<lparr>fh_loc := REMOTE, fh_remote_i := Some a, fh_no := key\<rparr>
      in bnd (add_file_handler key fh) (\<lambda>_. ret key) (st\<lparr>next_fh := Suc key\<rparr>))"

text \<open>The requests of a remote inode\<close>

definition target_of :: "remote_fields \<Rightarrow> target_request" where
  "target_of r = make_target_request (r_dentry_table_ino r) (r_file_name r) (r_target_is_parent r)"

definition file_of :: "remote_fields \<Rightarrow> file_request" where
  "file_of r = make_file_request (r_dentry_table_ino r) (r_file_name r)"

definition dir_of :: "remote_fields \<Rightarrow> dir_request" where
  "dir_of r = make_dir_request (r_dentry_table_ino r)"

section \<open>Lookups\<close>

text \<open>The nanoseconds of the change time go to \<open>st_ctim.tv_sec\<close>; a missing file is \<open>-EACCES\<close>.\<close>

definition rpc_client_getattr :: "'s env \<Rightarrow> string \<Rightarrow> remote_fields \<Rightarrow> stat \<Rightarrow> (int \<times> stat, 's) cprog" where
  "rpc_client_getattr E address r s =
     bnd (sys_call (stub_getattr (peers E) address (target_of r))) (\<lambda>answer.
       case answer of
         None \<Rightarrow> ret (- ENEEDRECOV, s)
       | Some out \<Rightarrow>
           if a_getattr_ret out = - ENOTLEADER then ret (- ENOTLEADER, s)
           else if a_getattr_ret out = - EACCES then throw No_entry
           else
             (let s = s\<lparr>st_mode := a_mode out, st_uid := a_uid out, st_gid := a_gid out, st_ino := a_ino_postfix out,
                        st_nlink := a_nlink out, st_size := a_i_size out,
                        st_atim := \<lparr>tv_sec = a_a_sec out, tv_nsec = a_a_nsec out\<rparr>,
                        st_mtim := \<lparr>tv_sec = a_m_sec out, tv_nsec = a_m_nsec out\<rparr>\<rparr>;
                  s = s\<lparr>st_ctim := (st_ctim s)\<lparr>tv_sec := a_c_sec out\<rparr>\<rparr>;
                  s = s\<lparr>st_ctim := (st_ctim s)\<lparr>tv_sec := a_c_nsec out\<rparr>\<rparr>
              in ret (a_getattr_ret out, s)))"

definition rpc_client_access :: "'s env \<Rightarrow> string \<Rightarrow> remote_fields \<Rightarrow> 32 word \<Rightarrow> (int, 's) cprog" where
  "rpc_client_access E address r msk =
     bnd (sys_call (stub_access (peers E) address (target_request.extend (target_of r) \<lparr>q_access_mask = msk\<rparr>))) (\<lambda>answer.
       if common_result answer = - EACCES then throw Permission_denied else ret (common_result answer))"

definition rpc_client_opendir :: "'s env \<Rightarrow> string \<Rightarrow> nat \<Rightarrow> remote_fields \<Rightarrow> fuse_file_info \<Rightarrow> (int \<times> fuse_file_info, 's) cprog" where
  "rpc_client_opendir E address i r fi =
     bnd (sys_call (stub_opendir (peers E) address (target_request.extend (target_of r) \<lparr>q_flags = 0\<rparr>))) (\<lambda>answer.
       if common_result answer = 0 then
         bnd (gets (\<lambda>st. ino_of st i)) (\<lambda>ino.
         bnd (open_remote_handle ino i) (\<lambda>fh.
           ret (0, fi\<lparr>fi_fh := fh\<rparr>)))
       else ret (common_result answer, fi))"

text \<open>The loop over the stream: the names given to the filler, and the code of the last message read\<close>

fun read_names :: "rpc_name_respond list \<Rightarrow> string list \<times> int" where
  "read_names [] = ([], 0)"
| "read_names (m # ms) =
     (if a_name_ret m = 0 then (c_string (a_filename m) # fst (read_names ms), snd (read_names ms))
      else ([], a_name_ret m))"

definition rpc_client_readdir :: "'s env \<Rightarrow> string \<Rightarrow> remote_fields \<Rightarrow> (int \<times> string list, 's) cprog" where
  "rpc_client_readdir E address r =
     bnd (sys_call (stub_readdir (peers E) address (dir_of r))) (\<lambda>(messages, status_ok).
       case read_names messages of
         (names, code) \<Rightarrow> ret (if status_ok then code else - ENEEDRECOV, names))"

section \<open>Directories\<close>

text \<open>The inode and the entries of the new directory accompany the result when the call succeeds.\<close>

definition rpc_client_mkdir ::
  "'s env \<Rightarrow> string \<Rightarrow> nat \<Rightarrow> remote_fields \<Rightarrow> string \<Rightarrow> 32 word \<Rightarrow> (int \<times> (nat \<times> dentry) option, 's) cprog" where
  "rpc_client_mkdir E address parent_i r new_child_name mode =
     bnd (gets this_client) (\<lambda>c.
     bnd (sys_call (stub_mkdir (peers E) address (dir_request.extend (dir_of r)
            \<lparr>q_new_dir_name = new_child_name, q_new_dir_mode = mode, q_new_dir_uid = client_uid c, q_new_dir_gid = client_gid c\<rparr>))) (\<lambda>answer.
       case answer of
         None \<Rightarrow> ret (- ENEEDRECOV, None)
       | Some out \<Rightarrow>
           if a_mkdir_ret out = 0 then
             (let returned_dir_ino = splice_prefix_and_postfix (a_new_dir_ino_prefix out) (a_new_dir_ino_postfix out)
              in bnd (get_ts E) (\<lambda>ts.
                 bnd (gets (\<lambda>st. ino_of st parent_i)) (\<lambda>parent_ino.
                 bnd (new_iobj \<lparr>base = inode_new_dir ts parent_ino (client_uid c) (client_gid c) (mode OR S_IFDIR) returned_dir_ino,
                                remote = None\<rparr>) (\<lambda>new_i.
                 bnd (upd_inode new_i (set_size DIR_INODE_SIZE)) (\<lambda>_.
                 bnd (on_sys (lift (dentry_new (meta_io E) returned_dir_ino True))) (\<lambda>new_d.
                 bnd (with_inode new_i journal_mkself) (\<lambda>_.
                   ret (0, Some (new_i, new_d)))))))))
           else ret (a_mkdir_ret out, None)))"

definition make_rmdir_request :: "dir_request \<Rightarrow> string \<Rightarrow> uuid \<Rightarrow> rpc_rmdir_request" where
  "make_rmdir_request dir name target_ino =
     dir_request.extend dir \<lparr>q_target_name = name, q_target_ino_prefix = get_prefix_from_uuid target_ino,
       q_target_ino_postfix = get_postfix_from_uuid target_ino\<rparr>"

definition rpc_client_rmdir_top :: "'s env \<Rightarrow> string \<Rightarrow> uuid \<Rightarrow> (int, 's) cprog" where
  "rpc_client_rmdir_top E address target_ino =
     bnd (sys_call (stub_rmdir_top (peers E) address (make_rmdir_request (make_dir_request target_ino) [] target_ino)))
       (\<lambda>answer. ret (common_result answer))"

definition rpc_client_rmdir_down :: "'s env \<Rightarrow> string \<Rightarrow> remote_fields \<Rightarrow> uuid \<Rightarrow> string \<Rightarrow> (int, 's) cprog" where
  "rpc_client_rmdir_down E address r target_ino target_name =
     bnd (sys_call (stub_rmdir_down (peers E) address (make_rmdir_request (dir_of r) target_name target_ino)))
       (\<lambda>answer. ret (common_result answer))"

section \<open>Symbolic links\<close>

definition rpc_client_symlink :: "'s env \<Rightarrow> string \<Rightarrow> remote_fields \<Rightarrow> bytes \<Rightarrow> string \<Rightarrow> (int, 's) cprog" where
  "rpc_client_symlink E address r src dst =
     bnd (sys_call (stub_symlink (peers E) address (file_request.extend (file_of r) \<lparr>q_src = c_string src, q_dst = dst\<rparr>)))
       (\<lambda>answer. ret (common_result answer))"

definition rpc_client_readlink :: "'s env \<Rightarrow> string \<Rightarrow> remote_fields \<Rightarrow> 64 word \<Rightarrow> (int \<times> bytes, 's) cprog" where
  "rpc_client_readlink E address r sz =
     bnd (sys_call (stub_readlink (peers E) address (file_request.extend (file_of r) \<lparr>q_readlink_size = sz\<rparr>))) (\<lambda>answer.
       case answer of
         None \<Rightarrow> ret (- ENEEDRECOV, [])
       | Some out \<Rightarrow>
           if a_name_ret out = 0 then
             (let len = min (of_nat (length (a_filename out))) (sz - 1)
              in if unat sz \<le> unat len then throw (Crash ''buf'')
                 else ret (0, take (unat len) (a_filename out) @ [zero_byte]))
           else ret (a_name_ret out, []))"

section \<open>Renaming\<close>

definition rpc_client_rename_same_parent :: "'s env \<Rightarrow> string \<Rightarrow> remote_fields \<Rightarrow> string \<Rightarrow> string \<Rightarrow> 32 word \<Rightarrow> (int, 's) cprog" where
  "rpc_client_rename_same_parent E address r old_path new_path flags =
     bnd (sys_call (stub_rename_same_parent (peers E) address (dir_request.extend (dir_of r)
            \<lparr>q_old_path = old_path, q_new_path = new_path, q_rename_flags = flags\<rparr>)))
       (\<lambda>answer. ret (common_result answer))"

text \<open>The inode that moves is a new object with the attributes of the answer.\<close>

definition rpc_client_rename_not_same_parent_src ::
  "'s env \<Rightarrow> string \<Rightarrow> remote_fields \<Rightarrow> string \<Rightarrow> 32 word \<Rightarrow> (int \<times> nat option, 's) cprog" where
  "rpc_client_rename_not_same_parent_src E address r old_path flags =
     bnd (sys_call (stub_rename_src (peers E) address (dir_request.extend (dir_of r)
            \<lparr>q_src_old_path = old_path, q_src_flags = flags\<rparr>))) (\<lambda>answer.
       case answer of
         None \<Rightarrow> ret (- ENEEDRECOV, None)
       | Some out \<Rightarrow>
           if a_rename_ret out = - ENOSYS then
             throw (Runtime_error ''Flag specific behaviors of rename operation are not implemented'')
           else if a_rename_ret out = 0 then
             bnd (new_iobj \<lparr>base = rename_src_response_to_inode out (inode_blank NOBODY), remote = None\<rparr>) (\<lambda>target_inode.
               ret (0, Some target_inode))
           else ret (a_rename_ret out, None))"

definition rpc_client_rename_not_same_parent_dst ::
  "'s env \<Rightarrow> string \<Rightarrow> remote_fields \<Rightarrow> nat option \<Rightarrow> uuid \<Rightarrow> string \<Rightarrow> 32 word \<Rightarrow> (int, 's) cprog" where
  "rpc_client_rename_not_same_parent_dst E address r target check_dst_ino new_path flags =
     bnd (deref target) (\<lambda>target_inode.
     bnd (gets (\<lambda>st. the_inode st target_inode)) (\<lambda>n.
     bnd (from_result (inode_to_rename_dst_request n no_target)) (\<lambda>carried.
     bnd (sys_call (stub_rename_dst (peers E) address (rename_target.extend carried
            \<lparr>q_dst_ino_prefix = get_prefix_from_uuid (r_dentry_table_ino r),
             q_dst_ino_postfix = get_postfix_from_uuid (r_dentry_table_ino r),
             q_check_dst_ino_prefix = get_prefix_from_uuid check_dst_ino,
             q_check_dst_ino_postfix = get_postfix_from_uuid check_dst_ino,
             q_dst_new_path = new_path, q_dst_flags = flags\<rparr>)))
       (\<lambda>answer. ret (common_result answer)))))"

section \<open>Files\<close>

definition rpc_client_open :: "'s env \<Rightarrow> string \<Rightarrow> nat \<Rightarrow> remote_fields \<Rightarrow> fuse_file_info \<Rightarrow> (int \<times> fuse_file_info, 's) cprog" where
  "rpc_client_open E address i r fi =
     bnd (sys_call (stub_open (peers E) address
            (target_request.extend (make_target_request (r_dentry_table_ino r) (r_file_name r) False) \<lparr>q_flags = fi_flags fi\<rparr>))) (\<lambda>answer.
       if common_result answer = 0 then
         bnd (gets (\<lambda>st. ino_of st i)) (\<lambda>ino.
         bnd (open_remote_handle ino i) (\<lambda>fh.
           ret (0, fi\<lparr>fi_fh := fh\<rparr>)))
       else ret (common_result answer, fi))"

definition rpc_client_create ::
  "'s env \<Rightarrow> string \<Rightarrow> remote_fields \<Rightarrow> string \<Rightarrow> 32 word \<Rightarrow> fuse_file_info \<Rightarrow> (int \<times> fuse_file_info, 's) cprog" where
  "rpc_client_create E address r new_child_name mode fi =
     bnd (sys_call (stub_create (peers E) address (dir_request.extend (dir_of r)
            \<lparr>q_new_file_name = new_child_name, q_new_mode = mode\<rparr>))) (\<lambda>answer.
       case answer of
         None \<Rightarrow> ret (- ENEEDRECOV, fi)
       | Some out \<Rightarrow>
           if a_create_ret out = 0 then
             (let new_ino = splice_prefix_and_postfix (a_new_ino_prefix out) (a_new_ino_postfix out);
                  open_remote_i = remote_inode_new (r_leader_ip r) (r_dentry_table_ino r) new_child_name False
              in bnd (new_iobj (open_remote_i\<lparr>base := set_ino new_ino (base open_remote_i)\<rparr>)) (\<lambda>a.
                 bnd (open_remote_handle new_ino a) (\<lambda>fh.
                   ret (0, fi\<lparr>fi_fh := fh\<rparr>))))
           else ret (a_create_ret out, fi))"

definition rpc_client_unlink :: "'s env \<Rightarrow> string \<Rightarrow> remote_fields \<Rightarrow> string \<Rightarrow> (int, 's) cprog" where
  "rpc_client_unlink E address r child_name =
     bnd (sys_call (stub_unlink (peers E) address (make_file_request (r_dentry_table_ino r) child_name)))
       (\<lambda>answer. ret (common_result answer))"

text \<open>After the leader has recorded the size, this client writes the data at the offset of the answer.\<close>

definition rpc_client_write ::
  "'s env \<Rightarrow> string \<Rightarrow> nat \<Rightarrow> remote_fields \<Rightarrow> bytes \<Rightarrow> 64 word \<Rightarrow> 32 word \<Rightarrow> (int, 's) cprog" where
  "rpc_client_write E address i r buffer offset flags =
     bnd (sys_call (stub_write (peers E) address (file_request.extend (file_of r)
            \<lparr>q_size = of_nat (length buffer), q_offset = offset, q_write_flags = flags\<rparr>))) (\<lambda>answer.
       case answer of
         None \<Rightarrow> ret (- ENEEDRECOV)
       | Some out \<Rightarrow>
           if a_write_ret out = 0 then
             bnd (gets (\<lambda>st. ino_of st i)) (\<lambda>ino.
               if length buffer < unat (a_size out) then throw (Crash ''buffer'')
               else
                 bnd (on_sys (lift (rados_write (data_io E) DATA (uuid_to_string (data_io E) ino)
                        (take (unat (a_size out)) buffer) (unat (a_offset out))))) (\<lambda>written_len.
                   ret (int written_len)))
           else ret (a_write_ret out))"

section \<open>Changes of attributes\<close>

text \<open>\<open>target_is_parent\<close> is not set in this request.\<close>

definition rpc_client_chmod :: "'s env \<Rightarrow> string \<Rightarrow> remote_fields \<Rightarrow> 32 word \<Rightarrow> (int, 's) cprog" where
  "rpc_client_chmod E address r mode =
     bnd (sys_call (stub_chmod (peers E) address
            (target_request.extend (make_target_request (r_dentry_table_ino r) (r_file_name r) False) \<lparr>q_mode = mode\<rparr>)))
       (\<lambda>answer. ret (common_result answer))"

definition rpc_client_chown :: "'s env \<Rightarrow> string \<Rightarrow> remote_fields \<Rightarrow> 32 word \<Rightarrow> 32 word \<Rightarrow> (int, 's) cprog" where
  "rpc_client_chown E address r uid gid =
     bnd (sys_call (stub_chown (peers E) address (target_request.extend (target_of r) \<lparr>q_uid = uid, q_gid = gid\<rparr>)))
       (\<lambda>answer. ret (common_result answer))"

definition rpc_client_utimens :: "'s env \<Rightarrow> string \<Rightarrow> remote_fields \<Rightarrow> timespec \<Rightarrow> timespec \<Rightarrow> (int, 's) cprog" where
  "rpc_client_utimens E address r tv0 tv1 =
     bnd (sys_call (stub_utimens (peers E) address (target_request.extend (target_of r)
            \<lparr>q_a_sec = tv_sec tv0, q_a_nsec = tv_nsec tv0, q_m_sec = tv_sec tv1, q_m_nsec = tv_nsec tv1\<rparr>)))
       (\<lambda>answer. ret (common_result answer))"

definition rpc_client_truncate :: "'s env \<Rightarrow> string \<Rightarrow> nat \<Rightarrow> remote_fields \<Rightarrow> 64 word \<Rightarrow> (int, 's) cprog" where
  "rpc_client_truncate E address i r offset =
     bnd (sys_call (stub_truncate (peers E) address (target_request.extend (target_of r) \<lparr>q_truncate_offset = offset\<rparr>))) (\<lambda>answer.
       if common_result answer = 0 then
         bnd (gets (\<lambda>st. ino_of st i)) (\<lambda>ino.
           on_sys (rados_truncate (data_io E) DATA (uuid_to_string (data_io E) ino) (unat offset)))
       else ret (common_result answer))"

end
