(* ===== verification/Remote_Ops.thy ===== *)
theory Remote_Ops
  imports Rpc_Client
begin

text \<open>
  The operations on inodes of directories that another client leads
  (\<open>client/fs_ops/remote_ops.cpp\<close>). The argument is the result of a \<open>dynamic_pointer_cast\<close>, which is
  null for an inode that is not a \<open>remote_inode\<close>.
\<close>

definition remote_cast :: "nat \<Rightarrow> (remote_fields, 's) cprog" where
  "remote_cast i =
     bnd (gets (\<lambda>st. remote (iobjs st i))) (\<lambda>p.
       case p of None \<Rightarrow> throw (Runtime_error ''inode casting is failed'') | Some r \<Rightarrow> ret r)"

definition remote_getattr :: "'s env \<Rightarrow> nat \<Rightarrow> stat \<Rightarrow> (int \<times> stat, 's) cprog" where
  "remote_getattr E i s =
     bnd (remote_cast i) (\<lambda>r. rpc_client_getattr E (r_leader_ip r) r s)"

definition remote_access :: "'s env \<Rightarrow> nat \<Rightarrow> 32 word \<Rightarrow> (int, 's) cprog" where
  "remote_access E i msk =
     bnd (remote_cast i) (\<lambda>r. rpc_client_access E (r_leader_ip r) r msk)"

definition remote_opendir :: "'s env \<Rightarrow> nat \<Rightarrow> fuse_file_info \<Rightarrow> (int \<times> fuse_file_info, 's) cprog" where
  "remote_opendir E i fi =
     bnd (remote_cast i) (\<lambda>r. rpc_client_opendir E (r_leader_ip r) i r fi)"

definition remote_readdir :: "'s env \<Rightarrow> nat \<Rightarrow> (int \<times> string list, 's) cprog" where
  "remote_readdir E i =
     bnd (remote_cast i) (\<lambda>r. rpc_client_readdir E (r_leader_ip r) r)"

definition remote_mkdir :: "'s env \<Rightarrow> nat \<Rightarrow> string \<Rightarrow> 32 word \<Rightarrow> (int \<times> (nat \<times> dentry) option, 's) cprog" where
  "remote_mkdir E parent_i new_child_name mode =
     bnd (remote_cast parent_i) (\<lambda>r. rpc_client_mkdir E (r_leader_ip r) parent_i r new_child_name mode)"

definition remote_rmdir_top :: "'s env \<Rightarrow> nat \<Rightarrow> uuid \<Rightarrow> (int, 's) cprog" where
  "remote_rmdir_top E target_i target_ino =
     bnd (remote_cast target_i) (\<lambda>r. rpc_client_rmdir_top E (r_leader_ip r) target_ino)"

definition remote_rmdir_down :: "'s env \<Rightarrow> nat \<Rightarrow> uuid \<Rightarrow> string \<Rightarrow> (int, 's) cprog" where
  "remote_rmdir_down E parent_i target_ino target_name =
     bnd (remote_cast parent_i) (\<lambda>r. rpc_client_rmdir_down E (r_leader_ip r) r target_ino target_name)"

definition remote_symlink :: "'s env \<Rightarrow> nat \<Rightarrow> bytes \<Rightarrow> string \<Rightarrow> (int, 's) cprog" where
  "remote_symlink E dst_parent_i src dst =
     bnd (remote_cast dst_parent_i) (\<lambda>r. rpc_client_symlink E (r_leader_ip r) r src dst)"

definition remote_readlink :: "'s env \<Rightarrow> nat \<Rightarrow> 64 word \<Rightarrow> (int \<times> bytes, 's) cprog" where
  "remote_readlink E i sz =
     bnd (remote_cast i) (\<lambda>r. rpc_client_readlink E (r_leader_ip r) r sz)"

definition remote_rename_same_parent :: "'s env \<Rightarrow> nat \<Rightarrow> string \<Rightarrow> string \<Rightarrow> 32 word \<Rightarrow> (int, 's) cprog" where
  "remote_rename_same_parent E parent_i old_path new_path flags =
     bnd (remote_cast parent_i) (\<lambda>r. rpc_client_rename_same_parent E (r_leader_ip r) r old_path new_path flags)"

definition remote_rename_not_same_parent_src :: "'s env \<Rightarrow> nat \<Rightarrow> string \<Rightarrow> 32 word \<Rightarrow> (int \<times> nat option, 's) cprog" where
  "remote_rename_not_same_parent_src E src_parent_i old_path flags =
     bnd (remote_cast src_parent_i) (\<lambda>r. rpc_client_rename_not_same_parent_src E (r_leader_ip r) r old_path flags)"

definition remote_rename_not_same_parent_dst :: "'s env \<Rightarrow> nat \<Rightarrow> nat option \<Rightarrow> uuid \<Rightarrow> string \<Rightarrow> 32 word \<Rightarrow> (int, 's) cprog" where
  "remote_rename_not_same_parent_dst E dst_parent_i target_inode check_dst_ino new_path flags =
     bnd (remote_cast dst_parent_i) (\<lambda>r. rpc_client_rename_not_same_parent_dst E (r_leader_ip r) r target_inode check_dst_ino new_path flags)"

definition remote_open :: "'s env \<Rightarrow> nat \<Rightarrow> fuse_file_info \<Rightarrow> (int \<times> fuse_file_info, 's) cprog" where
  "remote_open E i fi =
     bnd (remote_cast i) (\<lambda>r. rpc_client_open E (r_leader_ip r) i r fi)"

definition remote_create :: "'s env \<Rightarrow> nat \<Rightarrow> string \<Rightarrow> 32 word \<Rightarrow> fuse_file_info \<Rightarrow> (int \<times> fuse_file_info, 's) cprog" where
  "remote_create E parent_i new_child_name mode fi =
     bnd (remote_cast parent_i) (\<lambda>r. rpc_client_create E (r_leader_ip r) r new_child_name mode fi)"

definition remote_unlink :: "'s env \<Rightarrow> nat \<Rightarrow> string \<Rightarrow> (int, 's) cprog" where
  "remote_unlink E parent_i child_name =
     bnd (remote_cast parent_i) (\<lambda>r. rpc_client_unlink E (r_leader_ip r) r child_name)"

definition remote_write :: "'s env \<Rightarrow> nat \<Rightarrow> bytes \<Rightarrow> 64 word \<Rightarrow> 32 word \<Rightarrow> (int, 's) cprog" where
  "remote_write E i buffer offset flags =
     bnd (remote_cast i) (\<lambda>r. rpc_client_write E (r_leader_ip r) i r buffer offset flags)"

definition remote_chmod :: "'s env \<Rightarrow> nat \<Rightarrow> 32 word \<Rightarrow> (int, 's) cprog" where
  "remote_chmod E i mode =
     bnd (remote_cast i) (\<lambda>r. rpc_client_chmod E (r_leader_ip r) r mode)"

definition remote_chown :: "'s env \<Rightarrow> nat \<Rightarrow> 32 word \<Rightarrow> 32 word \<Rightarrow> (int, 's) cprog" where
  "remote_chown E i uid gid =
     bnd (remote_cast i) (\<lambda>r. rpc_client_chown E (r_leader_ip r) r uid gid)"

definition remote_utimens :: "'s env \<Rightarrow> nat \<Rightarrow> timespec \<Rightarrow> timespec \<Rightarrow> (int, 's) cprog" where
  "remote_utimens E i tv0 tv1 =
     bnd (remote_cast i) (\<lambda>r. rpc_client_utimens E (r_leader_ip r) r tv0 tv1)"

definition remote_truncate :: "'s env \<Rightarrow> nat \<Rightarrow> 64 word \<Rightarrow> (int, 's) cprog" where
  "remote_truncate E i offset =
     bnd (remote_cast i) (\<lambda>r. rpc_client_truncate E (r_leader_ip r) i r offset)"

end
