(* ===== verification/Fuse_Ops.thy ===== *)
theory Fuse_Ops
  imports Remote_Ops
begin

text \<open>
  The operations FUSE calls (\<open>client/fs_ops/fuse_ops.cpp\<close>): each resolves its path, finds out
  whether this client or another one leads the directory, runs the local or the remote operation,
  and turns exceptions into error codes. An exception that no handler catches is the outcome of the
  program. \<open>struct fuse_file_info *\<close> is an option; the buffers an operation fills are part of its
  result.
\<close>

definition O_CLOEXEC :: "32 word" where "O_CLOEXEC = 0x80000"

text \<open>The conversion of a \<open>ssize_t\<close> to \<open>int\<close>\<close>

definition to_int :: "int \<Rightarrow> int" where
  "to_int n = sint (word_of_int n :: 32 word)"

section \<open>Fragments the operations share\<close>

text \<open>The loop around a remote operation: as long as the answer is \<open>-ENOTLEADER\<close> the client asks for
  the leader again and repeats the call. \<open>code\<close> selects the result code.\<close>

partial_function (option) retry_remote :: "'s env \<Rightarrow> nat \<Rightarrow> ('a \<Rightarrow> int) \<Rightarrow> ('a, 's) cprog \<Rightarrow> 's client_state \<Rightarrow> ((exn + 'a) \<times> 's client_state) option" where
  "retry_remote E i code m st =
     (case m st of
        None \<Rightarrow> None
      | Some (Inl e, st1) \<Rightarrow> Some (Inl e, st1)
      | Some (Inr x, st1) \<Rightarrow>
          if code x = - ENOTLEADER then
            (case find_remote_dentry_table_again E i st1 of
               None \<Rightarrow> None
             | Some (Inl e, st2) \<Rightarrow> Some (Inl e, st2)
             | Some (Inr _, st2) \<Rightarrow> retry_remote E i code m st2)
          else if code x = - ENEEDRECOV then Some (Inl (Runtime_error ''Need Recovery of remote dentry_table''), st1)
          else Some (Inr x, st1))"

text \<open>The handlers of the operations\<close>

definition catch_errors :: "(int \<Rightarrow> 'a) \<Rightarrow> ('a, 's) cprog \<Rightarrow> ('a, 's) cprog" where
  "catch_errors wrap m =
     catch m (\<lambda>e. if e = No_entry then ret (wrap (- ENOENT))
                  else if e = Permission_denied then ret (wrap (- EACCES))
                  else throw e)"

text \<open>The inode of an open file, or of a path when there is no file info\<close>

definition handle_inode :: "fuse_file_info \<Rightarrow> (nat, 's) cprog" where
  "handle_inode fi =
     bnd (get_file_handler (fi_fh fi)) (\<lambda>handler.
     bnd (from_result (get_open_inode_info handler)) deref)"

definition path_inode :: "'s env \<Rightarrow> string \<Rightarrow> (nat, 's) cprog" where
  "path_inode E pathname = bnd (path_traversal E pathname) deref"

definition target_inode :: "'s env \<Rightarrow> fuse_file_info option \<Rightarrow> string \<Rightarrow> (nat, 's) cprog" where
  "target_inode E file_info pathname = (case file_info of Some fi \<Rightarrow> handle_inode fi | None \<Rightarrow> path_inode E pathname)"

text \<open>The branch on \<open>get_loc()\<close> of an inode; \<open>other\<close> is the result when it is neither \<open>LOCAL\<close> nor \<open>REMOTE\<close>.\<close>

definition by_location :: "'s env \<Rightarrow> ('a \<Rightarrow> int) \<Rightarrow> nat \<Rightarrow> 'a \<Rightarrow> ('a, 's) cprog \<Rightarrow> ('a, 's) cprog \<Rightarrow> ('a, 's) cprog" where
  "by_location E code i other local_op remote_op =
     bnd (gets (\<lambda>st. loc (the_inode st i))) (\<lambda>l.
       case l of
         LOCAL \<Rightarrow> local_op
       | REMOTE \<Rightarrow> retry_remote E i code remote_op
       | _ \<Rightarrow> ret other)"

text \<open>The directory of a path: its inode and its table\<close>

definition parent_dir :: "'s env \<Rightarrow> string \<Rightarrow> (nat \<times> nat, 's) cprog" where
  "parent_dir E parent_path =
     bnd (path_inode E parent_path) (\<lambda>parent_i.
     bnd (table_of E parent_i) (\<lambda>t.
     bnd (deref t) (\<lambda>d.
       ret (parent_i, d))))"

text \<open>\<open>make_shared<remote_inode>(table->get_leader_ip(), table->get_dir_ino(), name)\<close>\<close>

definition make_remote :: "nat \<Rightarrow> string \<Rightarrow> (nat, 's) cprog" where
  "make_remote d name st = new_iobj (remote_inode_new (leader_ip (dtabs st d)) (dir_ino (dtabs st d)) name False) st"

text \<open>The branch on \<open>get_loc()\<close> of a table; the remote operation gets a new remote inode.\<close>

definition by_table :: "'s env \<Rightarrow> ('a \<Rightarrow> int) \<Rightarrow> nat \<Rightarrow> string \<Rightarrow> 'a \<Rightarrow> ('a, 's) cprog \<Rightarrow> (nat \<Rightarrow> ('a, 's) cprog) \<Rightarrow> ('a, 's) cprog" where
  "by_table E code d name other local_op remote_op =
     bnd (gets (\<lambda>st. dt_loc (dtabs st d))) (\<lambda>l.
       case l of
         LOCAL \<Rightarrow> local_op
       | REMOTE \<Rightarrow> bnd (make_remote d name) (\<lambda>r. retry_remote E r code (remote_op r))
       | _ \<Rightarrow> ret other)"

section \<open>Start\<close>

text \<open>The root directory of an empty file system\<close>

definition make_root :: "'s env \<Rightarrow> (unit, 's) cprog" where
  "make_root E =
     bnd (on_sys (lift (rados_exist (meta_io E) INODE (uuid_to_string (meta_io E) get_root_ino)))) (\<lambda>present.
       if present then ret ()
       else
         bnd (get_ts E) (\<lambda>ts.
         bnd (gets this_client) (\<lambda>c.
         bnd (on_sys (lift (dentry_new (meta_io E) get_root_ino True))) (\<lambda>d.
         bnd (on_sys (lift (inode_sync (meta_io E) (set_size DIR_INODE_SIZE
                (inode_new ts get_root_ino get_root_ino (client_uid c) (client_gid c) (S_IFDIR OR 0x1FF) True))))) (\<lambda>_.
           on_sys (lift (dentry_sync (meta_io E) d)))))))"

text \<open>\<open>init\<close> after the connections are made and the client has its identity\<close>

definition fuse_init :: "'s env \<Rightarrow> (unit, 's) cprog" where
  "fuse_init E =
     bnd (make_root E) (\<lambda>_.
     bnd (directory_table_new E) (\<lambda>_.
       modify (\<lambda>st. st\<lparr>fh_list := [], jrnl := journal_new\<rparr>)))"

section \<open>Attributes, directories and links\<close>

definition fuse_getattr :: "'s env \<Rightarrow> string \<Rightarrow> stat \<Rightarrow> fuse_file_info option \<Rightarrow> (int \<times> stat, 's) cprog" where
  "fuse_getattr E pathname s file_info =
     catch_errors (\<lambda>c. (c, s))
       (bnd (target_inode E file_info pathname) (\<lambda>i.
          by_location E fst i (0, s) (bnd (local_getattr i s) (\<lambda>s'. ret (0, s'))) (remote_getattr E i s)))"

definition fuse_access :: "'s env \<Rightarrow> string \<Rightarrow> 32 word \<Rightarrow> (int, 's) cprog" where
  "fuse_access E pathname msk =
     catch_errors (\<lambda>c. c)
       (bnd (path_inode E pathname) (\<lambda>i.
          by_location E (\<lambda>r. r) i 0 (bnd (local_access E i msk) (\<lambda>_. ret 0)) (remote_access E i msk)))"

definition fuse_symlink :: "'s env \<Rightarrow> bytes \<Rightarrow> string \<Rightarrow> (int, 's) cprog" where
  "fuse_symlink E src dst =
     catch_errors (\<lambda>c. c)
       (bnd (from_result (get_parent_dir_path dst)) (\<lambda>dst_parent_name.
        bnd (parent_dir E dst_parent_name) (\<lambda>(dst_parent_i, d).
          by_table E (\<lambda>r. r) d dst_parent_name 0 (local_symlink E dst_parent_i src dst) (\<lambda>r. remote_symlink E r src dst))))"

definition fuse_readlink :: "'s env \<Rightarrow> string \<Rightarrow> 64 word \<Rightarrow> (int \<times> bytes, 's) cprog" where
  "fuse_readlink E pathname sz =
     catch_errors (\<lambda>c. (c, []))
       (bnd (path_inode E pathname) (\<lambda>i.
          by_location E fst i (0, []) (local_readlink E i sz) (remote_readlink E i sz)))"

definition fuse_opendir :: "'s env \<Rightarrow> string \<Rightarrow> fuse_file_info \<Rightarrow> (int \<times> fuse_file_info, 's) cprog" where
  "fuse_opendir E pathname fi =
     catch_errors (\<lambda>c. (c, fi))
       (bnd (path_inode E pathname) (\<lambda>i.
          by_location E fst i (0, fi) (local_opendir E i fi) (remote_opendir E i fi)))"

text \<open>\<open>local_releasedir\<close> and \<open>local_release\<close> follow the pointer to the file info.\<close>

definition file_info_of :: "fuse_file_info option \<Rightarrow> (fuse_file_info, 's) cprog" where
  "file_info_of file_info = (case file_info of None \<Rightarrow> throw (Crash ''null file_info'') | Some fi \<Rightarrow> ret fi)"

definition fuse_releasedir :: "'s env \<Rightarrow> string \<Rightarrow> fuse_file_info option \<Rightarrow> (int, 's) cprog" where
  "fuse_releasedir E pathname file_info =
     bnd (target_inode E file_info pathname) (\<lambda>i.
     bnd (file_info_of file_info) (\<lambda>fi. local_releasedir i fi))"

definition fuse_readdir :: "'s env \<Rightarrow> string \<Rightarrow> fuse_file_info option \<Rightarrow> (int \<times> string list, 's) cprog" where
  "fuse_readdir E pathname file_info =
     bnd (target_inode E file_info pathname) (\<lambda>i.
     bnd (table_of E i) (\<lambda>t.
     bnd (deref t) (\<lambda>d.
     bnd (gets (\<lambda>st. dt_loc (dtabs st d))) (\<lambda>l.
       case l of
         LOCAL \<Rightarrow> bnd (local_readdir E i) (\<lambda>names. ret (0, names))
       | REMOTE \<Rightarrow>
           bnd (from_result (get_filename_from_path pathname)) (\<lambda>name.
           bnd (make_remote d name) (\<lambda>r.
             retry_remote E r fst (remote_readdir E r)))
       | _ \<Rightarrow> ret (0, [])))))"

text \<open>A new directory is leased at once; the result of the operation itself is dropped.\<close>

definition lease_new_dir :: "'s env \<Rightarrow> (nat \<times> dentry) option \<Rightarrow> (unit, 's) cprog" where
  "lease_new_dir E made =
     (case made of
        None \<Rightarrow> throw (Crash ''null new_dir_inode'')
      | Some (new_i, new_d) \<Rightarrow> bnd (lease_dentry_table_mkdir E new_i new_d) (\<lambda>_. ret ()))"

definition fuse_mkdir :: "'s env \<Rightarrow> string \<Rightarrow> 32 word \<Rightarrow> (int, 's) cprog" where
  "fuse_mkdir E pathname mode =
     catch_errors (\<lambda>c. c)
       (bnd (from_result (get_filename_from_path pathname)) (\<lambda>target_name.
        bnd (from_result (get_parent_dir_path pathname)) (\<lambda>parent_path.
        bnd (parent_dir E parent_path) (\<lambda>(parent_i, d).
        bnd (gets (\<lambda>st. dt_loc (dtabs st d))) (\<lambda>l.
          case l of
            LOCAL \<Rightarrow>
              bnd (local_mkdir E parent_i target_name mode) (\<lambda>(r, new_i, new_d).
              bnd (lease_new_dir E (Some (new_i, new_d))) (\<lambda>_. ret 0))
          | REMOTE \<Rightarrow>
              bnd (make_remote d target_name) (\<lambda>remote_i.
              bnd (retry_remote E remote_i fst (remote_mkdir E remote_i target_name mode)) (\<lambda>(r, made).
              bnd (lease_new_dir E made) (\<lambda>_. ret 0)))
          | _ \<Rightarrow> ret 0)))))"

text \<open>First the directory itself is removed, by its leader, then the entry in its parent.\<close>

definition rmdir_top :: "'s env \<Rightarrow> meta_location \<Rightarrow> nat \<Rightarrow> nat \<Rightarrow> uuid \<Rightarrow> string \<Rightarrow> (int, 's) cprog" where
  "rmdir_top E l d target_i target_ino target_name =
     (if l = LOCAL then local_rmdir_top E target_i target_ino
      else
        bnd (make_remote d target_name) (\<lambda>r.
          retry_remote E r (\<lambda>c. c) (remote_rmdir_top E r target_ino)))"

definition fuse_rmdir :: "'s env \<Rightarrow> string \<Rightarrow> (int, 's) cprog" where
  "fuse_rmdir E pathname =
     catch_errors (\<lambda>c. c)
       (bnd (from_result (get_filename_from_path pathname)) (\<lambda>target_name.
        bnd (from_result (get_parent_dir_path pathname)) (\<lambda>parent_path.
        bnd (parent_dir E parent_path) (\<lambda>(parent_i, pd).
        bnd (check_child_inode E pd target_name) (\<lambda>target_ino.
        bnd (get_child_inode pd target_name nil_uuid) (\<lambda>p.
        bnd (deref p) (\<lambda>target_i.
        bnd (get_mode E target_i) (\<lambda>m.
          if \<not> S_ISDIR m then ret (- ENOTDIR)
          else
            bnd (get_dentry_table E target_ino False) (\<lambda>t.
            bnd (deref t) (\<lambda>td.
            bnd (gets (\<lambda>st. (dt_loc (dtabs st pd), dt_loc (dtabs st td)))) (\<lambda>(pl, tl).
              if pl \<in> {LOCAL, REMOTE} \<and> tl \<in> {LOCAL, REMOTE} then
                bnd (rmdir_top E tl td target_i target_ino target_name) (\<lambda>r.
                  if r \<noteq> 0 then ret r
                  else if pl = LOCAL then
                    bnd (local_rmdir_down E parent_i target_ino target_name) (\<lambda>_. ret r)
                  else
                    bnd (make_remote pd target_name) (\<lambda>remote_i.
                      retry_remote E remote_i (\<lambda>c. c) (remote_rmdir_down E remote_i target_ino target_name)))
              else ret 0)))))))))))"

section \<open>Renaming\<close>

definition rename_inside :: "'s env \<Rightarrow> string \<Rightarrow> string \<Rightarrow> string \<Rightarrow> 32 word \<Rightarrow> (int, 's) cprog" where
  "rename_inside E parent_path old_path new_path flags =
     bnd (parent_dir E parent_path) (\<lambda>(parent_i, d).
       by_table E (\<lambda>r. r) d new_path 0 (local_rename_same_parent E parent_i old_path new_path flags)
         (\<lambda>r. remote_rename_same_parent E r old_path new_path flags))"

text \<open>The file leaves its directory; what moves is an inode, or null.\<close>

definition rename_out :: "'s env \<Rightarrow> meta_location \<Rightarrow> nat \<Rightarrow> nat \<Rightarrow> string \<Rightarrow> 32 word \<Rightarrow> (nat option, 's) cprog" where
  "rename_out E l d src_parent_i old_path flags =
     (if l = LOCAL then bnd (local_rename_not_same_parent_src E src_parent_i old_path flags) (\<lambda>a. ret (Some a))
      else
        bnd (make_remote d old_path) (\<lambda>r.
        bnd (retry_remote E r fst (remote_rename_not_same_parent_src E r old_path flags)) (\<lambda>(c, moved).
          ret moved)))"

text \<open>The file enters the other directory.\<close>

definition rename_in :: "'s env \<Rightarrow> meta_location \<Rightarrow> nat \<Rightarrow> nat \<Rightarrow> nat option \<Rightarrow> uuid \<Rightarrow> string \<Rightarrow> 32 word \<Rightarrow> (int, 's) cprog" where
  "rename_in E l d dst_parent_i moved check_dst_ino new_path flags =
     (if l = LOCAL then
        bnd (deref moved) (\<lambda>a. local_rename_not_same_parent_dst E dst_parent_i a check_dst_ino new_path flags)
      else
        bnd (make_remote d new_path) (\<lambda>r.
          retry_remote E r (\<lambda>c. c) (remote_rename_not_same_parent_dst E r moved check_dst_ino new_path flags)))"

definition rename_across :: "'s env \<Rightarrow> string \<Rightarrow> string \<Rightarrow> string \<Rightarrow> string \<Rightarrow> 32 word \<Rightarrow> (int, 's) cprog" where
  "rename_across E src_parent_path dst_parent_path old_path new_path flags =
     bnd (parent_dir E src_parent_path) (\<lambda>(src_parent_i, sd).
     bnd (parent_dir E dst_parent_path) (\<lambda>(dst_parent_i, dd).
     bnd (from_result (get_filename_from_path new_path)) (\<lambda>new_name.
     bnd (check_child_inode E dd new_name) (\<lambda>check_dst_ino.
     bnd (gets (\<lambda>st. (dt_loc (dtabs st sd), dt_loc (dtabs st dd)))) (\<lambda>(sl, dl).
       if sl \<in> {LOCAL, REMOTE} \<and> dl \<in> {LOCAL, REMOTE} then
         bnd (rename_out E sl sd src_parent_i old_path flags) (\<lambda>moved.
           rename_in E dl dd dst_parent_i moved check_dst_ino new_path flags)
       else ret 0)))))"

text \<open>The classes \<open>not_leader\<close> and \<open>no_such_object\<close> are \<open>runtime_error\<close>s; \<open>out_of_range\<close> is not.\<close>

definition is_runtime_error :: "exn \<Rightarrow> bool" where
  "is_runtime_error e = (case e of Logic_error _ \<Rightarrow> False | Crash _ \<Rightarrow> False | _ \<Rightarrow> True)"

definition fuse_rename :: "'s env \<Rightarrow> string \<Rightarrow> string \<Rightarrow> 32 word \<Rightarrow> (int, 's) cprog" where
  "fuse_rename E old_path new_path flags =
     (if old_path = new_path then ret (- EEXIST)
      else
        catch
          (bnd (from_result (get_parent_dir_path old_path)) (\<lambda>src_parent_path.
           bnd (from_result (get_parent_dir_path new_path)) (\<lambda>dst_parent_path.
             if src_parent_path = dst_parent_path then rename_inside E src_parent_path old_path new_path flags
             else rename_across E src_parent_path dst_parent_path old_path new_path flags)))
          (\<lambda>e. if e = No_entry then ret (- ENOENT)
               else if e = Permission_denied then ret (- EACCES)
               else if is_runtime_error e then ret (- ENOSYS)
               else throw e))"

section \<open>Files\<close>

definition fuse_open :: "'s env \<Rightarrow> string \<Rightarrow> fuse_file_info \<Rightarrow> (int \<times> fuse_file_info, 's) cprog" where
  "fuse_open E pathname fi =
     (if fi_flags fi AND O_CLOEXEC \<noteq> 0 then throw (Runtime_error ''O_CLOEXEC is ON'')
      else if fi_flags fi AND O_PATH \<noteq> 0 then throw (Runtime_error ''O_PATH is ON'')
      else
        catch_errors (\<lambda>c. (c, fi))
          (bnd (path_inode E pathname) (\<lambda>i.
             by_location E fst i (0, fi) (local_open E i fi) (remote_open E i fi))))"

definition fuse_release :: "'s env \<Rightarrow> string \<Rightarrow> fuse_file_info option \<Rightarrow> (int, 's) cprog" where
  "fuse_release E pathname file_info =
     bnd (target_inode E file_info pathname) (\<lambda>i.
     bnd (file_info_of file_info) (\<lambda>fi. local_release i fi))"

definition fuse_create :: "'s env \<Rightarrow> string \<Rightarrow> 32 word \<Rightarrow> fuse_file_info \<Rightarrow> (int \<times> fuse_file_info, 's) cprog" where
  "fuse_create E pathname mode fi =
     (if S_ISDIR mode then ret (- EISDIR, fi)
      else
        catch_errors (\<lambda>c. (c, fi))
          (bnd (from_result (get_filename_from_path pathname)) (\<lambda>target_name.
           bnd (from_result (get_parent_dir_path pathname)) (\<lambda>parent_path.
           bnd (parent_dir E parent_path) (\<lambda>(parent_i, d).
             by_table E fst d target_name (0, fi)
               (bnd (local_create E parent_i target_name mode fi) (\<lambda>fi'. ret (0, fi')))
               (\<lambda>r. remote_create E r target_name mode fi))))))"

definition fuse_unlink :: "'s env \<Rightarrow> string \<Rightarrow> (int, 's) cprog" where
  "fuse_unlink E pathname =
     catch_errors (\<lambda>c. c)
       (bnd (from_result (get_filename_from_path pathname)) (\<lambda>target_name.
        bnd (from_result (get_parent_dir_path pathname)) (\<lambda>parent_path.
        bnd (parent_dir E parent_path) (\<lambda>(parent_i, d).
          by_table E (\<lambda>r. r) d target_name 0
            (bnd (local_unlink E parent_i target_name) (\<lambda>_. ret 0))
            (\<lambda>r. remote_unlink E r target_name)))))"

section \<open>Data\<close>

text \<open>Reads go to the pool directly. A missing object ends the read: its exception carries the number
  of bytes that were read before.\<close>

definition read_program :: "'s env \<Rightarrow> nat \<Rightarrow> 64 word \<Rightarrow> 64 word \<Rightarrow> (int \<times> bytes, 's) cprog" where
  "read_program E i sz offset st =
     (case local_read E i sz offset st of
        (Inr n, bs, st') \<Rightarrow> Some (Inr (to_int (int n), bs), st')
      | (Inl (No_such_object n), bs, st') \<Rightarrow> Some (Inr (to_int (int n), bs), st')
      | (Inl e, bs, st') \<Rightarrow> Some (Inl e, st'))"

definition fuse_read ::
  "'s env \<Rightarrow> string \<Rightarrow> 64 word \<Rightarrow> 64 word \<Rightarrow> fuse_file_info option \<Rightarrow> (int \<times> bytes, 's) cprog" where
  "fuse_read E pathname sz offset file_info =
     catch (bnd (target_inode E file_info pathname) (\<lambda>i. read_program E i sz offset))
       (\<lambda>e. case e of
              No_entry \<Rightarrow> ret (- ENOENT, [])
            | Permission_denied \<Rightarrow> ret (- EACCES, [])
            | No_such_object n \<Rightarrow> ret (to_int (int n), [])
            | _ \<Rightarrow> throw e)"

definition fuse_write :: "'s env \<Rightarrow> string \<Rightarrow> bytes \<Rightarrow> 64 word \<Rightarrow> fuse_file_info option \<Rightarrow> (int, 's) cprog" where
  "fuse_write E pathname buffer offset file_info =
     catch_errors (\<lambda>c. c)
       (bnd (target_inode E file_info pathname) (\<lambda>i.
        bnd (by_location E (\<lambda>r. r) i 0
               (bnd (file_info_of file_info) (\<lambda>fi.
                bnd (local_write E i buffer offset (fi_flags fi)) (\<lambda>n. ret (int n))))
               (bnd (file_info_of file_info) (\<lambda>fi. remote_write E i buffer offset (fi_flags fi)))) (\<lambda>written_len.
          ret (to_int written_len))))"

section \<open>Changes of attributes\<close>

definition fuse_chmod :: "'s env \<Rightarrow> string \<Rightarrow> 32 word \<Rightarrow> fuse_file_info option \<Rightarrow> (int, 's) cprog" where
  "fuse_chmod E pathname mode file_info =
     catch_errors (\<lambda>c. c)
       (bnd (target_inode E file_info pathname) (\<lambda>i.
          by_location E (\<lambda>r. r) i 0 (bnd (local_chmod E i mode) (\<lambda>_. ret 0)) (remote_chmod E i mode)))"

text \<open>\<open>chown\<close> and \<open>utimens\<close> return 0 whatever the leader answers.\<close>

definition fuse_chown :: "'s env \<Rightarrow> string \<Rightarrow> 32 word \<Rightarrow> 32 word \<Rightarrow> fuse_file_info option \<Rightarrow> (int, 's) cprog" where
  "fuse_chown E pathname uid gid file_info =
     catch_errors (\<lambda>c. c)
       (bnd (target_inode E file_info pathname) (\<lambda>i.
        bnd (by_location E (\<lambda>r. r) i 0 (bnd (local_chown E i uid gid) (\<lambda>_. ret 0)) (remote_chown E i uid gid)) (\<lambda>_.
          ret 0)))"

definition fuse_utimens :: "'s env \<Rightarrow> string \<Rightarrow> timespec \<Rightarrow> timespec \<Rightarrow> fuse_file_info option \<Rightarrow> (int, 's) cprog" where
  "fuse_utimens E pathname tv0 tv1 file_info =
     catch_errors (\<lambda>c. c)
       (bnd (target_inode E file_info pathname) (\<lambda>i.
        bnd (by_location E (\<lambda>r. r) i 0 (bnd (local_utimens E i tv0 tv1) (\<lambda>_. ret 0)) (remote_utimens E i tv0 tv1)) (\<lambda>_.
          ret 0)))"

definition fuse_truncate :: "'s env \<Rightarrow> string \<Rightarrow> 64 word \<Rightarrow> fuse_file_info option \<Rightarrow> (int, 's) cprog" where
  "fuse_truncate E pathname offset file_info =
     catch_errors (\<lambda>c. c)
       (bnd (target_inode E file_info pathname) (\<lambda>i.
          by_location E (\<lambda>r. r) i 0 (local_truncate E i offset) (remote_truncate E i offset)))"

end
