(* ===== verification/Startup.thy ===== *)
theory Startup
  imports Fuse_Ops Lease_Manager
begin

text \<open>
  The start of the two processes: \<open>main\<close> of the manager and of the client, \<open>fuse_ops::init\<close> from the configuration to the
  server thread, \<open>fuse_ops::destroy\<close>, the constructor and destructor of \<open>rados_io\<close>, and \<open>util/config\<close>. The cluster, \<open>libconfig\<close> and
  gRPC answer through the parameters of the record \<open>platform\<close>. A process may leave in the middle: by \<open>exit\<close>, or by an exception
  that nobody catches.
\<close>

section \<open>Connections to the cluster\<close>

text \<open>A handle of \<open>librados\<close> is the list of the calls made on it. \<open>R h c\<close> is the \<open>int\<close> that call \<open>c\<close> returns after the calls \<open>h\<close>.\<close>

record conn_info =
  ci_user :: string
  ci_cluster :: string
  ci_flags :: int

datatype rados_call =
    Init2 string string int
  | Conf_read_file string
  | Connect
  | Ioctx_create string
  | Ioctx_close
  | Shutdown

type_synonym rados_handle = "rados_call list"
type_synonym rados_oracle = "rados_handle \<Rightarrow> rados_call \<Rightarrow> int"

definition rados_do :: "rados_oracle \<Rightarrow> rados_call \<Rightarrow> rados_handle \<Rightarrow> int \<times> rados_handle" where
  "rados_do R c h = (R h c, h @ [c])"

definition rados_io_new :: "rados_oracle \<Rightarrow> conn_info \<Rightarrow> string \<Rightarrow> (unit, rados_handle) step" where
  "rados_io_new R ci pool_name h0 =
     (case rados_do R (Init2 (ci_user ci) (ci_cluster ci) (ci_flags ci)) h0 of (ret1, h1) \<Rightarrow>
      if ret1 < 0 then (Inl (Runtime_error ''rados_io::rados_io() failed (couldn't initialize the cluster handle)''), h1)
      else case rados_do R (Conf_read_file ''/etc/ceph/ceph.conf'') h1 of (ret2, h2) \<Rightarrow>
      if ret2 < 0 then (Inl (Runtime_error ''rados_io::rados_io() failed (couldn't read the Ceph configuration file)''), snd (rados_do R Shutdown h2))
      else case rados_do R Connect h2 of (ret3, h3) \<Rightarrow>
      if ret3 < 0 then (Inl (Runtime_error ''rados_io::rados_io() failed (couldn't connect to cluster)''), snd (rados_do R Shutdown h3))
      else case rados_do R (Ioctx_create pool_name) h3 of (ret4, h4) \<Rightarrow>
      if ret4 < 0 then (Inl (Runtime_error ''rados_io::rados_io() failed (couldn't set up ioctx)''), snd (rados_do R Shutdown h4))
      else (Inr (), h4))"

definition rados_io_delete :: "rados_oracle \<Rightarrow> rados_handle \<Rightarrow> rados_handle" where
  "rados_io_delete R h = (case rados_do R Ioctx_close h of (_, h1) \<Rightarrow> snd (rados_do R Shutdown h1))"

section \<open>The process\<close>

text \<open>How a process leaves before its time: \<open>Exits\<close> is \<open>exit\<close>, the others are exceptions that reach the end of \<open>main\<close> or the C code of
  FUSE. \<open>Parse_exception\<close> and \<open>Setting_type\<close> are those of \<open>libconfig\<close> that the program does not catch.\<close>

datatype ending =
    Exits int
  | Uncaught exn
  | Parse_exception
  | Setting_type

text \<open>\<open>remote_handle\<close> is the server of a client, with the address it listens on and whether it runs.\<close>

record 't process =
  cerr :: string
  meta_conn :: rados_handle
  data_conn :: rados_handle
  remote_handle :: "(string \<times> bool) option"
  globals :: 't

type_synonym ('a, 't) start = "'t process \<Rightarrow> ((ending + 'a) \<times> 't process) option"

definition goes :: "'a \<Rightarrow> ('a, 't) start" where
  "goes x p = Some (Inr x, p)"

definition ends :: "ending \<Rightarrow> ('a, 't) start" where
  "ends e p = Some (Inl e, p)"

definition andthen :: "('a, 't) start \<Rightarrow> ('a \<Rightarrow> ('b, 't) start) \<Rightarrow> ('b, 't) start" where
  "andthen m f p =
     (case m p of
        None \<Rightarrow> None
      | Some (Inl e, p') \<Rightarrow> Some (Inl e, p')
      | Some (Inr x, p') \<Rightarrow> f x p')"

definition complain :: "string \<Rightarrow> ending \<Rightarrow> ('a, 't) start" where
  "complain msg e p = Some (Inl e, p\<lparr>cerr := cerr p @ msg @ [CHR 0x0A]\<rparr>)"

text \<open>A program on the globals of the process, whose exceptions nobody catches\<close>

definition within :: "('a, 't) prog \<Rightarrow> ('a, 't) start" where
  "within m p =
     (case m (globals p) of
        None \<Rightarrow> None
      | Some (Inl e, t) \<Rightarrow> Some (Inl (Uncaught e), p\<lparr>globals := t\<rparr>)
      | Some (Inr x, t) \<Rightarrow> Some (Inr x, p\<lparr>globals := t\<rparr>))"

section \<open>Configuration\<close>

datatype file_read = Read_done | File_io_failed | Parse_failed
datatype setting = No_setting | String_setting string | Other_setting

text \<open>\<open>Config::readFile\<close> on a file, \<open>Config::lookup\<close> of a field of that file, \<open>rados_ctx\<close> the cluster for the first and the second pool of the process,
  and whether \<open>ServerBuilder::BuildAndStart\<close> returns a server for an address.\<close>

record platform =
  config_file :: "string \<Rightarrow> file_read"
  config_field :: "string \<Rightarrow> string \<Rightarrow> setting"
  rados_ctx :: "bool \<Rightarrow> rados_oracle"
  server_starts :: "string \<Rightarrow> bool"

definition read_config :: "platform \<Rightarrow> string \<Rightarrow> (unit, 't) start" where
  "read_config P conf =
     (case config_file P conf of
        Read_done \<Rightarrow> goes ()
      | File_io_failed \<Rightarrow> complain ''I/O error while reading file.'' (Exits 1)
      | Parse_failed \<Rightarrow> ends Parse_exception)"

definition lookup_config :: "platform \<Rightarrow> string \<Rightarrow> string \<Rightarrow> (string, 't) start" where
  "lookup_config P conf name =
     (case config_field P conf name of
        String_setting v \<Rightarrow> goes v
      | No_setting \<Rightarrow> complain (''No '' @ [CHR 0x27] @ name @ [CHR 0x27] @ '' setting in configuration file.'') (Exits 1)
      | Other_setting \<Rightarrow> ends Setting_type)"

section \<open>Start of a client\<close>

definition admin_info :: conn_info where
  "admin_info = \<lparr>ci_user = ''client.admin'', ci_cluster = ''ceph'', ci_flags = 0\<rparr>"

definition make_meta_pool :: "platform \<Rightarrow> string \<Rightarrow> (unit, 't) start" where
  "make_meta_pool P name p =
     (case rados_io_new (rados_ctx P True) admin_info name [] of
        (Inl e, h) \<Rightarrow> Some (Inl (Uncaught e), p\<lparr>meta_conn := h\<rparr>)
      | (Inr _, h) \<Rightarrow> Some (Inr (), p\<lparr>meta_conn := h\<rparr>))"

definition make_data_pool :: "platform \<Rightarrow> string \<Rightarrow> (unit, 't) start" where
  "make_data_pool P name p =
     (case rados_io_new (rados_ctx P False) admin_info name [] of
        (Inl e, h) \<Rightarrow> Some (Inl (Uncaught e), p\<lparr>data_conn := h\<rparr>)
      | (Inr _, h) \<Rightarrow> Some (Inr (), p\<lparr>data_conn := h\<rparr>))"

text \<open>\<open>lease_client\<close> keeps the address of this client and starts with an empty table.\<close>

definition make_lease_client :: "string \<Rightarrow> (unit, 's) cprog" where
  "make_lease_client address = modify (\<lambda>st. st\<lparr>self_remote := address, leases := []\<rparr>)"

definition make_client :: "('s \<Rightarrow> 64 word option \<times> 's) \<Rightarrow> 32 word \<Rightarrow> 32 word \<Rightarrow> (unit, 's) cprog" where
  "make_client stub uid gid =
     bnd (on_sys (lift (client_new stub))) (\<lambda>c.
       modify (\<lambda>st. st\<lparr>this_client := c\<lparr>client_uid := uid, client_gid := gid\<rparr>\<rparr>))"

text \<open>\<open>fuse_ops::init\<close>. \<open>E a\<close> are the services with the manager at address \<open>a\<close>, \<open>mount a\<close> its \<open>mount\<close>; the result is the address that the
  server thread is started with.\<close>

definition fuse_start :: "platform \<Rightarrow> (string \<Rightarrow> 's env) \<Rightarrow> (string \<Rightarrow> 's \<Rightarrow> 64 word option \<times> 's) \<Rightarrow> string \<Rightarrow> 32 word \<Rightarrow> 32 word \<Rightarrow>
    (string, 's client_state) start" where
  "fuse_start P E mount conf uid gid =
     andthen (read_config P conf) (\<lambda>_.
     andthen (lookup_config P conf ''manager_ip'') (\<lambda>manager_ip.
     andthen (lookup_config P conf ''manager_port'') (\<lambda>manager_port.
     andthen (lookup_config P conf ''remote_service_ip'') (\<lambda>remote_service_ip.
     andthen (lookup_config P conf ''remote_service_port'') (\<lambda>remote_service_port.
     andthen (lookup_config P conf ''meta_pool_name'') (\<lambda>meta_pool_name.
     andthen (lookup_config P conf ''data_pool_name'') (\<lambda>data_pool_name.
     andthen (make_meta_pool P meta_pool_name) (\<lambda>_.
     andthen (make_data_pool P data_pool_name) (\<lambda>_.
     andthen (within (make_lease_client (remote_service_ip @ '':'' @ remote_service_port))) (\<lambda>_.
     andthen (within (make_client (mount (manager_ip @ '':'' @ manager_port)) uid gid)) (\<lambda>_.
     andthen (within (fuse_init (E (manager_ip @ '':'' @ manager_port)))) (\<lambda>_.
       goes (remote_service_ip @ '':'' @ remote_service_port)))))))))))))"

text \<open>The server thread: the pointer that \<open>BuildAndStart\<close> returns is used without a check. \<open>destroy\<close> uses it as well, whether
  or not the thread has come that far.\<close>

definition run_rpc_server :: "platform \<Rightarrow> string \<Rightarrow> (unit, 't) start" where
  "run_rpc_server P remote_address p =
     (if server_starts P remote_address then Some (Inr (), p\<lparr>remote_handle := Some (remote_address, True)\<rparr>)
      else Some (Inl (Uncaught (Crash ''remote_handle'')), p\<lparr>remote_handle := None\<rparr>))"

definition fuse_destroy :: "(unit, 't) start" where
  "fuse_destroy p =
     (case remote_handle p of
        None \<Rightarrow> Some (Inl (Uncaught (Crash ''remote_handle'')), p)
      | Some (address, _) \<Rightarrow> Some (Inr (), p\<lparr>remote_handle := Some (address, False)\<rparr>))"

text \<open>\<open>main\<close>: \<open>realpath\<close> and \<open>fuse_main\<close> are the C library and FUSE; the last argument is the configuration file, the code that
  \<open>fuse_main\<close> returns is not looked at.\<close>

definition client_main :: "(string \<Rightarrow> string option) \<Rightarrow> (string list \<Rightarrow> string \<Rightarrow> (int, 't) start) \<Rightarrow> string list \<Rightarrow> (int, 't) start" where
  "client_main realpath fuse_main argv =
     (if argv = [] then ends (Uncaught (Crash ''argv''))
      else case realpath (last argv) of
        None \<Rightarrow> complain ''Failed to resolve the path of config file.'' (Exits 1)
      | Some conf \<Rightarrow> andthen (fuse_main (butlast argv) conf) (\<lambda>_. goes 0))"

section \<open>Start of the manager\<close>

text \<open>\<open>Serves\<close>: the process waits for requests, which its two services answer.\<close>

datatype manager_run = Returns int | Serves string lease_table session_impl

definition manager_main :: "platform \<Rightarrow> 's ext \<Rightarrow> string list \<Rightarrow> (manager_run, 's) start" where
  "manager_main P X argv =
     (if argv = [] then ends (Uncaught (Crash ''argv''))
      else if length argv < 2 then \<lambda>p. Some (Inr (Returns 1), p\<lparr>cerr := cerr p @ ''Usage: '' @ hd argv @ '' <config_path>'' @ [CHR 0x0A]\<rparr>)
      else
        andthen (read_config P (argv ! 1)) (\<lambda>_.
        andthen (lookup_config P (argv ! 1) ''manager_ip'') (\<lambda>manager_ip.
        andthen (lookup_config P (argv ! 1) ''manager_port'') (\<lambda>manager_port.
        andthen (lookup_config P (argv ! 1) ''meta_pool_name'') (\<lambda>meta_pool_name.
        andthen (make_meta_pool P meta_pool_name) (\<lambda>_.
        andthen (within (session_new X)) (\<lambda>session_service.
          if server_starts P (manager_ip @ '':'' @ manager_port)
          then goes (Serves (manager_ip @ '':'' @ manager_port) [] session_service)
          else ends (Uncaught (Crash ''server'')))))))))"

section \<open>Connections are given back\<close>

text \<open>How often the cluster handle has been initialised without being shut down again\<close>

fun handles_open :: "rados_oracle \<Rightarrow> rados_handle \<Rightarrow> rados_handle \<Rightarrow> int" where
  "handles_open R h [] = 0"
| "handles_open R h (c # cs) =
     (case c of Init2 _ _ _ \<Rightarrow> if R h c < 0 then 0 else 1 | Shutdown \<Rightarrow> - 1 | _ \<Rightarrow> 0) + handles_open R (h @ [c]) cs"

definition conn_calls :: "conn_info \<Rightarrow> string \<Rightarrow> rados_call list" where
  "conn_calls ci name =
     [Init2 (ci_user ci) (ci_cluster ci) (ci_flags ci), Conf_read_file ''/etc/ceph/ceph.conf'', Connect, Ioctx_create name]"

lemma rados_io_new_connects: "(\<And>h c. 0 \<le> R h c) \<Longrightarrow> rados_io_new R ci name [] = (Inr (), conn_calls ci name)"
  by (simp add: rados_io_new_def rados_do_def conn_calls_def not_less)

section \<open>Refusing a configuration\<close>

definition client_settings :: "string list" where
  "client_settings = [''manager_ip'', ''manager_port'', ''remote_service_ip'', ''remote_service_port'', ''meta_pool_name'', ''data_pool_name'']"

definition config_complete :: "platform \<Rightarrow> string \<Rightarrow> bool" where
  "config_complete P conf \<longleftrightarrow> config_file P conf = Read_done \<and>
     (\<forall>name \<in> set client_settings. \<exists>v. config_field P conf name = String_setting v)"

text \<open>The process leaves with a message and code 1, or with an exception of \<open>libconfig\<close>, and has done nothing else.\<close>

definition refuses :: "('a, 't) start \<Rightarrow> 't process \<Rightarrow> bool" where
  "refuses m p \<longleftrightarrow> (\<exists>e msg. m p = Some (Inl e, p\<lparr>cerr := cerr p @ msg\<rparr>) \<and>
     (e = Exits 1 \<and> msg \<noteq> [] \<or> (e = Parse_exception \<or> e = Setting_type) \<and> msg = []))"

lemma refuses_config:
  assumes "config_file P conf = Read_done \<Longrightarrow> refuses (k ()) p"
  shows "refuses (andthen (read_config P conf) k) p"
  using assms by (cases "config_file P conf") (auto simp: refuses_def andthen_def read_config_def goes_def ends_def complain_def)

lemma refuses_lookup:
  assumes "\<And>v. config_field P conf name = String_setting v \<Longrightarrow> refuses (k v) p"
  shows "refuses (andthen (lookup_config P conf name) k) p"
  using assms by (cases "config_field P conf name") (auto simp: refuses_def andthen_def lookup_config_def goes_def ends_def complain_def)

lemma incomplete_refuses: "\<not> config_complete P conf \<Longrightarrow> refuses (fuse_start P E mount conf uid gid) p"
  unfolding fuse_start_def by (intro refuses_config refuses_lookup) (simp add: config_complete_def client_settings_def)

text \<open>After the configuration has been read the process does not exit, and only exceptions end its start.\<close>

definition settled :: "('a, 't) start \<Rightarrow> bool" where
  "settled m \<longleftrightarrow> (\<forall>p r p'. m p = Some (r, p') \<longrightarrow> cerr p' = cerr p \<and> (\<forall>e. r = Inl e \<longrightarrow> (\<exists>x. e = Uncaught x)))"

named_theorems settling

lemma settled_andthen [settling]: "settled m \<Longrightarrow> (\<And>x. settled (k x)) \<Longrightarrow> settled (andthen m k)"
  unfolding settled_def andthen_def by (fastforce split: option.splits sum.splits prod.splits)

lemma settled_basic [settling]: "settled (goes x)" "settled (within m)" "settled (make_meta_pool P name)" "settled (make_data_pool P name)"
  by (auto simp: settled_def goes_def within_def make_meta_pool_def make_data_pool_def split: option.splits sum.splits prod.splits)

lemma andthen_config: "config_file P conf = Read_done \<Longrightarrow> andthen (read_config P conf) k = k ()"
  by (simp add: fun_eq_iff andthen_def read_config_def goes_def)

lemma andthen_lookup: "config_field P conf name = String_setting v \<Longrightarrow> andthen (lookup_config P conf name) k = k v"
  by (simp add: fun_eq_iff andthen_def lookup_config_def goes_def)

lemma andthen_goes: "andthen m k p = Some (Inr x, p') \<Longrightarrow> \<exists>y p1. m p = Some (Inr y, p1) \<and> k y p1 = Some (Inr x, p')"
  by (auto simp: andthen_def split: option.splits sum.splits prod.splits)

lemma config_goes: "read_config P conf p = Some (Inr x, p') \<Longrightarrow> config_file P conf = Read_done"
  by (auto simp: read_config_def ends_def complain_def split: file_read.splits)

lemma lookup_goes: "lookup_config P conf name p = Some (Inr x, p') \<Longrightarrow> config_field P conf name = String_setting x"
  by (auto simp: lookup_config_def goes_def ends_def complain_def split: setting.splits)

lemma config_completeE:
  assumes "config_complete P conf"
  obtains a b c d e f where "config_file P conf = Read_done" "config_field P conf ''manager_ip'' = String_setting a"
    "config_field P conf ''manager_port'' = String_setting b" "config_field P conf ''remote_service_ip'' = String_setting c"
    "config_field P conf ''remote_service_port'' = String_setting d" "config_field P conf ''meta_pool_name'' = String_setting e"
    "config_field P conf ''data_pool_name'' = String_setting f"
  using assms by (auto simp: config_complete_def client_settings_def)

lemma complete_settles:
  assumes "config_complete P conf"
  shows "settled (fuse_start P E mount conf uid gid)"
proof -
  from assms show ?thesis
    by (rule config_completeE) (simp add: fuse_start_def andthen_config andthen_lookup settling)
qed

text \<open>With a complete configuration and a cluster that answers, \<open>init\<close> comes to the file system itself.\<close>

definition setting_of :: "platform \<Rightarrow> string \<Rightarrow> string \<Rightarrow> string" where
  "setting_of P conf name = (case config_field P conf name of String_setting v \<Rightarrow> v | _ \<Rightarrow> [])"

definition manager_at :: "platform \<Rightarrow> string \<Rightarrow> string" where
  "manager_at P conf = setting_of P conf ''manager_ip'' @ '':'' @ setting_of P conf ''manager_port''"

definition service_at :: "platform \<Rightarrow> string \<Rightarrow> string" where
  "service_at P conf = setting_of P conf ''remote_service_ip'' @ '':'' @ setting_of P conf ''remote_service_port''"

definition identified :: "platform \<Rightarrow> string \<Rightarrow> 64 word \<Rightarrow> 32 word \<Rightarrow> 32 word \<Rightarrow> 's \<Rightarrow> 's client_state \<Rightarrow> 's client_state" where
  "identified P conf cid uid gid s st =
     st\<lparr>self_remote := service_at P conf, leases := [], sys := s, this_client := \<lparr>client_id = cid, client_uid = uid, client_gid = gid\<rparr>\<rparr>"

lemma fuse_start_inits:
  assumes "config_complete P conf" and up: "\<And>b h c. 0 \<le> rados_ctx P b h c" and id: "mount (manager_at P conf) (sys (globals p)) = (Some cid, s)"
    and init: "fuse_init (E (manager_at P conf)) (identified P conf cid uid gid s (globals p)) = Some (Inr (), st)"
  shows "\<exists>p'. fuse_start P E mount conf uid gid p = Some (Inr (service_at P conf), p') \<and> globals p' = st
    \<and> handles_open (rados_ctx P True) [] (meta_conn p') = 1 \<and> handles_open (rados_ctx P False) [] (data_conn p') = 1"
proof -
  have conn: "rados_io_new (rados_ctx P b) admin_info name [] = (Inr (), conn_calls admin_info name)" for b name
    by (rule rados_io_new_connects) (rule up)
  have one: "handles_open (rados_ctx P b) [] (conn_calls admin_info name) = 1" for b name
    using up by (simp add: conn_calls_def not_less)
  from assms(1) obtain a b c d e f where v: "config_file P conf = Read_done" "config_field P conf ''manager_ip'' = String_setting a"
    "config_field P conf ''manager_port'' = String_setting b" "config_field P conf ''remote_service_ip'' = String_setting c"
    "config_field P conf ''remote_service_port'' = String_setting d" "config_field P conf ''meta_pool_name'' = String_setting e"
    "config_field P conf ''data_pool_name'' = String_setting f"
    by (rule config_completeE)
  have at: "manager_at P conf = a @ '':'' @ b" "service_at P conf = c @ '':'' @ d"
    by (simp_all add: manager_at_def service_at_def setting_of_def v)
  show ?thesis
    using id init [unfolded identified_def] unfolding at
    by (simp add: fuse_start_def andthen_config andthen_lookup v andthen_def make_meta_pool_def make_data_pool_def conn within_def
        make_lease_client_def make_client_def modify_def bnd_def on_sys_def zoom_def lift_def client_new_def session_client_mount_def goes_def one)
qed

section \<open>Properties\<close>



text \<open>C25. How \<open>init\<close> may fail. With a configuration that is missing, unreadable or incomplete the process leaves before it has contacted
  the cluster or the manager: with a message and code 1, or with one of the exceptions of \<open>libconfig\<close> that the code does not catch, a syntax
  error and a setting that is not a string. With a complete one it never exits; only an exception ends it.\<close>

theorem fuse_start_endings:
  assumes "fuse_start P E mount conf uid gid p = Some (r, p')"
  shows "(\<not> config_complete P conf \<longrightarrow>
      (r = Inl (Exits 1) \<and> (\<exists>msg. msg \<noteq> [] \<and> p' = p\<lparr>cerr := cerr p @ msg\<rparr>) \<or> (r = Inl Parse_exception \<or> r = Inl Setting_type) \<and> p' = p))
    \<and> (config_complete P conf \<longrightarrow> cerr p' = cerr p \<and> (\<forall>e. r = Inl e \<longrightarrow> (\<exists>x. e = Uncaught x)))"
proof (cases "config_complete P conf")
  case True
  then show ?thesis using complete_settles [of P "conf" E mount uid gid] assms unfolding settled_def by simp
next
  case False
  have "refuses (fuse_start P E mount conf uid gid) p" by (rule incomplete_refuses [OF False])
  then obtain e msg where "r = Inl e" "p' = p\<lparr>cerr := cerr p @ msg\<rparr>"
    "e = Exits 1 \<and> msg \<noteq> [] \<or> (e = Parse_exception \<or> e = Setting_type) \<and> msg = []"
    using assms by (auto simp: refuses_def)
  then show ?thesis using False by auto
qed

text \<open>A port written as a number, without quotes\<close>

definition number_port :: platform where
  "number_port =
     \<lparr>config_file = (\<lambda>_. Read_done), config_field = (\<lambda>_ name. if name = ''manager_port'' then Other_setting else String_setting ''1''),
      rados_ctx = (\<lambda>_ _ _. 0), server_starts = (\<lambda>_. True)\<rparr>"

theorem fuse_start_endings_witness:
  "\<forall>E mount p. \<exists>p'. fuse_start number_port E mount ''nmfs.cfg'' 0 0 (p :: unit client_state process) = Some (Inl Setting_type, p')
     \<and> meta_conn p' = meta_conn p"
proof (intro allI)
  fix E mount and p :: "unit client_state process"
  have "config_field number_port ''nmfs.cfg'' ''manager_port'' = Other_setting" by (simp add: number_port_def)
  then have no: "\<not> config_complete number_port ''nmfs.cfg''" by (auto simp: config_complete_def client_settings_def)
  have run: "fuse_start number_port E mount ''nmfs.cfg'' 0 0 p = Some (Inl Setting_type, p)"
    by (simp add: fuse_start_def andthen_def read_config_def lookup_config_def number_port_def goes_def ends_def)
  show "\<exists>p'. fuse_start number_port E mount ''nmfs.cfg'' 0 0 p = Some (Inl Setting_type, p') \<and> meta_conn p' = meta_conn p"
    using fuse_start_endings [OF run] no run by auto
qed

text \<open>The manager and the clients meet: started with the same configuration file, the manager serves, with an empty table of leases, at the address whose
  services every client uses.\<close>

theorem manager_address:
  assumes "manager_main P X [prog, conf] q = Some (Inr (Serves address t ss), q')"
  shows "t = [] \<and> fuse_start P E mount conf uid gid = fuse_start P (\<lambda>_. E address) (\<lambda>_. mount address) conf uid gid"
proof -
  obtain a b where ok: "config_file P conf = Read_done" and a: "config_field P conf ''manager_ip'' = String_setting a"
    and b: "config_field P conf ''manager_port'' = String_setting b" and "t = []" and "address = a @ '':'' @ b"
    using assms by (auto simp: manager_main_def ends_def dest!: andthen_goes config_goes lookup_goes split: if_splits) (simp add: goes_def)
  then show ?thesis by (simp add: fuse_start_def andthen_config [OF ok] andthen_lookup [OF a] andthen_lookup [OF b])
qed

text \<open>A complete configuration on a cluster that answers\<close>

definition good_platform :: platform where
  "good_platform =
     \<lparr>config_file = (\<lambda>_. Read_done), config_field = (\<lambda>_ name. if name = ''manager_port'' then String_setting ''77'' else String_setting ''x''),
      rados_ctx = (\<lambda>_ _ _. 0), server_starts = (\<lambda>_. True)\<rparr>"

definition new_process :: "'t \<Rightarrow> 't process" where
  "new_process t = \<lparr>cerr = [], meta_conn = [], data_conn = [], remote_handle = None, globals = t\<rparr>"

lemma good_platform_answers:
  "config_complete good_platform name" "config_file good_platform name = Read_done" "0 \<le> rados_ctx good_platform b h c"
  by (simp_all add: good_platform_def config_complete_def client_settings_def)

lemma good_fields:
  "config_field good_platform name ''manager_ip'' = String_setting ''x''" "config_field good_platform name ''manager_port'' = String_setting ''77''"
  "config_field good_platform name ''remote_service_ip'' = String_setting ''x''" "config_field good_platform name ''remote_service_port'' = String_setting ''x''"
  "config_field good_platform name ''meta_pool_name'' = String_setting ''x''" "config_field good_platform name ''data_pool_name'' = String_setting ''x''"
  "server_starts good_platform name"
  by (simp_all add: good_platform_def)

lemma manager_serves:
  obtains q where "manager_main good_platform mem_ext [''manager'', ''nmfs.cfg''] (new_process Map.empty)
    = Some (Inr (Serves ''x:77'' [] \<lparr>next_id = 1\<rparr>), q)"
proof -
  have "session_inv (\<lambda>M. M) 1 (\<lparr>next_id = 1\<rparr>, Map.empty)"
    using mem_empty_file [of CLIENT "''next_id''"] by (simp add: session_inv_def rados_present_def)
  then obtain s where s: "session_new mem_ext Map.empty = Some (Inr \<lparr>next_id = 1\<rparr>, s)"
    using librados.session_restart_inv [OF mem_librados] by blast
  have pool: "rados_io_new (rados_ctx good_platform True) admin_info ''x'' [] = (Inr (), conn_calls admin_info ''x'')"
    by (rule rados_io_new_connects) (rule good_platform_answers)
  show thesis
    by (rule that [of "new_process s\<lparr>meta_conn := conn_calls admin_info ''x''\<rparr>"])
      (simp add: manager_main_def andthen_config andthen_lookup good_platform_answers good_fields andthen_def goes_def within_def
         make_meta_pool_def pool s new_process_def)
qed

theorem manager_address_witness:
  "\<exists>address q. manager_main good_platform mem_ext [''manager'', ''nmfs.cfg''] (new_process Map.empty) = Some (Inr (Serves address [] \<lparr>next_id = 1\<rparr>), q)
     \<and> (\<forall>E mount. fuse_start good_platform E mount ''nmfs.cfg'' 0 0
        = (fuse_start good_platform (\<lambda>_. E address) (\<lambda>_. mount address) ''nmfs.cfg'' 0 0 :: (string, unit client_state) start))"
proof -
  obtain q where q: "manager_main good_platform mem_ext [''manager'', ''nmfs.cfg''] (new_process Map.empty) = Some (Inr (Serves ''x:77'' [] \<lparr>next_id = 1\<rparr>), q)"
    using manager_serves .
  then show ?thesis using manager_address [OF q] by blast
qed

end
