(* ===== verification/Bench_Io.thy ===== *)
theory Bench_Io
  imports Startup
begin

text \<open>
  The \<open>rados_io\<close> of the benchmarks (\<open>client/bench/rados_io.cpp\<close>), which keeps a value in one object, and the program \<open>io_test\<close>.
  Offsets and lengths are \<open>64 word\<close>s; \<open>W\<close> is \<open>ioctx.write_full\<close>. A client of this class sees a map from keys to byte sequences.
\<close>

section \<open>Operations\<close>

text \<open>Length 0 asks for everything from the offset on.\<close>

definition bench_len :: "'s ext \<Rightarrow> string \<Rightarrow> 64 word \<Rightarrow> 64 word \<Rightarrow> (64 word, 's) step" where
  "bench_len X key offset len s =
     (if len \<noteq> 0 then (Inr len, s)
      else case io_stat X key s of
        ((r, sz), s') \<Rightarrow>
          if r < 0 then
            (if r = - ENOENT then (Inl (Runtime_error (''rados_io::read() failed '' @ replicate 6 (CHR 0x09) @ ''(object doesn't exist)'')), s')
             else (Inl (Runtime_error ''rados_io::read() failed''), s'))
          else (Inr (if offset < of_nat sz then of_nat sz - offset else 0), s'))"

definition bench_read :: "'s ext \<Rightarrow> string \<Rightarrow> 64 word \<Rightarrow> 64 word \<Rightarrow> (nat \<times> bytes, 's) step" where
  "bench_read X key offset len s =
     (case bench_len X key offset len s of
        (Inl e, s') \<Rightarrow> (Inl e, s')
      | (Inr n, s') \<Rightarrow>
          (case io_read X key (unat n) (unat offset) s' of
             ((r, bl), s'') \<Rightarrow>
               if r \<ge> 0 then (Inr (nat r, bl), s'')
               else if r = - ENOENT then (Inl (Runtime_error ''rados_io::read() failed (object doesn't exist)''), s'')
               else (Inl (Runtime_error ''rados_io::read() failed''), s'')))"

definition bench_write :: "'s ext \<Rightarrow> (string \<Rightarrow> bytes \<Rightarrow> 's \<Rightarrow> int \<times> 's) \<Rightarrow> string \<Rightarrow> bytes \<Rightarrow> 64 word \<Rightarrow> (nat, 's) step" where
  "bench_write X W key val offset s =
     (case (if offset \<noteq> 0 then io_write X key val (unat offset) s else W key val s) of
        (r, s') \<Rightarrow>
          if r \<ge> 0 then (Inr (length val), s')
          else (Inl (Runtime_error ''rados_io::write() failed''), s'))"

definition bench_exist :: "'s ext \<Rightarrow> string \<Rightarrow> (bool, 's) step" where
  "bench_exist X key s =
     (case io_stat X key s of
        ((r, sz), s') \<Rightarrow>
          if r \<ge> 0 then (Inr True, s')
          else if r = - ENOENT then (Inr False, s')
          else (Inl (Runtime_error ''rados_io::exist() failed''), s'))"

definition bench_remove :: "'s ext \<Rightarrow> string \<Rightarrow> (unit, 's) step" where
  "bench_remove X key s =
     (case io_remove X key s of
        (r, s') \<Rightarrow>
          if r \<ge> 0 then (Inr (), s')
          else if r = - ENOENT then (Inr (), s')
          else (Inl (Runtime_error ''rados_io::remove() failed''), s'))"

text \<open>The constructor and the destructor make the same calls as those of the file system.\<close>

definition bench_new :: "rados_oracle \<Rightarrow> conn_info \<Rightarrow> string \<Rightarrow> (unit, rados_handle) step" where
  "bench_new R ci pool_name h = rados_io_new R ci pool_name h"

definition bench_delete :: "rados_oracle \<Rightarrow> rados_handle \<Rightarrow> rados_handle" where
  "bench_delete R h = rados_io_delete R h"

text \<open>The program \<open>io_test\<close> returns what its read returns.\<close>

definition io_test_main :: "rados_oracle \<Rightarrow> 's ext \<Rightarrow> (int, rados_handle \<times> 's) step" where
  "io_test_main R X st =
     (case st of (h, s) \<Rightarrow>
      case bench_new R \<lparr>ci_user = ''client.admin'', ci_cluster = ''ceph'', ci_flags = 0\<rparr> ''mypool'' h of
        (Inl e, h') \<Rightarrow> (Inl e, h', s)
      | (Inr _, h') \<Rightarrow>
          (case io_write X ''key'' ''value'' 0 s of
             (r, s') \<Rightarrow>
               if r < 0 then (Inl (Runtime_error ''write() failed''), h', s')
               else (case io_read X ''key'' 10 2 s' of
                 ((r', bl), s'') \<Rightarrow> (Inr r', bench_delete R h', s''))))"

section \<open>The map behind it\<close>

text \<open>\<open>write_full\<close> replaces an object.\<close>

locale full_writes = librados X objs for X :: "'s ext" and objs :: "'s \<Rightarrow> string \<rightharpoonup> bytes" +
  fixes W :: "string \<Rightarrow> bytes \<Rightarrow> 's \<Rightarrow> int \<times> 's"
  assumes full_ok: "\<exists>r s'. W k bs s = (r, s') \<and> 0 \<le> r \<and> objs s' = (objs s)(k \<mapsto> bs)"
begin

lemma exist_refines: "\<exists>s'. bench_exist X key s = (Inr (key \<in> dom (objs s)), s') \<and> objs s' = objs s"
  using stat_absent [of s key] stat_present [of s key]
  by (cases "objs s key") (fastforce simp: bench_exist_def ENOENT_def)+

lemma remove_refines: "\<exists>s'. bench_remove X key s = (Inr (), s') \<and> objs s' = (objs s)(key := None)"
  using remove_absent [of s key] remove_present [of s key]
  by (cases "objs s key") (fastforce simp: bench_remove_def ENOENT_def fun_upd_idem)+

lemma write_refines:
  assumes "offset \<noteq> 0 \<Longrightarrow> v \<noteq> []"
  shows "\<exists>s'. bench_write X W key v offset s = (Inr (length v), s')
    \<and> objs s' = (objs s)(key \<mapsto> if offset = 0 then v else overlay (obj_or_empty (objs s) key) (unat offset) v)"
proof (cases "offset = 0")
  case True
  then show ?thesis using full_ok [of key v s] by (auto simp: bench_write_def)
next
  case False
  then show ?thesis using write_ok [of v key "unat offset" s] assms by (auto simp: bench_write_def)
qed

lemma bench_len_present:
  assumes c: "objs s key = Some c" and "length c < 2 ^ 64"
  shows "\<exists>n s'. bench_len X key offset len s = (Inr n, s') \<and> objs s' = objs s
    \<and> unat n = (if len = 0 then length c - unat offset else unat len)"
proof (cases "len = 0")
  case False
  then show ?thesis by (auto simp: bench_len_def)
next
  case True
  have sz: "unat (of_nat (length c) :: 64 word) = length c" using assms(2) by (simp add: unat_of_nat)
  obtain r s' where "io_stat X key s = ((r, length c), s')" "0 \<le> r" "objs s' = objs s" using stat_present [OF c] by blast
  then show ?thesis
    using True sz by (auto simp: bench_len_def word_less_nat_alt unat_sub word_le_nat_alt)
qed

lemma read_refines:
  assumes c: "objs s key = Some c" and "length c < 2 ^ 64"
  shows "\<exists>s'. bench_read X key offset len s =
      (let v = (if len = 0 then drop (unat offset) c else take (unat len) (drop (unat offset) c)) in (Inr (length v, v), s'))
    \<and> objs s' = objs s"
proof -
  obtain n s' where n: "bench_len X key offset len s = (Inr n, s')" "objs s' = objs s"
    "unat n = (if len = 0 then length c - unat offset else unat len)"
    using bench_len_present [OF assms] by blast
  obtain s'' where "io_read X key (unat n) (unat offset) s' =
      ((int (length (take (unat n) (drop (unat offset) c))), take (unat n) (drop (unat offset) c)), s'')" "objs s'' = objs s'"
    using read_present [of s' key c "unat n" "unat offset"] c n(2) by auto
  then show ?thesis using n by (auto simp: bench_read_def Let_def)
qed

lemma read_missing: "objs s key = None \<Longrightarrow> \<exists>e s'. bench_read X key offset len s = (Inl (Runtime_error e), s') \<and> objs s' = objs s"
  using stat_absent [of s key] read_absent [of s key "unat len" "unat offset"]
  by (fastforce simp: bench_read_def bench_len_def ENOENT_def)

end

interpretation mem_full: full_writes mem_ext "\<lambda>M. M" "\<lambda>k bs M. (0, M(k \<mapsto> bs))"
  by unfold_locales (auto simp: mem_ext_def)

lemma io_test_returns:
  assumes "librados X objs" and up: "\<And>h c. 0 \<le> R h c"
  shows "\<exists>h s'. io_test_main R X ([], s) = (Inr (int (length (take 10 (drop 2 (overlay (obj_or_empty (objs s) ''key'') 0 ''value''))))), h, s')
    \<and> handles_open R [] h = 0"
proof -
  have lib: "librados X objs" by (rule assms(1))
  let ?v = "overlay (obj_or_empty (objs s) ''key'') 0 ''value''"
  obtain r s1 where w: "io_write X ''key'' ''value'' 0 s = (r, s1)" "0 \<le> r" "objs s1 ''key'' = Some ?v"
    using librados.write_ok [OF lib, of "''value''" "''key''" 0 s] by auto
  obtain s2 where rd: "io_read X ''key'' 10 2 s1 = ((int (length (take 10 (drop 2 ?v))), take 10 (drop 2 ?v)), s2)"
    using librados.read_present [OF lib w(3), of 10 2] by auto
  have "handles_open R [] (rados_io_delete R (conn_calls ci name)) = 0" for ci name
    using up by (simp add: rados_io_delete_def rados_do_def conn_calls_def not_less)
  then show ?thesis
    using w rd by (simp add: io_test_main_def bench_new_def bench_delete_def rados_io_new_connects [OF up])
qed

section \<open>The operations together\<close>

text \<open>The \<open>rados_io\<close> of the benchmarks implements a map from keys to byte sequences: \<open>exist\<close> and \<open>remove\<close> are membership and removal, a write at
  offset 0 replaces the whole value and one at another offset overlays it, and a read returns the bytes of its range that
  exist, all of them for length 0, and throws when there is no value.\<close>

theorem bench_refines_map:
  assumes "full_writes X objs W" and "offset \<noteq> 0 \<Longrightarrow> v \<noteq> []" and "\<And>c. objs s key = Some c \<Longrightarrow> length c < 2 ^ 64"
  shows "(\<exists>s'. bench_exist X key s = (Inr (key \<in> dom (objs s)), s') \<and> objs s' = objs s)
    \<and> (\<exists>s'. bench_remove X key s = (Inr (), s') \<and> objs s' = (objs s)(key := None))
    \<and> (\<exists>s'. bench_write X W key v offset s = (Inr (length v), s')
        \<and> objs s' = (objs s)(key \<mapsto> if offset = 0 then v else overlay (obj_or_empty (objs s) key) (unat offset) v))
    \<and> (\<exists>r s'. bench_read X key offset len s = (r, s') \<and> objs s' = objs s \<and>
        (case objs s key of
           None \<Rightarrow> \<exists>e. r = Inl (Runtime_error e)
         | Some c \<Rightarrow> let v = (if len = 0 then drop (unat offset) c else take (unat len) (drop (unat offset) c)) in r = Inr (length v, v)))"
proof (intro conjI)
  show "\<exists>r s'. bench_read X key offset len s = (r, s') \<and> objs s' = objs s \<and>
      (case objs s key of
         None \<Rightarrow> \<exists>e. r = Inl (Runtime_error e)
       | Some c \<Rightarrow> let v = (if len = 0 then drop (unat offset) c else take (unat len) (drop (unat offset) c)) in r = Inr (length v, v))"
  proof (cases "objs s key")
    case None
    then show ?thesis using full_writes.read_missing [OF assms(1) None, of offset len] by auto
  next
    case (Some c)
    then show ?thesis using full_writes.read_refines [OF assms(1) Some assms(3) [OF Some], of offset len] by (auto simp: Let_def)
  qed
qed (rule full_writes.exist_refines [OF assms(1)] full_writes.remove_refines [OF assms(1)] full_writes.write_refines [OF assms(1,2)]; assumption?)+

theorem bench_refines_map_witness:
  "\<exists>M. bench_write mem_ext (\<lambda>k bs M. (0, M(k \<mapsto> bs))) ''key'' ''ab'' 1 [''key'' \<mapsto> ''value''] = (Inr 2, M) \<and> M = [''key'' \<mapsto> ''vabue'']
     \<and> (\<exists>M. bench_read mem_ext ''key'' 1 0 [''key'' \<mapsto> ''value''] = (Inr (4, ''alue''), M))"
  using bench_refines_map [OF mem_full.full_writes_axioms, of 1 "''ab''" "[''key'' \<mapsto> ''value'']" "''key''" 0]
  by (auto simp: Let_def overlay_def)

end
