(* ===== verification/Diagnostics.thy ===== *)
theory Diagnostics
  imports Nmfs_Prelude
begin

text \<open>
  What the program prints: the lines of the logger (\<open>lib/logger\<close>) and the dump of a buffer (\<open>util/dump.cpp\<close>), whose loop counters are
  \<open>32 word\<close>s.
\<close>

section \<open>Logger\<close>

text \<open>An \<open>enum\<close> may also hold a number that is not in its list.\<close>

datatype code_location =
    Fuse_op | Local_fs_op | Remote_fs_op | Rados_io_ops | Dentry_ops | Inode_ops | Directory_table_ops | Dentry_table_ops
  | Lease_ops | Rpc_client_ops | Rpc_server_ops | Manager_lease | Manager_session | File_handler_ops | Journal_ops
  | Journal_table_ops | Transaction_ops | Unlisted

fun location_str :: "code_location \<Rightarrow> string" where
  "location_str Fuse_op = ''fuse_operations''"
| "location_str Local_fs_op = ''local_fs_ops''"
| "location_str Remote_fs_op = ''remote_fs_ops''"
| "location_str Rados_io_ops = ''rados_io_ops''"
| "location_str Dentry_ops = ''dentry_ops''"
| "location_str Inode_ops = ''inode_operations''"
| "location_str Directory_table_ops = ''directory_table''"
| "location_str Dentry_table_ops = ''dentry_table''"
| "location_str Lease_ops = ''lease_operation''"
| "location_str Rpc_client_ops = ''rpc_client''"
| "location_str Rpc_server_ops = ''rpc_server''"
| "location_str Manager_lease = ''manager_lease''"
| "location_str Manager_session = ''manager_session''"
| "location_str File_handler_ops = ''file_handler''"
| "location_str Journal_ops = ''journal''"
| "location_str Journal_table_ops = ''journal_table''"
| "location_str Transaction_ops = ''transaction''"
| "location_str Unlisted = ''Unknown''"

text \<open>\<open>std::cout\<close>: what has been printed, and whether fields are adjusted to the left.\<close>

record ostream =
  printed :: string
  adjust_left :: bool

definition put :: "string \<Rightarrow> ostream \<Rightarrow> ostream" where
  "put s out = out\<lparr>printed := printed out @ s\<rparr>"

definition put_setw :: "nat \<Rightarrow> string \<Rightarrow> ostream \<Rightarrow> ostream" where
  "put_setw w s out =
     (let fill = replicate (w - length s) CHR '' ''
      in put (if adjust_left out then s @ fill else fill @ s) out)"

definition logger_new :: "ostream \<Rightarrow> ostream" where
  "logger_new out = out\<lparr>adjust_left := True\<rparr>"

definition CYAN :: string where "CYAN = CHR 0x1B # ''[0;36m''"
definition RESET :: string where "RESET = CHR 0x1B # ''[0m''"

text \<open>\<open>debug\<close> tells whether \<open>DEBUG\<close> is defined.\<close>

definition logger_log :: "bool \<Rightarrow> code_location \<Rightarrow> string \<Rightarrow> ostream \<Rightarrow> ostream" where
  "logger_log debug location message out =
     (if debug then
        (let message' = (if location = Fuse_op then CYAN @ message @ RESET else message);
             out' = put_setw 20 (''['' @ location_str location @ '']'') out
         in put (message' @ [CHR 0x0A]) out')
      else out)"

definition log_tag :: "code_location \<Rightarrow> string" where
  "log_tag location = (let s = ''['' @ location_str location @ '']'' in s @ replicate (20 - length s) CHR '' '')"

lemma log_tag_length: "length (log_tag location) = 20"
  by (cases location) (simp_all add: log_tag_def)

lemma log_tag_inject: "log_tag l = log_tag l' \<longleftrightarrow> l = l'"
  by (cases l; cases l') (simp_all add: log_tag_def numeral_eq_Suc)

section \<open>Dump of a buffer\<close>

definition HEXDUMP_COLS :: nat where "HEXDUMP_COLS = 16"

definition hex_digit :: "nat \<Rightarrow> char" where
  "hex_digit d = char_of (if d < 10 then 48 + d else 87 + d)"

fun hex_digits :: "nat \<Rightarrow> string" where
  "hex_digits n = (if n < 16 then [hex_digit n] else hex_digits (n div 16) @ [hex_digit (n mod 16)])"

declare hex_digits.simps [simp del]

text \<open>The conversions \<open>%0<w>x\<close> of \<open>printf\<close>\<close>

definition hex_pad :: "nat \<Rightarrow> nat \<Rightarrow> string" where
  "hex_pad w n = (let s = hex_digits n in replicate (w - length s) CHR ''0'' @ s)"

text \<open>\<open>isprint\<close> in the locale \<open>C\<close>; a \<open>char\<close> from 128 on is negative and not printable.\<close>

definition is_print :: "char \<Rightarrow> bool" where
  "is_print c \<longleftrightarrow> 32 \<le> (of_char c :: nat) \<and> (of_char c :: nat) \<le> 126"

definition hexdump_stop :: "32 word \<Rightarrow> 32 word" where
  "hexdump_stop len = len + (if len mod of_nat HEXDUMP_COLS \<noteq> 0 then of_nat HEXDUMP_COLS - len mod of_nat HEXDUMP_COLS else 0)"

definition hexdump_ascii :: "bytes \<Rightarrow> 32 word \<Rightarrow> 32 word \<Rightarrow> string" where
  "hexdump_ascii mem len j =
     (if j \<ge> len then '' '' else if is_print (mem ! unat j) then [mem ! unat j] else ''.'')"

text \<open>One turn of the outer loop; the inner one has \<open>HEXDUMP_COLS\<close> turns, which end with \<open>i\<close>.\<close>

definition hexdump_turn :: "bytes \<Rightarrow> 32 word \<Rightarrow> 32 word \<Rightarrow> string" where
  "hexdump_turn mem len i =
     (if i mod of_nat HEXDUMP_COLS = 0 then ''0x'' @ hex_pad 6 (unat i) @ '': '' else []) @
     (if i < len then hex_pad 2 (of_char (mem ! unat i)) @ '' '' else ''   '') @
     (if i mod of_nat HEXDUMP_COLS = of_nat (HEXDUMP_COLS - 1)
      then concat (map (\<lambda>k. hexdump_ascii mem len (i - of_nat (HEXDUMP_COLS - 1) + of_nat k)) [0..<HEXDUMP_COLS]) @ [CHR 0x0A]
      else [])"

text \<open>The loop reads all of the first \<open>len\<close> bytes when it runs at all.\<close>

definition hexdump :: "bytes \<Rightarrow> 32 word \<Rightarrow> exn + string" where
  "hexdump mem len =
     (if hexdump_stop len \<noteq> 0 \<and> length mem < unat len then Inl (Crash ''mem'')
      else Inr (concat (map (\<lambda>k. hexdump_turn mem len (of_nat k)) [0..<unat (hexdump_stop len)])))"

section \<open>The dump as rows\<close>

text \<open>A row shows at most sixteen bytes, at their offset.\<close>

definition dump_row :: "nat \<Rightarrow> bytes \<Rightarrow> string" where
  "dump_row off bs =
     ''0x'' @ hex_pad 6 off @ '': '' @
     concat (map (\<lambda>b. hex_pad 2 (of_char b) @ '' '') bs) @ replicate (3 * (16 - length bs)) CHR '' '' @
     map (\<lambda>b. if is_print b then b else CHR ''.'') bs @ replicate (16 - length bs) CHR '' '' @ [CHR 0x0A]"

fun dump_rows :: "nat \<Rightarrow> bytes \<Rightarrow> string" where
  "dump_rows off bs = (if bs = [] then [] else dump_row off (take 16 bs) @ dump_rows (off + 16) (drop 16 bs))"

declare dump_rows.simps [simp del]

lemma dump_rows_map: "dump_rows off bs = concat (map (\<lambda>r. dump_row (off + 16 * r) (take 16 (drop (16 * r) bs))) [0..<(length bs + 15) div 16])"
proof (induction off bs rule: dump_rows.induct)
  case (1 off bs)
  show ?case
  proof (cases "bs = []")
    case True
    then show ?thesis by (simp add: dump_rows.simps)
  next
    case False
    then have n: "(length bs + 15) div 16 = Suc ((length (drop 16 bs) + 15) div 16)"
      by (cases "length bs < 16") (auto simp: not_less div_if Suc_leI)
    show ?thesis
      using 1 [OF False] False unfolding n
      by (subst dump_rows.simps) (simp add: upt_conv_Cons map_Suc_upt [symmetric] comp_def algebra_simps del: upt_Suc)
  qed
qed

text \<open>One turn in numbers, and sixteen turns\<close>

definition shown :: "bytes \<Rightarrow> nat \<Rightarrow> string" where
  "shown bs k = (if k < length bs then hex_pad 2 (of_char (bs ! k)) @ '' '' else ''   '')"

definition shown_char :: "bytes \<Rightarrow> nat \<Rightarrow> char" where
  "shown_char bs k = (if k < length bs then if is_print (bs ! k) then bs ! k else CHR ''.'' else CHR '' '')"

lemma turn_shown:
  assumes "k < 2 ^ 32" and "unat len \<le> length mem" and bs: "bs = take (unat len) mem"
  shows "hexdump_turn mem len (of_nat k) =
    (if k mod 16 = 0 then ''0x'' @ hex_pad 6 k @ '': '' else []) @ shown bs k
    @ (if k mod 16 = 15 then map (shown_char bs) (map (\<lambda>j. k - 15 + j) [0..<16]) @ [CHR 0x0A] else [])"
proof -
  have k: "unat (of_nat k :: 32 word) = k" using assms(1) by (simp add: unat_of_nat)
  have mod: "of_nat k mod (16 :: 32 word) = of_nat (k mod 16)" by (simp add: word_unat_eq_iff unat_mod k) (simp add: unat_of_nat)
  have eq: "(of_nat (k mod 16) :: 32 word) = of_nat c \<longleftrightarrow> k mod 16 = c" if "c < 16" for c
    using that by (simp add: word_of_nat_eq_iff take_bit_nat_eq_self less_trans [of _ 16])
  have ascii: "hexdump_ascii mem len (of_nat j) = [shown_char bs j]" if "j < 2 ^ 32" for j
    using that assms(2) by (simp add: hexdump_ascii_def shown_char_def bs word_le_nat_alt unat_of_nat)
  have place: "hexdump_ascii mem len (of_nat k - 15 + of_nat j) = [shown_char bs (k - 15 + j)]" if "j < 16" "k mod 16 = 15" for j
  proof -
    have "15 \<le> k" using that(2) by (metis mod_less_eq_dividend)
    then have "(of_nat k - 15 + of_nat j :: 32 word) = of_nat (k - 15 + j)" by (simp add: of_nat_diff)
    moreover have "k - 15 + j < 2 ^ 32" using that(1) assms(1) \<open>15 \<le> k\<close> by simp
    ultimately show ?thesis using ascii [of "k - 15 + j"] by presburger
  qed
  have row: "concat (map (\<lambda>j. hexdump_ascii mem len (of_nat k - 15 + of_nat j)) [0..<16]) = map (shown_char bs) (map (\<lambda>j. k - 15 + j) [0..<16])"
    if "k mod 16 = 15"
  proof -
    have "map (\<lambda>j. hexdump_ascii mem len (of_nat k - 15 + of_nat j)) [0..<16] = map (\<lambda>j. [shown_char bs (k - 15 + j)]) [0..<16]"
      by (intro map_cong refl place that) simp
    then show ?thesis by (simp only: map_map comp_def concat_map_singleton)
  qed
  show ?thesis
    using eq [of 0] eq [of 15] row assms(2)
    by (simp add: hexdump_turn_def HEXDUMP_COLS_def mod shown_def bs word_less_nat_alt k)
qed

lemma sixteen_turns: "concat (map (\<lambda>c. (if c = 0 then p else []) @ h c @ (if c = 15 then q else [])) [0..<16]) = p @ concat (map h [0..<16]) @ q"
  by (simp add: upt_rec numeral_eq_Suc)

text \<open>A row of sixteen places, the last of which may be empty\<close>

lemma row_shown:
  assumes "bs' = take 16 (drop k bs)"
  shows "concat (map (\<lambda>c. shown bs (k + c)) [0..<16]) = concat (map (\<lambda>b. hex_pad 2 (of_char b) @ '' '') bs') @ replicate (3 * (16 - length bs')) CHR '' ''"
    and "map (\<lambda>c. shown_char bs (k + c)) [0..<16] = map (\<lambda>b. if is_print b then b else CHR ''.'') bs' @ replicate (16 - length bs') CHR '' ''"
proof -
  let ?m = "length bs'"
  have m: "?m \<le> 16" "?m = min 16 (length bs - k)" using assms by simp_all
  have split: "[0..<16] = [0..<?m] @ [?m..<16]" using m(1) upt_add_eq_append [of 0 ?m "16 - ?m"] by simp
  have bs': "map f bs' = map (\<lambda>c. f (bs ! (k + c))) [0..<?m]" for f :: "char \<Rightarrow> string" by (rule nth_equalityI) (use assms m in auto)
  have in_bs: "c < ?m \<Longrightarrow> k + c < length bs" and out: "?m \<le> c \<Longrightarrow> c < 16 \<Longrightarrow> \<not> k + c < length bs" for c using m(2) by auto
  have fill: "concat (map (\<lambda>c. ''   '') xs) = replicate (3 * length xs) CHR '' ''" for xs :: "nat list"
    by (induction xs) (simp_all add: numeral_eq_Suc)
  have hex: "concat (map (\<lambda>c. shown bs (k + c)) [0..<?m]) = concat (map (\<lambda>b. hex_pad 2 (of_char b) @ '' '') bs')"
    unfolding bs' by (intro arg_cong [where f = concat] map_cong) (auto simp: shown_def in_bs)
  have none: "concat (map (\<lambda>c. shown bs (k + c)) [?m..<16]) = concat (map (\<lambda>c. ''   '') [?m..<16])"
    by (intro arg_cong [where f = concat] map_cong) (auto simp: shown_def out)
  show "concat (map (\<lambda>c. shown bs (k + c)) [0..<16]) = concat (map (\<lambda>b. hex_pad 2 (of_char b) @ '' '') bs') @ replicate (3 * (16 - length bs')) CHR '' ''"
    unfolding split map_append concat_append hex none fill by simp
  have chars: "map (\<lambda>c. shown_char bs (k + c)) [0..<?m] = map (\<lambda>b. if is_print b then b else CHR ''.'') bs'"
    by (rule nth_equalityI) (use assms m in \<open>auto simp: shown_char_def\<close>)
  have blank: "map (\<lambda>c. shown_char bs (k + c)) [?m..<16] = replicate (16 - ?m) CHR '' ''"
    by (rule replicate_eqI) (auto simp: shown_char_def out)
  show "map (\<lambda>c. shown_char bs (k + c)) [0..<16] = map (\<lambda>b. if is_print b then b else CHR ''.'') bs' @ replicate (16 - length bs') CHR '' ''"
    unfolding split map_append chars blank ..
qed

lemma row_turns:
  assumes "16 * r + 16 \<le> 2 ^ 32" and "unat len \<le> length mem" and bs: "bs = take (unat len) mem"
  shows "concat (map (\<lambda>k. hexdump_turn mem len (of_nat k)) [16 * r..<16 * r + 16]) = dump_row (16 * r) (take 16 (drop (16 * r) bs))"
proof -
  let ?p = "''0x'' @ hex_pad 6 (16 * r) @ '': ''" and ?q = "map (\<lambda>c. shown_char bs (16 * r + c)) [0..<16] @ [CHR 0x0A]"
  have turn: "hexdump_turn mem len (of_nat (16 * r + c)) = (if c = 0 then ?p else []) @ shown bs (16 * r + c) @ (if c = 15 then ?q else [])"
    if "c < 16" for c
  proof -
    have "(16 * r + c) mod 16 = c" using that by simp
    then show ?thesis using turn_shown [of "16 * r + c" len mem bs] assms that by (simp add: comp_def)
  qed
  have "map (\<lambda>k. hexdump_turn mem len (of_nat k)) [16 * r..<16 * r + 16] = map (\<lambda>c. hexdump_turn mem len (of_nat (16 * r + c))) [0..<16]"
    by (rule nth_equalityI) (simp_all del: of_nat_add upt_rec_numeral)
  also have "\<dots> = map (\<lambda>c. (if c = 0 then ?p else []) @ shown bs (16 * r + c) @ (if c = 15 then ?q else [])) [0..<16]"
    by (intro map_cong refl turn) simp
  finally show ?thesis
    by (simp only: sixteen_turns row_shown [OF refl] dump_row_def append_assoc)
qed

lemma all_turns:
  assumes "unat len \<le> length mem" and bs: "bs = take (unat len) mem"
  shows "16 * n \<le> 2 ^ 32 \<Longrightarrow> concat (map (\<lambda>k. hexdump_turn mem len (of_nat k)) [0..<16 * n])
    = concat (map (\<lambda>r. dump_row (16 * r) (take 16 (drop (16 * r) bs))) [0..<n])"
proof (induction n)
  case (Suc n)
  have "[0..<16 * Suc n] = [0..<16 * n] @ [16 * n..<16 * n + 16]" using upt_add_eq_append [of 0 "16 * n" 16] by (simp add: algebra_simps)
  then have "concat (map (\<lambda>k. hexdump_turn mem len (of_nat k)) [0..<16 * Suc n])
      = concat (map (\<lambda>k. hexdump_turn mem len (of_nat k)) [0..<16 * n]) @ dump_row (16 * n) (take 16 (drop (16 * n) bs))"
    using row_turns [OF _ assms, of n] Suc.prems by simp
  also have "\<dots> = concat (map (\<lambda>r. dump_row (16 * r) (take 16 (drop (16 * r) bs))) [0..<Suc n])"
    using Suc by simp
  finally show ?case .
qed simp

lemma round_up:
  fixes n :: nat
  shows "16 * ((n + 15) div 16) = (if n mod 16 = 0 then n else n + (16 - n mod 16))"
proof -
  define q r where "q = n div 16" and "r = n mod 16"
  then have n: "n = r + 16 * q" "n mod 16 = r" and r: "r < 16" by simp_all
  have "(r + 15) div 16 = (if r = 0 then 0 else 1)" by (rule div_nat_eqI) (use r in auto)
  then have "(n + 15) div 16 = q + (if r = 0 then 0 else 1)" unfolding n(1) by (simp add: algebra_simps)
  then show ?thesis unfolding n(2) using n(1) r by simp
qed

lemma round_limit: 
  fixes n :: nat
  assumes "n < 2 ^ 32"
  shows "16 * ((n + 15) div 16) \<le> 2 ^ 32" and "16 * ((n + 15) div 16) = 2 ^ 32 \<longleftrightarrow> \<not> n \<le> 2 ^ 32 - 16"
proof -
  show "16 * ((n + 15) div 16) \<le> 2 ^ 32" using assms by simp
  show "16 * ((n + 15) div 16) = 2 ^ 32 \<longleftrightarrow> \<not> n \<le> 2 ^ 32 - 16" using assms by simp linarith
qed

text \<open>The end of the loop is the length rounded up, unless that is \<open>2^32\<close>, which wraps to 0.\<close>

lemma hexdump_stop_unat: "unat (hexdump_stop len) = (if unat len \<le> 2 ^ 32 - 16 then 16 * ((unat len + 15) div 16) else 0)"
proof -
  let ?n = "unat len"
  have m: "unat (len mod 16) = ?n mod 16" by (simp add: unat_mod)
  have lt: "?n < 2 ^ 32" using unsigned_less [of len] by simp
  have "unat (hexdump_stop len) = (16 * ((?n + 15) div 16)) mod 2 ^ 32"
  proof (cases "?n mod 16 = 0")
    case True
    then have "len mod 16 = 0" using m by (metis unat_eq_zero)
    then have "hexdump_stop len = len" by (simp add: hexdump_stop_def HEXDUMP_COLS_def)
    then show ?thesis using lt by (simp only: round_up True if_True) simp
  next
    case False
    then have "len mod 16 \<noteq> 0" using m by (metis unat_0)
    then have "hexdump_stop len = len + (16 - len mod 16)" by (simp only: hexdump_stop_def HEXDUMP_COLS_def of_nat_numeral not_False_eq_True if_True)
    moreover have "unat (16 - len mod 16) = 16 - ?n mod 16" using m by (simp add: unat_sub word_le_nat_alt)
    ultimately show ?thesis using False by (simp only: round_up if_False) (simp add: unat_word_ariths)
  qed
  then show ?thesis using round_limit [OF lt] lt by (cases "?n \<le> 2 ^ 32 - 16") (simp_all only: if_True if_False le_less mod_self mod_less simp_thms)
qed

section \<open>Properties\<close>

text \<open>The dump of a buffer shows all of its bytes, sixteen in a row with the offset of the row, as numbers and as characters, the last row filled
  with blanks, as long as the rounded length is below \<open>2^32\<close>; for the fifteen lengths above, the end of the loop wraps to 0 and nothing is printed.\<close>

theorem hexdump_rows:
  assumes "unat len \<le> length mem"
  shows "hexdump mem len = Inr (if unat len \<le> 2 ^ 32 - 16 then dump_rows 0 (take (unat len) mem) else [])"
proof (cases "unat len \<le> 2 ^ 32 - 16")
  case True
  then have "16 * ((unat len + 15) div 16) \<le> 2 ^ 32" by simp
  from all_turns [OF assms refl this] show ?thesis
    using True assms by (simp add: hexdump_def hexdump_stop_unat dump_rows_map min_absorb2)
next
  case False
  then show ?thesis using assms by (simp add: hexdump_def hexdump_stop_unat)
qed

theorem hexdump_rows_witness:
  "hexdump ''nmfs'' 4 = Inr (dump_row 0 ''nmfs'')"
  using hexdump_rows [of 4 "''nmfs''"] by (simp add: dump_rows.simps)

text \<open>The log is readable line by line: without \<open>DEBUG\<close> nothing is printed, with it one line whose message starts in column 20, behind a tag from
  which the location can be told.\<close>

theorem logger_log_line:
  assumes "adjust_left out"
  shows "(\<not> debug \<longrightarrow> logger_log debug location message out = out)
    \<and> (debug \<longrightarrow> (\<exists>tag text. printed (logger_log debug location message out) = printed out @ tag @ text @ [CHR 0x0A]
        \<and> tag = log_tag location \<and> length tag = 20 \<and> (\<forall>l. log_tag l = tag \<longrightarrow> l = location)
        \<and> text = (if location = Fuse_op then CYAN @ message @ RESET else message)))"
  using assms log_tag_inject log_tag_length
  by (auto simp: logger_log_def put_setw_def put_def Let_def log_tag_def)

theorem logger_log_line_witness:
  "printed (logger_log True Journal_ops ''Called commit()'' (logger_new \<lparr>printed = [], adjust_left = False\<rparr>))
     = ''[journal]           Called commit()'' @ [CHR 0x0A]"
  using logger_log_line [of "logger_new \<lparr>printed = [], adjust_left = False\<rparr>" True Journal_ops "''Called commit()''"]
  by (simp add: logger_new_def log_tag_def numeral_eq_Suc)

end
