(* ===== verification/Rpc_Channels.thy ===== *)
theory Rpc_Channels
  imports Nmfs_Prelude
begin

text \<open>
  The cache of connections to other clients (\<open>get_rpc_client\<close> of \<open>client/meta/remote_inode.cpp\<close>): one \<open>rpc_client\<close> for each
  address. An entry is inserted as a null pointer and filled afterwards, under the mutex of the list.
\<close>

section \<open>The cache\<close>

text \<open>\<open>made a\<close> is the address that the \<open>rpc_client\<close> object number \<open>a\<close> has been made for.\<close>

record channels =
  rc_list :: "(string, nat option) robin_map"
  made :: "nat \<Rightarrow> string"
  next_rc :: nat

definition no_channels :: channels where
  "no_channels = \<lparr>rc_list = [], made = (\<lambda>_. []), next_rc = 0\<rparr>"

definition get_rpc_client :: "string \<Rightarrow> channels \<Rightarrow> nat option \<times> channels" where
  "get_rpc_client remote_address c =
     (case rm_find (rc_list c) remote_address of
        Some rc \<Rightarrow> (rc, c)
      | None \<Rightarrow>
          (let rc = next_rc c;
               c1 = c\<lparr>made := (made c)(rc := remote_address), next_rc := Suc rc\<rparr>
           in case rm_insert remote_address None (rc_list c1) of
                (l, True) \<Rightarrow> (Some rc, c1\<lparr>rc_list := rm_set remote_address (Some rc) l\<rparr>)
              | (l, False) \<Rightarrow> (None, c1)))"

fun get_rpc_clients :: "string list \<Rightarrow> channels \<Rightarrow> nat option list \<times> channels" where
  "get_rpc_clients [] c = ([], c)"
| "get_rpc_clients (a # as) c =
     (case get_rpc_client a c of (rc, c1) \<Rightarrow>
      case get_rpc_clients as c1 of (rcs, c2) \<Rightarrow> (rc # rcs, c2))"

section \<open>One object per address\<close>

definition channels_ok :: "channels \<Rightarrow> bool" where
  "channels_ok c \<longleftrightarrow> (\<forall>a rc. rm_find (rc_list c) a = Some rc \<longrightarrow> (\<exists>n. rc = Some n \<and> n < next_rc c \<and> made c n = a))"

lemma channels_ok_init: "channels_ok no_channels"
  by (simp add: channels_ok_def no_channels_def)

text \<open>A call answers with the object of its address, and what is in the list stays there.\<close>

lemma get_rpc_client_spec:
  assumes "channels_ok c"
  obtains n c' where "get_rpc_client a c = (Some n, c')" and "channels_ok c'" and "rm_find (rc_list c') a = Some (Some n)"
    and "\<And>b rc. rm_find (rc_list c) b = Some rc \<Longrightarrow> rm_find (rc_list c') b = Some rc"
proof (cases "rm_find (rc_list c) a")
  case (Some rc)
  then obtain n where "rc = Some n" using assms by (auto simp: channels_ok_def)
  then show thesis by (intro that [of n c]) (use Some assms in \<open>simp_all add: get_rpc_client_def\<close>)
next
  case None
  let ?n = "next_rc c"
  let ?c = "c\<lparr>made := (made c)(?n := a), next_rc := Suc ?n, rc_list := rm_set a (Some ?n) (rc_list c @ [(a, None)])\<rparr>"
  have find: "map_of (rc_list ?c) = (map_of (rc_list c))(a \<mapsto> Some ?n)" using None by (simp add: rm_simps)
  show thesis
  proof (rule that [of ?n ?c])
    show "get_rpc_client a c = (Some ?n, ?c)" using None by (simp add: get_rpc_client_def rm_simps Let_def)
    show "channels_ok ?c"
      unfolding channels_ok_def find
    proof (intro allI impI)
      fix b rc assume b: "((map_of (rc_list c))(a \<mapsto> Some ?n)) b = Some rc"
      show "\<exists>n. rc = Some n \<and> n < next_rc ?c \<and> made ?c n = b"
      proof (cases "b = a")
        case False
        then obtain n where "rc = Some n" "n < next_rc c" "made c n = b" using assms b by (auto simp: channels_ok_def)
        then show ?thesis by (intro exI [of _ n]) simp
      qed (use b in \<open>auto intro!: exI [of _ ?n]\<close>)
    qed
  qed (use find None in \<open>auto simp del: channels.simps\<close>)
qed

lemma get_rpc_clients_spec:
  "channels_ok c \<Longrightarrow> \<exists>ns c'. get_rpc_clients as c = (map Some ns, c') \<and> channels_ok c' \<and> length ns = length as
    \<and> (\<forall>k < length as. rm_find (rc_list c') (as ! k) = Some (Some (ns ! k)))
    \<and> (\<forall>b rc. rm_find (rc_list c) b = Some rc \<longrightarrow> rm_find (rc_list c') b = Some rc)"
proof (induction "as" arbitrary: c)
  case (Cons a as)
  obtain n c1 where c1: "get_rpc_client a c = (Some n, c1)" "channels_ok c1" "rm_find (rc_list c1) a = Some (Some n)"
    "\<And>b rc. rm_find (rc_list c) b = Some rc \<Longrightarrow> rm_find (rc_list c1) b = Some rc"
    using get_rpc_client_spec [OF Cons.prems, of a] by metis
  obtain ns c2 where c2: "get_rpc_clients as c1 = (map Some ns, c2)" "channels_ok c2" "length ns = length as"
    "\<forall>k < length as. rm_find (rc_list c2) (as ! k) = Some (Some (ns ! k))"
    "\<forall>b rc. rm_find (rc_list c1) b = Some rc \<longrightarrow> rm_find (rc_list c2) b = Some rc"
    using Cons.IH [OF c1(2)] by blast
  show ?case
    by (intro exI [of _ "n # ns"] exI [of _ c2]) (use c1 c2 in \<open>auto simp: nth_Cons split: nat.splits\<close>)
qed simp

section \<open>Property\<close>

text \<open>C27. A client has one connection to each of the others: whatever addresses are asked for, and in whatever order, every call returns an object,
  which was made for its address, and two calls return the same object exactly when they ask for the same address.\<close>

theorem one_channel_per_address:
  assumes "get_rpc_clients as no_channels = (rcs, c)" and "j < length as" and "k < length as"
  shows "\<exists>n. rcs ! j = Some n \<and> made c n = as ! j \<and> (rcs ! j = rcs ! k \<longleftrightarrow> as ! j = as ! k)"
proof -
  obtain ns where ns: "rcs = map Some ns" "channels_ok c" "length ns = length as"
    "\<forall>k < length as. rm_find (rc_list c) (as ! k) = Some (Some (ns ! k))"
    using get_rpc_clients_spec [OF channels_ok_init, of "as"] assms(1) by auto
  then have "made c (ns ! i) = as ! i" if "i < length as" for i
    using that unfolding channels_ok_def by fastforce
  moreover have "as ! j = as ! k \<Longrightarrow> ns ! j = ns ! k" using spec [OF ns(4), of j] spec [OF ns(4), of k] assms(2,3) by simp
  ultimately show ?thesis using ns assms(2,3) by (metis nth_map option.inject)
qed

theorem one_channel_per_address_witness:
  "fst (get_rpc_clients [''x:1'', ''y:1'', ''x:1''] no_channels) ! 0 = fst (get_rpc_clients [''x:1'', ''y:1'', ''x:1''] no_channels) ! 2"
  using one_channel_per_address [of "[''x:1'', ''y:1'', ''x:1'']" "fst (get_rpc_clients [''x:1'', ''y:1'', ''x:1''] no_channels)"
      "snd (get_rpc_clients [''x:1'', ''y:1'', ''x:1''] no_channels)" 0 2] by (auto simp: numeral_2_eq_2 simp del: get_rpc_clients.simps)

end
