(* ===== verification/Lease_Protocol.thy ===== *)
theory Lease_Protocol
  imports Lease_Client File_Store
begin

text \<open>
  The manager and its clients together, as an interleaving of the critical sections of
  \<open>lease_impl::acquire\<close> and \<open>lease_client::acquire\<close>: several calls of several clients run at the
  same time, the clock moves between any two sections, and an answer may be lost. A client is
  identified by its server address. All hosts read one clock that does not run backwards, which is
  what the code takes \<open>system_clock::now()\<close> to be when it compares the manager's due times with it.
\<close>

text \<open>Where a call is: at the manager, before or after the search, on the way back, or in \<open>update\<close>.\<close>

datatype call_pc =
    Asked
  | Found
  | Missing
  | Answered lease_response
  | Update_found lease_response
  | Update_missing lease_response
  | Finished

record lease_call =
  caller :: string
  call_ino :: uuid
  call_pc :: call_pc

record lease_system =
  sys_now :: int
  mgr :: lease_table
  clients :: "string \<Rightarrow> lease_table_client"
  calls :: "lease_call list"

definition lease_init :: "int \<Rightarrow> lease_system" where
  "lease_init now = \<lparr>sys_now = now, mgr = [], clients = (\<lambda>_. []), calls = []\<rparr>"

abbreviation call_key :: "'s ext \<Rightarrow> lease_call \<Rightarrow> string" where
  "call_key X c \<equiv> lease_key X (make_lease_request (caller c) (call_ino c))"

abbreviation at :: "lease_system \<Rightarrow> nat \<Rightarrow> lease_call \<Rightarrow> call_pc \<Rightarrow> bool" where
  "at s i c p \<equiv> i < length (calls s) \<and> calls s ! i = c \<and> call_pc c = p"

abbreviation go :: "nat \<Rightarrow> lease_call \<Rightarrow> call_pc \<Rightarrow> lease_system \<Rightarrow> lease_system" where
  "go i c p s \<equiv> s\<lparr>calls := (calls s)[i := c\<lparr>call_pc := p\<rparr>]\<rparr>"

inductive lease_step :: "'s ext \<Rightarrow> lease_system \<Rightarrow> lease_system \<Rightarrow> bool" for X where
  tick: "sys_now s \<le> n \<Longrightarrow> lease_step X s (s\<lparr>sys_now := n\<rparr>)"
| ask: "\<not> is_mine (sys_now s) (clients s c) ino \<Longrightarrow>
    lease_step X s (s\<lparr>calls := calls s @ [\<lparr>caller = c, call_ino = ino, call_pc = Asked\<rparr>]\<rparr>)"
| search: "at s i c Asked \<Longrightarrow>
    lease_step X s (go i c (if acquire_find (call_key X c) (mgr s) then Found else Missing) s)"
| compare_and_swap: "at s i c Found \<Longrightarrow> sys_now s \<le> n \<Longrightarrow>
    acquire_cas (sys_now s) n (call_key X c) (caller c) (mgr s) = (a, t') \<Longrightarrow>
    lease_step X s (go i c (Answered (lease_answer a)) (s\<lparr>sys_now := n, mgr := t'\<rparr>))"
| insert_entry: "at s i c Missing \<Longrightarrow>
    acquire_insert (sys_now s) (call_key X c) (caller c) (mgr s) = (a, t') \<Longrightarrow>
    lease_step X s (go i c (Answered (lease_answer a)) (s\<lparr>mgr := t'\<rparr>))"
| lose: "at s i c (Answered r) \<Longrightarrow> lease_step X s (go i c Finished s)"
| receive: "at s i c (Answered r) \<Longrightarrow>
    lease_step X s (go i c (if update_find (call_ino c) (clients s (caller c)) then Update_found r else Update_missing r) s)"
| store_set: "at s i c (Update_found r) \<Longrightarrow>
    lease_step X s (go i c Finished (s\<lparr>clients := (clients s)(caller c :=
      update_set (call_ino c) (res_due r) (res_ret r = 0) (clients s (caller c)))\<rparr>))"
| store_insert: "at s i c (Update_missing r) \<Longrightarrow>
    lease_step X s (go i c Finished (s\<lparr>clients := (clients s)(caller c :=
      update_insert (call_ino c) (res_due r) (res_ret r = 0) (clients s (caller c)))\<rparr>))"

abbreviation lease_steps :: "'s ext \<Rightarrow> lease_system \<Rightarrow> lease_system \<Rightarrow> bool" where
  "lease_steps X \<equiv> (lease_step X)\<^sup>*\<^sup>*"

section \<open>Invariant\<close>

abbreviation dir_key :: "'s ext \<Rightarrow> uuid \<Rightarrow> string" where
  "dir_key X ino \<equiv> uuid_to_string X (splice_prefix_and_postfix (get_prefix_from_uuid ino) (get_postfix_from_uuid ino))"

lemma call_key_eq: "lease_key X (make_lease_request a ino) = dir_key X ino"
  by (simp add: lease_key_def make_lease_request_def)

abbreviation granted :: "'s ext \<Rightarrow> lease_system \<Rightarrow> string \<Rightarrow> uuid \<Rightarrow> int \<Rightarrow> bool" where
  "granted X s c ino d \<equiv> covered (sys_now s) (mgr s) (dir_key X ino) c d"

definition answer_ok :: "'s ext \<Rightarrow> lease_system \<Rightarrow> lease_call \<Rightarrow> lease_response \<Rightarrow> bool" where
  "answer_ok X s c r \<longleftrightarrow> (res_ret r = 0 \<longrightarrow> granted X s (caller c) (call_ino c) (res_due r))"

definition call_ok :: "'s ext \<Rightarrow> lease_system \<Rightarrow> lease_call \<Rightarrow> bool" where
  "call_ok X s c \<longleftrightarrow>
     (case call_pc c of
        Answered r \<Rightarrow> answer_ok X s c r
      | Update_found r \<Rightarrow> answer_ok X s c r
      | Update_missing r \<Rightarrow> answer_ok X s c r
      | _ \<Rightarrow> True)"

definition table_ok :: "'s ext \<Rightarrow> lease_system \<Rightarrow> bool" where
  "table_ok X s \<longleftrightarrow> (\<forall>c ino e. rm_find (clients s c) ino = Some e \<longrightarrow> leader e \<longrightarrow> granted X s c ino (c_due e))"

definition lease_inv :: "'s ext \<Rightarrow> lease_system \<Rightarrow> bool" where
  "lease_inv X s \<longleftrightarrow> table_ok X s \<and> (\<forall>c \<in> set (calls s). call_ok X s c)"

text \<open>What the manager has granted stays granted, until the time is over.\<close>

lemma granted_step:
  assumes "lease_step X s s'" and "granted X s c ino d"
  shows "granted X s' c ino d"
  using assms
proof (induction rule: lease_step.induct)
  case (tick s n)
  then show ?case by (simp add: covered_later)
next
  case (compare_and_swap s i c' n a t')
  from acquire_cas_covered [OF compare_and_swap.prems compare_and_swap.hyps(2), of "call_key X c'" "caller c'"]
    compare_and_swap.hyps(3) show ?case by simp
next
  case (insert_entry s i c' a t')
  from acquire_insert_covered [OF insert_entry.prems, of "call_key X c'" "caller c'"]
    insert_entry.hyps(2) show ?case by simp
qed simp_all

lemma call_ok_step: "lease_step X s s' \<Longrightarrow> call_ok X s c \<Longrightarrow> call_ok X s' c"
  by (auto simp: call_ok_def answer_ok_def dest: granted_step split: call_pc.splits)

lemma table_ok_step: "lease_step X s s' \<Longrightarrow> table_ok X s \<Longrightarrow> clients s' = clients s \<Longrightarrow> table_ok X s'"
  by (simp add: table_ok_def) (blast dest: granted_step)

text \<open>A step that only moves one call keeps the invariant when the moved call is fine.\<close>

lemma lease_inv_move:
  assumes "lease_step X s s'" and "lease_inv X s" and "clients s' = clients s"
    and "calls s' = (calls s)[i := c]" and "call_ok X s' c"
  shows "lease_inv X s'"
  using assms set_update_subset_insert [of "calls s" i c]
  by (auto simp: lease_inv_def intro: table_ok_step call_ok_step)

text \<open>Storing an answer keeps the table right.\<close>

lemma table_ok_update:
  assumes "table_ok X s" and "mine \<longrightarrow> granted X s c ino d" and "map_of t' = map_of (lease_update ino d mine (clients s c))"
  shows "table_ok X (s\<lparr>clients := (clients s)(c := t')\<rparr>)"
  using assms by (auto simp: table_ok_def lease_update_find split: option.splits if_splits)

lemma lease_inv_store:
  assumes "lease_step X s s'" and "lease_inv X s" and "i < length (calls s)" and "answer_ok X s (calls s ! i) r"
    and "c = calls s ! i"
    and "map_of t' = map_of (lease_update (call_ino c) (res_due r) (res_ret r = 0) (clients s (caller c)))"
    and s': "s' = go i c Finished (s\<lparr>clients := (clients s)(caller c := t')\<rparr>)"
  shows "lease_inv X s'"
proof -
  have "table_ok X (s\<lparr>clients := (clients s)(caller c := t')\<rparr>)"
    using assms by (intro table_ok_update) (auto simp: lease_inv_def answer_ok_def)
  moreover have "call_ok X s' (c\<lparr>call_pc := Finished\<rparr>)" by (simp add: call_ok_def)
  ultimately show ?thesis
    using assms(1,2) set_update_subset_insert [of "calls s" i "c\<lparr>call_pc := Finished\<rparr>"] call_ok_step [OF assms(1)]
    by (auto simp: lease_inv_def s' table_ok_def)
qed

lemma lease_answer_ret: "res_ret (lease_answer a) = fst a" "res_due (lease_answer a) = fst (snd a)"
  by (simp_all add: lease_answer_def split: prod.splits)

lemma call_ok_at: "lease_inv X s \<Longrightarrow> i < length (calls s) \<Longrightarrow> call_ok X s (calls s ! i)"
  by (simp add: lease_inv_def)

lemma lease_inv_step:
  assumes "lease_step X s s'" and inv: "lease_inv X s"
  shows "lease_inv X s'"
  using assms(1)
proof cases
  case (tick n)
  have "table_ok X s'" using table_ok_step [OF assms(1)] inv tick by (simp add: lease_inv_def)
  with inv call_ok_step [OF assms(1)] tick show ?thesis by (auto simp: lease_inv_def)
next
  case (ask c ino)
  have "table_ok X s'" using table_ok_step [OF assms(1)] inv ask by (simp add: lease_inv_def)
  with inv call_ok_step [OF assms(1)] ask show ?thesis by (auto simp: lease_inv_def call_ok_def)
next
  case (search i c)
  then show ?thesis by (intro lease_inv_move [OF assms(1) inv]) (auto simp: call_ok_def)
next
  case (compare_and_swap i c n a t')
  have "call_ok X s' (c\<lparr>call_pc := Answered (lease_answer a)\<rparr>)"
    using compare_and_swap acquire_cas_grant [of "sys_now s" n "call_key X c" "caller c" "mgr s" "fst (snd a)" "snd (snd a)" t']
    by (cases a) (auto simp: call_ok_def answer_ok_def lease_answer_ret call_key_eq)
  with compare_and_swap show ?thesis by (intro lease_inv_move [OF assms(1) inv]) auto
next
  case (insert_entry i c a t')
  have "call_ok X s' (c\<lparr>call_pc := Answered (lease_answer a)\<rparr>)"
    using insert_entry acquire_insert_grant [of "sys_now s" "call_key X c" "caller c" "mgr s" "fst (snd a)" "snd (snd a)" t']
    by (cases a) (auto simp: call_ok_def answer_ok_def lease_answer_ret call_key_eq)
  with insert_entry show ?thesis by (intro lease_inv_move [OF assms(1) inv]) auto
next
  case (lose i c r)
  then show ?thesis by (intro lease_inv_move [OF assms(1) inv]) (auto simp: call_ok_def)
next
  case (receive i c r)
  then have "answer_ok X s c r" using call_ok_at [OF inv, of i] by (simp add: call_ok_def)
  with receive show ?thesis by (intro lease_inv_move [OF assms(1) inv]) (auto simp: call_ok_def answer_ok_def)
next
  case (store_set i c r)
  then have ok: "answer_ok X s c r" using call_ok_at [OF inv, of i] by (simp add: call_ok_def)
  show ?thesis
  proof (cases "rm_find (clients s (caller c)) (call_ino c)")
    case None
    then have "clients s' = clients s" using store_set by (simp add: update_set_def)
    with store_set show ?thesis by (intro lease_inv_move [OF assms(1) inv]) (auto simp: call_ok_def)
  next
    case (Some e)
    then have "update_set (call_ino c) (res_due r) (res_ret r = 0) (clients s (caller c))
        = lease_update (call_ino c) (res_due r) (res_ret r = 0) (clients s (caller c))"
      by (simp add: update_set_eq)
    with store_set ok show ?thesis by (intro lease_inv_store [OF assms(1) inv]) auto
  qed
next
  case (store_insert i c r)
  then have "answer_ok X s c r" using call_ok_at [OF inv, of i] by (simp add: call_ok_def)
  with store_insert update_insert_eq show ?thesis by (intro lease_inv_store [OF assms(1) inv]) auto
qed

lemma lease_inv_init: "lease_inv X (lease_init now)"
  by (simp add: lease_inv_def lease_init_def table_ok_def)

lemma lease_inv_steps: "lease_steps X s s' \<Longrightarrow> lease_inv X s \<Longrightarrow> lease_inv X s'"
  by (induction rule: rtranclp_induct) (auto intro: lease_inv_step)

lemma granted_steps: "lease_steps X s s' \<Longrightarrow> granted X s c ino d \<Longrightarrow> granted X s' c ino d"
  by (induction rule: rtranclp_induct) (auto intro: granted_step)

lemma lease_inv_mine:
  "lease_inv X s \<Longrightarrow> rm_find (clients s c) ino = Some e \<Longrightarrow> leader e \<Longrightarrow> granted X s c ino (c_due e)"
  by (simp add: lease_inv_def table_ok_def)

section \<open>Mutual exclusion\<close>

lemma clock_monotone: "lease_step X s s' \<Longrightarrow> sys_now s \<le> sys_now s'"
  by (induction rule: lease_step.induct) auto

text \<open>
  A client reads its entry and then the clock (\<open>is_mine\<close>); both clients may do so at different
  moments of a run. When the later clock reading is before both due times, it is the same client.
\<close>

lemma leases_exclusive:
  assumes "lease_steps X (lease_init n0) s1" and "lease_steps X s1 s" and "rm_find (clients s1 c1) ino = Some e1" and "leader e1"
    and "lease_steps X (lease_init n0) s2" and "lease_steps X s2 s" and "rm_find (clients s2 c2) ino = Some e2" and "leader e2"
    and "sys_now s < c_due e1" and "sys_now s < c_due e2"
  shows "c1 = c2"
proof -
  have "granted X s c1 ino (c_due e1)"
    using assms(1-4) lease_inv_steps lease_inv_init lease_inv_mine granted_steps by metis
  moreover have "granted X s c2 ino (c_due e2)"
    using assms(5-8) lease_inv_steps lease_inv_init lease_inv_mine granted_steps by metis
  ultimately show ?thesis using assms(9,10) by (rule covered_exclusive)
qed

section \<open>Properties\<close>

text \<open>C2. Two clients never both hold the lease of a directory. In every interleaving of any number of
  clients' acquisitions with the manager's critical sections and the clock, if one client has read
  an entry of its own table that makes it leader, another client too, possibly at different
  moments, and at some later moment the clock is before both due times, then they are the same
  client.\<close>

theorem lease_mutual_exclusion:
  assumes "lease_steps X (lease_init n0) s1" and "lease_steps X s1 s" and "rm_find (clients s1 c1) ino = Some e1" and "leader e1"
    and "lease_steps X (lease_init n0) s2" and "lease_steps X s2 s" and "rm_find (clients s2 c2) ino = Some e2" and "leader e2"
    and "sys_now s < c_due e1" and "sys_now s < c_due e2"
  shows "c1 = c2"
  using assms by (rule leases_exclusive)

text \<open>A run in which client \<open>A\<close> gets the lease of the root directory\<close>

definition sample_call :: "call_pc \<Rightarrow> lease_call" where
  "sample_call p = \<lparr>caller = ''A'', call_ino = get_root_ino, call_pc = p\<rparr>"

definition sample_entry :: lease_entry where
  "sample_entry = \<lparr>due = lease_period, addr = ''A''\<rparr>"

definition sample_response :: lease_response where
  "sample_response = \<lparr>res_ret = 0, res_due = lease_period, res_remote_addr = []\<rparr>"

definition sample_state :: "lease_table \<Rightarrow> lease_table_client \<Rightarrow> call_pc \<Rightarrow> lease_system" where
  "sample_state m t p =
     \<lparr>sys_now = 0, mgr = m, clients = (\<lambda>_. [])(''A'' := t), calls = [sample_call p]\<rparr>"

abbreviation sample_mgr :: lease_table where
  "sample_mgr \<equiv> [(dir_key mem_ext get_root_ino, sample_entry)]"

abbreviation sample_table :: lease_table_client where
  "sample_table \<equiv> [(get_root_ino, \<lparr>c_due = lease_period, leader = True\<rparr>)]"

lemma sample_run: "lease_steps mem_ext (lease_init 0) (sample_state sample_mgr sample_table Finished)"
proof -
  have "lease_step mem_ext (lease_init 0) (sample_state [] [] Asked)"
    using lease_step.ask [of "lease_init 0" "''A''" get_root_ino mem_ext]
    by (simp add: lease_init_def sample_state_def sample_call_def is_mine_def fun_upd_idem)
  moreover have "lease_step mem_ext (sample_state [] [] Asked) (sample_state [] [] Missing)"
    using lease_step.search [where s = "sample_state [] [] Asked" and i = 0 and c = "sample_call Asked" and X = mem_ext]
    by (simp add: sample_state_def sample_call_def acquire_find_def)
  moreover have "lease_step mem_ext (sample_state [] [] Missing) (sample_state sample_mgr [] (Answered sample_response))"
    using lease_step.insert_entry [where s = "sample_state [] [] Missing" and i = 0 and c = "sample_call Missing" and X = mem_ext
        and a = "(0, lease_period, ''A'')" and t' = sample_mgr]
    by (simp add: sample_state_def sample_call_def acquire_insert_def lease_entry_new_def rm_insert_def call_key_eq
        sample_entry_def lease_answer_def sample_response_def)
  moreover have "lease_step mem_ext (sample_state sample_mgr [] (Answered sample_response)) (sample_state sample_mgr [] (Update_missing sample_response))"
    using lease_step.receive [where s = "sample_state sample_mgr [] (Answered sample_response)" and i = 0
        and c = "sample_call (Answered sample_response)" and r = sample_response and X = mem_ext]
    by (simp add: sample_state_def sample_call_def update_find_def)
  moreover have "lease_step mem_ext (sample_state sample_mgr [] (Update_missing sample_response)) (sample_state sample_mgr sample_table Finished)"
    using lease_step.store_insert [where s = "sample_state sample_mgr [] (Update_missing sample_response)" and i = 0
        and c = "sample_call (Update_missing sample_response)" and r = sample_response and X = mem_ext]
    by (simp add: sample_state_def sample_call_def update_insert_def rm_insert_def sample_response_def)
  ultimately show ?thesis
    by (meson converse_rtranclp_into_rtranclp rtranclp.rtrancl_refl)
qed

theorem lease_mutual_exclusion_witness: "''A'' = ''A'' \<and> is_mine 0 (clients (sample_state sample_mgr sample_table Finished) ''A'') get_root_ino"
proof
  let ?s = "sample_state sample_mgr sample_table Finished"
  have e: "rm_find (clients ?s ''A'') get_root_ino = Some \<lparr>c_due = lease_period, leader = True\<rparr>"
    by (simp add: sample_state_def)
  show "''A'' = ''A''"
    by (rule lease_mutual_exclusion [OF sample_run rtranclp.rtrancl_refl e _ sample_run rtranclp.rtrancl_refl e])
       (simp_all add: sample_state_def lease_period_pos)
  show "is_mine 0 (clients ?s ''A'') get_root_ino" by (simp add: is_mine_def e lease_period_pos)
qed

end
