(* ===== verification/Local_Data.thy ===== *)
theory Local_Data
  imports Local_Spec
begin

text \<open>
  The operations on the data of a file: reads and writes go to the data pool, and the size in the
  inode follows the length of the file there. An open with \<open>O_TRUNC\<close> breaks this link.
\<close>

section \<open>The journal takes an attribute change\<close>

text \<open>A file (not a directory) of a local directory, whose transaction can take its inode\<close>

definition file_here :: "'s client_state \<Rightarrow> nat \<Rightarrow> bool" where
  "file_here st i \<longleftrightarrow> wf_inode (the_inode st i) \<and> remote (iobjs st i) = None \<and> is_uuid (p_ino (the_inode st i)) \<and>
     \<not> is_nil (ino_of st i) \<and> ino_of st i \<noteq> p_ino (the_inode st i) \<and> journal_ok (jrnl st)"

lemma get_mode_here: "file_here st i \<Longrightarrow> get_mode E i st = Some (Inr (i_mode (core (the_inode st i))), st)"
  by (simp add: get_mode_def file_here_def)

text \<open>What the open transaction of the parent holds for the file after the change: its present attributes\<close>

definition logged :: "'s client_state \<Rightarrow> nat \<Rightarrow> bool" where
  "logged st i \<longleftrightarrow>
     rm_find (f_inodes (open_tx (jrnl st) (p_ino (the_inode st i)))) (ino_of st i) = Some (Some (inode_copy (the_inode st i)))"

lemma log_chreg:
  assumes "file_here st i"
  obtains j' where "with_inode i (\<lambda>n. journal_chreg (p_ino n) n) st = Some (Inr (), st\<lparr>jrnl := j'\<rparr>)"
    and "file_here (st\<lparr>jrnl := j'\<rparr>) i" and "logged (st\<lparr>jrnl := j'\<rparr>) i"
    and "\<forall>ino v. tx_view (open_tx j' ino) v = tx_view (open_tx (jrnl st) ino) v"
proof -
  let ?n = "the_inode st i"
  have j: "journal_ok (jrnl st)" and u: "is_uuid (p_ino ?n)" using assms by (simp_all add: file_here_def)
  have pre: "op_pre (Chreg ?n) (open_tx (jrnl st) (p_ino ?n))"
    using assms open_tx_ok(3) [OF j u] by (simp add: file_here_def file_ok_def)
  obtain j' where j': "journal_apply (p_ino ?n) (run_op (p_ino ?n) (Chreg ?n)) (jrnl st) = Some (Inr (), j')" "journal_ok j'"
    "\<And>v. tx_view (open_tx j' (p_ino ?n)) v = op_effect (Chreg ?n) (tx_view (open_tx (jrnl st) (p_ino ?n)) v)"
    "map_of (f_inodes (open_tx j' (p_ino ?n))) = op_files (Chreg ?n) (map_of (f_inodes (open_tx (jrnl st) (p_ino ?n))))"
    "\<And>ino'. ino' \<noteq> p_ino ?n \<Longrightarrow> open_tx j' ino' = open_tx (jrnl st) ino'"
    using journal_op [OF j u pre] by blast
  have "tx_view (open_tx j' ino) v = tx_view (open_tx (jrnl st) ino) v" for ino v
    using j'(3,5) by (cases "ino = p_ino ?n") simp_all
  then show thesis
    using assms j'(1,2,4)
    by (intro that [of j']) (simp_all add: with_inode_apply journal_chreg_def on_journal_def zoom_def file_here_def logged_def)
qed

section \<open>Writing\<close>

text \<open>The size in the inode is the length of the file in the data pool.\<close>

definition size_ok :: "'s env \<Rightarrow> ('s \<Rightarrow> string \<rightharpoonup> bytes) \<Rightarrow> 's client_state \<Rightarrow> nat \<Rightarrow> bytes \<Rightarrow> bool" where
  "size_ok E dobjs st i c \<longleftrightarrow> data_file E dobjs st (ino_of st i) c \<and> unat (i_size (core (the_inode st i))) = length c"

lemma set_size_fields [simp]:
  "p_ino (set_size n i) = p_ino i" "i_size (core (set_size n i)) = n" "i_mode (core (set_size n i)) = i_mode (core i)"
  "link_target_name (set_size n i) = link_target_name i" "loc (set_size n i) = loc i"
  by (simp_all add: set_size_def)

lemma upd_size:
  "upd_inode i (set_size n) st = Some (Inr (), st\<lparr>iobjs := (iobjs st)(i := (iobjs st i)\<lparr>base := set_size n (the_inode st i)\<rparr>)\<rparr>)"
  by (simp add: upd_inode_def modify_def)

context client_env
begin

lemma write_ok:
  assumes fh: "file_here st i" and sz: "size_ok E dobjs st i c" and ne: "buffer \<noteq> []"
    and off: "off = (if flags AND O_APPEND \<noteq> 0 then length c else unat offset)" and fit: "off + length buffer < 2 ^ 64"
  obtains st' where "local_write E i buffer offset flags st = Some (Inr (length buffer), st')"
    and "size_ok E dobjs st' i (overlay c off buffer)" and "file_here st' i"
    and "length c < off + length buffer \<Longrightarrow> logged st' i"
    and "\<forall>ino v. tx_view (open_tx (jrnl st') ino) v = tx_view (open_tx (jrnl st) ino) v"
proof -
  let ?n = "the_inode st i" and ?k = "uuid_to_string (data_io E) (ino_of st i)"
  let ?off = "if flags AND O_APPEND \<noteq> 0 then i_size (core ?n) else offset"
  let ?stop = "?off + of_nat (length buffer)"
  have size: "unat (i_size (core ?n)) = length c" and data: "rados_file dobjs (sys st) DATA ?k c" using sz by (simp_all add: size_ok_def)
  have uoff: "unat ?off = off" using size off by simp
  have uend: "unat ?stop = off + length buffer"
  proof -
    have "unat (of_nat (length buffer) :: 64 word) = length buffer" using fit by (simp add: unat_of_nat)
    then show ?thesis using uoff fit by (subst unat_add_lem [THEN iffD1]) simp_all
  qed
  obtain s1 where s1: "rados_write (data_io E) DATA ?k buffer off (sys st) = (Inr (length buffer), s1)"
    "rados_file dobjs s1 DATA ?k (overlay c off buffer)"
    by (rule pool_write [OF data ne])
  let ?st1 = "st\<lparr>sys := s1\<rparr>"
  have w: "on_sys (lift (rados_write (data_io E) DATA ?k buffer off)) st = Some (Inr (length buffer), ?st1)"
    by (simp add: on_sys_def zoom_def lift_def s1(1))
  have less: "i_size (core ?n) < ?stop \<longleftrightarrow> length c < off + length buffer"
    using uend size by (simp only: word_less_nat_alt)
  show thesis
  proof (cases "length c < off + length buffer")
    case False
    have "local_write E i buffer offset flags st = Some (Inr (length buffer), ?st1)"
      using False less uoff w by (simp add: local_write_def Let_def bnd_def gets_def ret_def)
    with False show thesis using fh s1(2) size by (intro that [of ?st1]) (simp_all add: size_ok_def file_here_def)
  next
    case True
    let ?st2 = "?st1\<lparr>iobjs := (iobjs st)(i := (iobjs st i)\<lparr>base := set_size ?stop ?n\<rparr>)\<rparr>"
    have "file_here ?st2 i" using fh by (simp add: file_here_def)
    then obtain j' where j': "with_inode i (\<lambda>n. journal_chreg (p_ino n) n) ?st2 = Some (Inr (), ?st2\<lparr>jrnl := j'\<rparr>)"
      "file_here (?st2\<lparr>jrnl := j'\<rparr>) i" "logged (?st2\<lparr>jrnl := j'\<rparr>) i"
      "\<forall>ino v. tx_view (open_tx j' ino) v = tx_view (open_tx (jrnl ?st2) ino) v"
      by (rule log_chreg)
    have "local_write E i buffer offset flags st = Some (Inr (length buffer), ?st2\<lparr>jrnl := j'\<rparr>)"
      using True less uoff w j'(1) by (simp add: local_write_def Let_def bnd_def gets_def ret_def upd_size)
    moreover have "size_ok E dobjs (?st2\<lparr>jrnl := j'\<rparr>) i (overlay c off buffer)"
      using s1(2) uend True by (simp add: size_ok_def)
    ultimately show thesis using j'(2-4) by (intro that [of "?st2\<lparr>jrnl := j'\<rparr>"]) simp_all
  qed
qed

section \<open>Truncation\<close>

lemma truncate_ok:
  assumes fh: "file_here st i" and sz: "size_ok E dobjs st i c" and reg: "\<not> S_ISDIR (i_mode (core (the_inode st i)))"
    and edge: "\<not> (unat offset = length c \<and> 0 < unat offset \<and> unat offset mod OBJ_SIZE = 0)"
  obtains st' where "local_truncate E i offset st = Some (Inr 0, st')"
    and "size_ok E dobjs st' i (take (unat offset) c @ replicate (unat offset - length c) zero_byte)" and "file_here st' i" and "logged st' i"
proof -
  let ?n = "the_inode st i" and ?k = "uuid_to_string (data_io E) (ino_of st i)"
  have data: "rados_file dobjs (sys st) DATA ?k c" using sz by (simp add: size_ok_def)
  obtain s1 where s1: "rados_truncate (data_io E) DATA ?k (unat offset) (sys st) = Some (Inr 0, s1)"
    "rados_file dobjs s1 DATA ?k (take (unat offset) c @ replicate (unat offset - length c) zero_byte)"
    by (rule pool_truncate [OF data edge])
  let ?st1 = "st\<lparr>sys := s1\<rparr>"
  have t: "on_sys (rados_truncate (data_io E) DATA ?k (unat offset)) st = Some (Inr 0, ?st1)"
    by (simp add: on_sys_def zoom_def s1(1))
  let ?st2 = "?st1\<lparr>iobjs := (iobjs st)(i := (iobjs st i)\<lparr>base := set_size offset ?n\<rparr>)\<rparr>"
  obtain st3 where st3: "set_mtime_ctime E i ?st2 = Some (Inr (), st3)" "touched i ?st2 st3" "dobjs (sys st3) = dobjs (sys ?st2)"
    "core (the_inode st3 i) = (core (the_inode ?st2 i))\<lparr>i_mtime := i_mtime (core (the_inode st3 i)), i_ctime := i_ctime (core (the_inode st3 i))\<rparr>"
    "p_ino (the_inode st3 i) = p_ino (the_inode ?st2 i)" "remote (iobjs st3 i) = remote (iobjs ?st2 i)"
    by (rule set_mtime_ctime_data)
  have f3: "i_size (core (the_inode st3 i)) = offset" "i_mode (core (the_inode st3 i)) = i_mode (core ?n)" "ino_of st3 i = ino_of st i"
    by (subst st3(4), simp)+
  have fh3: "file_here st3 i"
    using fh touched_wf [OF st3(2), of i] touched_rest(2) [OF st3(2)] st3(5,6) f3(3) by (simp add: file_here_def)
  then obtain j' where j': "with_inode i (\<lambda>n. journal_chreg (p_ino n) n) st3 = Some (Inr (), st3\<lparr>jrnl := j'\<rparr>)"
    "file_here (st3\<lparr>jrnl := j'\<rparr>) i" "logged (st3\<lparr>jrnl := j'\<rparr>) i"
    by (rule log_chreg)
  have "local_truncate E i offset st = Some (Inr 0, st3\<lparr>jrnl := j'\<rparr>)"
    using reg f3(2) by (simp add: local_truncate_def bnd_def get_mode_here [OF fh] gets_def t upd_size st3(1) journal_attr_def
        get_mode_here [OF fh3] j'(1) ret_def)
  moreover have "size_ok E dobjs (st3\<lparr>jrnl := j'\<rparr>) i (take (unat offset) c @ replicate (unat offset - length c) zero_byte)"
    using s1(2) st3(3) f3 by (simp add: size_ok_def rados_file_def min_def)
  ultimately show thesis using j'(2,3) by (intro that)
qed

text \<open>A read returns the bytes of the range that exist, in the buffer also when the call ends with an
  exception for a missing object.\<close>

lemma read_ok:
  assumes "size_ok E dobjs st i c"
  obtains r st' where "local_read E i sz offset st = (r, take (unat sz) (drop (unat offset) c), st')"
    and "r = Inr (length (take (unat sz) (drop (unat offset) c))) \<or> r = Inl (No_such_object (length (take (unat sz) (drop (unat offset) c))))"
    and "size_ok E dobjs st' i c"
proof -
  let ?k = "uuid_to_string (data_io E) (ino_of st i)" and ?bs = "take (unat sz) (drop (unat offset) c)"
  have data: "rados_file dobjs (sys st) DATA ?k c" using assms by (simp add: size_ok_def)
  obtain r s' where r: "rados_read (data_io E) DATA ?k (unat sz) (unat offset) (sys st) = (r, ?bs, s')"
    "\<forall>b j d. (rados_file dobjs s' b j d \<longleftrightarrow> rados_file dobjs (sys st) b j d) \<and> (rados_present dobjs s' b j \<longleftrightarrow> rados_present dobjs (sys st) b j)"
    "r = Inr (length ?bs) \<or> r = Inl (No_such_object (length ?bs)) \<and> length c < unat offset + unat sz"
    using files.fread_file [OF data, of "unat sz" "unat offset"] by blast
  then show thesis using assms by (intro that [of r "st\<lparr>sys := s'\<rparr>"]) (auto simp: local_read_def size_ok_def)
qed

end

section \<open>Opening\<close>

text \<open>An open with \<open>O_TRUNC\<close> sets the size and leaves the data.\<close>

lemma open_trunc_ok:
  assumes fh: "file_here st i" and reg: "\<not> S_ISDIR (i_mode (core (the_inode st i)))" "\<not> S_ISLNK (i_mode (core (the_inode st i)))"
    and flags: "fi_flags fi AND O_TRUNC \<noteq> 0" "fi_flags fi AND O_PATH = 0" "fi_flags fi AND O_DIRECTORY = 0" and fresh: "fh_fresh st"
  obtains st' where "local_open E i fi st = Some (Inr (0, fi\<lparr>fi_fh := next_fh st\<rparr>), st')"
    and "i_size (core (the_inode st' i)) = 0" and "sys st' = sys st" and "ino_of st' i = ino_of st i" and "logged st' i"
proof -
  let ?st1 = "st\<lparr>iobjs := (iobjs st)(i := (iobjs st i)\<lparr>base := set_size 0 (the_inode st i)\<rparr>)\<rparr>"
  have "file_here ?st1 i" using fh by (simp add: file_here_def)
  then obtain j' where j': "with_inode i (\<lambda>n. journal_chreg (p_ino n) n) ?st1 = Some (Inr (), ?st1\<lparr>jrnl := j'\<rparr>)"
    "logged (?st1\<lparr>jrnl := j'\<rparr>) i"
    by (rule log_chreg)
  let ?st2 = "?st1\<lparr>jrnl := j'\<rparr>"
  have "fh_fresh ?st2" using fresh by (simp add: fh_fresh_def)
  then obtain h st3 where st3: "open_handle i ?st2 = Some (Inr (next_fh ?st2), st3)"
    "st3 = ?st2\<lparr>next_fh := Suc (next_fh ?st2), fh_list := fh_list st3\<rparr>"
    by (rule open_handle_ok)
  have rest: "iobjs st3 = iobjs ?st2" "sys st3 = sys st" "jrnl st3 = j'" by (subst st3(2), simp)+
  have "local_open E i fi st = Some (Inr (0, fi\<lparr>fi_fh := next_fh st\<rparr>), st3)"
    using flags reg by (simp add: local_open_def bnd_def get_mode_here [OF fh] ret_def upd_size j'(1) st3(1))
  then show thesis using rest j'(2) by (intro that [of st3]) (simp_all add: logged_def)
qed

section \<open>Properties\<close>


lemma sample_file_here: "file_here (sample_client M) 1"
  using sample_inodes_wf sample_inos file_ino_not_root is_uuid_root journal_ok_new
  by (simp add: file_here_def) (simp add: sample_client_def sample_file_def inode_new_def)

lemma sample_size_ok: "size_ok mem_env (\<lambda>M. M) (sample_client Map.empty) 1 []"
  using mem_empty_file by (simp add: size_ok_def sample_file_def inode_new_def)




text \<open>\<open>local_read\<close> puts exactly the existing bytes of the range into the buffer, and reports their
  number as its result or in the exception for a missing object.\<close>

theorem local_read_refines:
  assumes "client_env E dobjs" and "size_ok E dobjs st i c"
  shows "\<exists>r st'. local_read E i sz offset st = (r, take (unat sz) (drop (unat offset) c), st')
    \<and> (r = Inr (length (take (unat sz) (drop (unat offset) c))) \<or> r = Inl (No_such_object (length (take (unat sz) (drop (unat offset) c)))))
    \<and> size_ok E dobjs st' i c"
  using client_env.read_ok [OF assms] by metis

theorem local_read_refines_witness:
  "\<exists>r st'. local_read mem_env 1 5 0 (sample_client Map.empty) = (r, [], st')"
  using local_read_refines [OF mem_client_env sample_size_ok, of 5 0] by auto

text \<open>C35. \<open>local_open\<close> with \<open>O_TRUNC\<close> records size 0 for the file, in memory and in the journal, but the data
  file keeps its contents: the size and the data disagree whenever the file was not empty.\<close>

theorem open_trunc_keeps_data:
  assumes "file_here st i" and "\<not> S_ISDIR (i_mode (core (the_inode st i)))" and "\<not> S_ISLNK (i_mode (core (the_inode st i)))"
    and "fi_flags fi AND O_TRUNC \<noteq> 0" and "fi_flags fi AND O_PATH = 0" and "fi_flags fi AND O_DIRECTORY = 0" and "fh_fresh st"
    and "size_ok E dobjs st i c"
  shows "\<exists>st'. local_open E i fi st = Some (Inr (0, fi\<lparr>fi_fh := next_fh st\<rparr>), st') \<and> i_size (core (the_inode st' i)) = 0
    \<and> logged st' i \<and> data_file E dobjs st' (ino_of st' i) c \<and> (size_ok E dobjs st' i c \<longleftrightarrow> c = [])"
proof -
  obtain st' where st': "local_open E i fi st = Some (Inr (0, fi\<lparr>fi_fh := next_fh st\<rparr>), st')"
    "i_size (core (the_inode st' i)) = 0" "sys st' = sys st" "ino_of st' i = ino_of st i" "logged st' i"
    by (rule open_trunc_ok [OF assms(1-7)])
  then show ?thesis using assms(8) by (auto simp: size_ok_def)
qed

theorem open_trunc_keeps_data_witness:
  "\<exists>st'. local_open mem_env 1 \<lparr>fi_flags = O_TRUNC, fi_fh = 0\<rparr> (sample_client Map.empty)
     = Some (Inr (0, \<lparr>fi_flags = O_TRUNC, fi_fh = 0\<rparr>), st')"
proof -
  have "\<not> S_ISDIR (i_mode (core (the_inode (sample_client Map.empty) 1)))" "\<not> S_ISLNK (i_mode (core (the_inode (sample_client Map.empty) 1)))"
    by (simp_all add: sample_file_def inode_new_def S_ISDIR_def S_ISLNK_def S_IFREG_def S_IFMT_def S_IFDIR_def S_IFLNK_def)
  moreover have "O_TRUNC AND O_TRUNC \<noteq> 0" "O_TRUNC AND O_PATH = 0" "O_TRUNC AND O_DIRECTORY = 0"
    by (simp_all add: O_TRUNC_def O_PATH_def O_DIRECTORY_def)
  moreover have "fh_fresh (sample_client Map.empty)" by (simp add: fh_fresh_def)
  ultimately show ?thesis
    using open_trunc_keeps_data [OF sample_file_here _ _ _ _ _ _ sample_size_ok, of "\<lparr>fi_flags = O_TRUNC, fi_fh = 0\<rparr>"] by auto
qed

end
