(* ===== verification/Rpc_Server.thy ===== *)
theory Rpc_Server
  imports Local_Ops "HOL-Library.List_Lexorder" "HOL-Library.Char_ord"
begin

text \<open>
  The service a client offers to the others (\<open>client/rpc/rpc_server.cpp\<close>): each procedure takes a
  request on a directory this client leads and gives an answer. A handler runs in the state of the
  serving client. An exception that leaves a handler is the outcome of the program; what gRPC makes
  of it is not part of this theory.
\<close>

section \<open>Fragments the handlers share\<close>

text \<open>\<open>ino_controller->splice_prefix_and_postfix(\<dots>)\<close> of the two halves in the request\<close>

definition request_ino :: "'m dir_request_scheme \<Rightarrow> uuid" where
  "request_ino request = splice_prefix_and_postfix (q_dentry_table_ino_prefix request) (q_dentry_table_ino_postfix request)"

text \<open>The search for the table of the directory, and the answer when this client does not lead it\<close>

definition leader_table :: "'s env \<Rightarrow> uuid \<Rightarrow> 'a \<Rightarrow> (nat option \<Rightarrow> ('a, 's) cprog) \<Rightarrow> ('a, 's) cprog" where
  "leader_table E ino not_leader body st =
     (case get_dentry_table E ino True st of
        None \<Rightarrow> None
      | Some (Inl e, st') \<Rightarrow> if e = Not_leader then Some (Inr not_leader, st') else Some (Inl e, st')
      | Some (Inr t, st') \<Rightarrow> body t st')"

text \<open>The directory itself or a child, as the request says\<close>

definition request_target :: "'m target_request_scheme \<Rightarrow> nat option \<Rightarrow> (nat option, 's) cprog" where
  "request_target request t =
     bnd (deref t) (\<lambda>d.
       if q_target_is_parent request then get_this_dir_inode d
       else get_child_inode d (q_filename request) nil_uuid)"

definition request_inode :: "'m target_request_scheme \<Rightarrow> nat option \<Rightarrow> (nat, 's) cprog" where
  "request_inode request t = bnd (request_target request t) deref"

text \<open>\<open>parent_dentry_table->get_child_inode(request->filename())\<close>\<close>

definition child_of :: "nat option \<Rightarrow> string \<Rightarrow> (nat, 's) cprog" where
  "child_of t name = bnd (deref t) (\<lambda>d. bnd (get_child_inode d name nil_uuid) deref)"

text \<open>\<open>parent_dentry_table->get_this_dir_inode()\<close>; the pointer may be null.\<close>

definition parent_of :: "nat option \<Rightarrow> (nat \<times> nat option, 's) cprog" where
  "parent_of t = bnd (deref t) (\<lambda>d. bnd (get_this_dir_inode d) (\<lambda>p. ret (d, p)))"

text \<open>A permission check whose refusal becomes the answer\<close>

definition answer_permission :: "'s env \<Rightarrow> nat \<Rightarrow> 32 word \<Rightarrow> (int, 's) cprog" where
  "answer_permission E i msk =
     catch (bnd (inode_permission_check E i msk) (\<lambda>_. ret 0))
       (\<lambda>e. if e = Permission_denied then ret (- EACCES) else throw e)"

text \<open>\<open>make_shared<inode>(dentry_table_ino, uid, gid, mode)\<close> with the owner of the request\<close>

definition make_inode_owned :: "'s env \<Rightarrow> uuid \<Rightarrow> 32 word \<Rightarrow> 32 word \<Rightarrow> 32 word \<Rightarrow> (nat, 's) cprog" where
  "make_inode_owned E parent_ino uid gid mode =
     bnd (get_ts E) (\<lambda>ts.
     bnd (sys_call (new_uuid E)) (\<lambda>ino.
       new_iobj \<lparr>base = inode_new ts ino parent_ino uid gid mode False, remote = None\<rparr>))"

section \<open>Lookups\<close>

definition rpc_server_check_child_inode :: "'s env \<Rightarrow> rpc_dentry_table_request \<Rightarrow> (rpc_dentry_table_respond, 's) cprog" where
  "rpc_server_check_child_inode E request =
     leader_table E (request_ino request) \<lparr>a_checked_ino_prefix = 0, a_checked_ino_postfix = 0, a_checked_ret = - ENOTLEADER\<rparr> (\<lambda>t.
       bnd (deref t) (\<lambda>d.
       bnd (check_child_inode E d (q_filename request)) (\<lambda>ino.
         ret \<lparr>a_checked_ino_prefix = get_prefix_from_uuid ino, a_checked_ino_postfix = get_postfix_from_uuid ino,
              a_checked_ret = 0\<rparr>)))"

definition rpc_server_get_mode :: "'s env \<Rightarrow> rpc_inode_request \<Rightarrow> (rpc_inode_respond, 's) cprog" where
  "rpc_server_get_mode E request =
     leader_table E (request_ino request) \<lparr>a_i_mode = 0, a_inode_ret = - ENOTLEADER\<rparr> (\<lambda>t.
       bnd (child_of t (q_filename request)) (\<lambda>i.
       bnd (get_mode E i) (\<lambda>m.
         ret \<lparr>a_i_mode = m, a_inode_ret = 0\<rparr>)))"

definition rpc_server_permission_check :: "'s env \<Rightarrow> rpc_inode_request \<Rightarrow> (rpc_inode_respond, 's) cprog" where
  "rpc_server_permission_check E request =
     leader_table E (request_ino request) \<lparr>a_i_mode = 0, a_inode_ret = - ENOTLEADER\<rparr> (\<lambda>t.
       bnd (request_inode request t) (\<lambda>i.
       bnd (answer_permission E i (q_mask request)) (\<lambda>r.
         ret \<lparr>a_i_mode = 0, a_inode_ret = r\<rparr>)))"

text \<open>A child that does not exist is reported as \<open>-EACCES\<close>.\<close>

definition rpc_server_getattr :: "'s env \<Rightarrow> rpc_getattr_request \<Rightarrow> (rpc_getattr_respond, 's) cprog" where
  "rpc_server_getattr E request =
     leader_table E (request_ino request) (no_attributes\<lparr>a_getattr_ret := - ENOTLEADER\<rparr>) (\<lambda>t.
       bnd (catch (bnd (request_target request t) (\<lambda>i. ret (Some i)))
              (\<lambda>e. if e = No_entry then ret None else throw e)) (\<lambda>found.
         case found of
           None \<Rightarrow> ret (no_attributes\<lparr>a_getattr_ret := - EACCES\<rparr>)
         | Some p \<Rightarrow>
             bnd (deref p) (\<lambda>i.
             bnd (get_mode E i) (\<lambda>m.
             bnd (gets (\<lambda>st. core (the_inode st i))) (\<lambda>c.
               ret \<lparr>a_mode = m, a_uid = i_uid c, a_gid = i_gid c, a_ino_prefix = get_prefix_from_uuid (i_ino c),
                    a_ino_postfix = get_postfix_from_uuid (i_ino c), a_nlink = i_nlink c, a_i_size = i_size c,
                    a_a_sec = tv_sec (i_atime c), a_a_nsec = tv_nsec (i_atime c), a_m_sec = tv_sec (i_mtime c),
                    a_m_nsec = tv_nsec (i_mtime c), a_c_sec = tv_sec (i_ctime c), a_c_nsec = tv_nsec (i_ctime c),
                    a_getattr_ret = 0\<rparr>)))))"

definition rpc_server_access :: "'s env \<Rightarrow> rpc_access_request \<Rightarrow> (rpc_common_respond, 's) cprog" where
  "rpc_server_access E request =
     leader_table E (request_ino request) \<lparr>a_ret = - ENOTLEADER\<rparr> (\<lambda>t.
       bnd (request_inode request t) (\<lambda>i.
       bnd (answer_permission E i (q_access_mask request)) (\<lambda>r.
         ret \<lparr>a_ret = r\<rparr>)))"

definition rpc_server_opendir :: "'s env \<Rightarrow> rpc_open_opendir_request \<Rightarrow> (rpc_common_respond, 's) cprog" where
  "rpc_server_opendir E request =
     leader_table E (request_ino request) \<lparr>a_ret = - ENOTLEADER\<rparr> (\<lambda>t.
       bnd (request_inode request t) (\<lambda>i.
       bnd (get_mode E i) (\<lambda>m.
         if \<not> S_ISDIR m then ret \<lparr>a_ret = - ENOTDIR\<rparr> else ret \<lparr>a_ret = 0\<rparr>)))"

text \<open>The messages that are written to the stream; the children come from a \<open>std::map\<close>, in the order
  of their names. When this client does not lead the directory, no message is written.\<close>

definition rpc_server_readdir :: "'s env \<Rightarrow> rpc_readdir_request \<Rightarrow> (rpc_name_respond list, 's) cprog" where
  "rpc_server_readdir E request =
     leader_table E (request_ino request) [] (\<lambda>t.
       bnd (deref t) (\<lambda>d.
       bnd (gets (\<lambda>st. sort (map fst (child_inodes (dtabs st d))))) (\<lambda>names.
         ret (map (\<lambda>name. \<lparr>a_filename = name, a_name_ret = 0\<rparr>) ([''.'', ''..''] @ names)))))"

section \<open>Directories\<close>

definition rpc_server_mkdir :: "'s env \<Rightarrow> rpc_mkdir_request \<Rightarrow> (rpc_mkdir_respond, 's) cprog" where
  "rpc_server_mkdir E request =
     (let dentry_table_ino = request_ino request
      in leader_table E dentry_table_ino \<lparr>a_new_dir_ino_prefix = 0, a_new_dir_ino_postfix = 0, a_mkdir_ret = - ENOTLEADER\<rparr> (\<lambda>t.
           bnd (parent_of t) (\<lambda>(d, p).
           bnd (make_inode_owned E dentry_table_ino (q_new_dir_uid request) (q_new_dir_gid request)
                  (q_new_dir_mode request OR S_IFDIR)) (\<lambda>i.
           bnd (create_child_inode d (q_new_dir_name request) i) (\<lambda>_.
           bnd (upd_inode i (set_size DIR_INODE_SIZE)) (\<lambda>_.
           bnd (deref p) (\<lambda>parent_i.
           bnd (set_mtime_ctime E parent_i) (\<lambda>_.
           bnd (gets (\<lambda>st. ino_of st i)) (\<lambda>new_ino.
           bnd (with_inode parent_i (\<lambda>n. journal_mkdir n (q_new_dir_name request) new_ino)) (\<lambda>_.
             ret \<lparr>a_new_dir_ino_prefix = get_prefix_from_uuid new_ino, a_new_dir_ino_postfix = get_postfix_from_uuid new_ino,
                  a_mkdir_ret = 0\<rparr>))))))))))"

definition request_victim :: "rpc_rmdir_request \<Rightarrow> uuid" where
  "request_victim request = splice_prefix_and_postfix (q_target_ino_prefix request) (q_target_ino_postfix request)"

definition rpc_server_rmdir_top :: "'s env \<Rightarrow> rpc_rmdir_request \<Rightarrow> (rpc_common_respond, 's) cprog" where
  "rpc_server_rmdir_top E request =
     leader_table E (request_ino request) \<lparr>a_ret = - ENOTLEADER\<rparr> (\<lambda>t.
       case t of
         None \<Rightarrow> throw (Runtime_error ''directory table is corrupted : Can't find leased directory'')
       | Some d \<Rightarrow>
           bnd (table_get_child_num d) (\<lambda>n.
             if n > 0 then ret \<lparr>a_ret = - ENOTEMPTY\<rparr>
             else
               bnd (on_journal (journal_rmself (request_victim request))) (\<lambda>_.
               bnd (delete_dentry_table (request_victim request)) (\<lambda>_.
                 ret \<lparr>a_ret = 0\<rparr>))))"

definition rpc_server_rmdir_down :: "'s env \<Rightarrow> rpc_rmdir_request \<Rightarrow> (rpc_common_respond, 's) cprog" where
  "rpc_server_rmdir_down E request =
     leader_table E (request_ino request) \<lparr>a_ret = - ENOTLEADER\<rparr> (\<lambda>t.
       bnd (parent_of t) (\<lambda>(d, p).
       bnd (delete_child_inode d (q_target_name request)) (\<lambda>_.
       bnd (deref p) (\<lambda>parent_i.
       bnd (set_mtime_ctime E parent_i) (\<lambda>_.
       bnd (with_inode parent_i (\<lambda>n. journal_rmdir n (q_target_name request) (request_victim request))) (\<lambda>_.
       bnd (delete_dentry_table (request_victim request)) (\<lambda>_.
         ret \<lparr>a_ret = 0\<rparr>)))))))"

section \<open>Symbolic links\<close>

definition rpc_server_symlink :: "'s env \<Rightarrow> rpc_symlink_request \<Rightarrow> (rpc_common_respond, 's) cprog" where
  "rpc_server_symlink E request =
     (let dentry_table_ino = request_ino request
      in leader_table E dentry_table_ino \<lparr>a_ret = - ENOTLEADER\<rparr> (\<lambda>t.
           bnd (from_result (get_filename_from_path (q_dst request))) (\<lambda>symlink_name.
           bnd (deref t) (\<lambda>d.
           bnd (check_child_inode E d symlink_name) (\<lambda>present.
             if \<not> is_nil present then ret \<lparr>a_ret = - EEXIST\<rparr>
             else
               bnd (get_this_dir_inode d) (\<lambda>p.
               bnd (make_symlink E dentry_table_ino (S_IFLNK OR 0x1FF) (q_src request)) (\<lambda>symlink_i.
               bnd (upd_inode symlink_i (set_size (of_nat (length (q_src request))))) (\<lambda>_.
               bnd (create_child_inode d symlink_name symlink_i) (\<lambda>_.
               bnd (get_ts E) (\<lambda>_.
               bnd (deref p) (\<lambda>dst_parent_i.
               bnd (with_inodes dst_parent_i symlink_i (\<lambda>n l. journal_mkreg n symlink_name l)) (\<lambda>_.
                 ret \<lparr>a_ret = 0\<rparr>))))))))))))"

definition rpc_server_readlink :: "'s env \<Rightarrow> rpc_readlink_request \<Rightarrow> (rpc_name_respond, 's) cprog" where
  "rpc_server_readlink E request =
     leader_table E (request_ino request) \<lparr>a_filename = [], a_name_ret = - ENOTLEADER\<rparr> (\<lambda>t.
       bnd (child_of t (q_filename request)) (\<lambda>i.
       bnd (get_mode E i) (\<lambda>m.
         if \<not> S_ISLNK m then ret \<lparr>a_filename = [], a_name_ret = - EINVAL\<rparr>
         else
           bnd (gets (\<lambda>st. link_target_name (the_inode st i))) (\<lambda>n.
             case n of
               None \<Rightarrow> throw (Crash ''null link_target_name'')
             | Some name \<Rightarrow> ret \<lparr>a_filename = c_string name, a_name_ret = 0\<rparr>))))"

section \<open>Renaming\<close>

definition rpc_server_rename_same_parent :: "'s env \<Rightarrow> rpc_rename_same_parent_request \<Rightarrow> (rpc_common_respond, 's) cprog" where
  "rpc_server_rename_same_parent E request =
     bnd (from_result (get_filename_from_path (q_old_path request))) (\<lambda>old_name.
     bnd (from_result (get_filename_from_path (q_new_path request))) (\<lambda>new_name.
       leader_table E (request_ino request) \<lparr>a_ret = - ENOTLEADER\<rparr> (\<lambda>t.
         bnd (child_of t old_name) (\<lambda>target_i.
         bnd (parent_of t) (\<lambda>(d, p).
         bnd (check_child_inode E d new_name) (\<lambda>check_dst_ino.
           if q_rename_flags request = 0 then
             bnd (deref p) (\<lambda>parent_i.
             bnd (if \<not> is_nil check_dst_ino then replace_entry d parent_i new_name else ret ()) (\<lambda>_.
             bnd (delete_child_inode d old_name) (\<lambda>_.
             bnd (with_inodes parent_i target_i (\<lambda>n f. journal_rmreg n old_name f)) (\<lambda>_.
             bnd (create_child_inode d new_name target_i) (\<lambda>_.
             bnd (with_inodes parent_i target_i (\<lambda>n f. journal_mkreg n new_name f)) (\<lambda>_.
               ret \<lparr>a_ret = 0\<rparr>))))))
           else ret \<lparr>a_ret = - ENOSYS\<rparr>))))))"

definition no_rename_respond :: "int \<Rightarrow> rpc_rename_not_same_parent_src_respond" where
  "no_rename_respond r = rename_target.extend no_target \<lparr>a_rename_ret = r\<rparr>"

definition rpc_server_rename_not_same_parent_src ::
  "'s env \<Rightarrow> rpc_rename_not_same_parent_src_request \<Rightarrow> (rpc_rename_not_same_parent_src_respond, 's) cprog" where
  "rpc_server_rename_not_same_parent_src E request =
     bnd (from_result (get_filename_from_path (q_src_old_path request))) (\<lambda>old_name.
       leader_table E (request_ino request) (no_rename_respond (- ENOTLEADER)) (\<lambda>t.
         bnd (child_of t old_name) (\<lambda>target_i.
         bnd (parent_of t) (\<lambda>(d, p).
           if q_src_flags request = 0 then
             bnd (delete_child_inode d old_name) (\<lambda>_.
             bnd (deref p) (\<lambda>src_parent_i.
             bnd (with_inodes src_parent_i target_i (\<lambda>n f. journal_rmreg n old_name f)) (\<lambda>_.
             bnd (gets (\<lambda>st. the_inode st target_i)) (\<lambda>n.
             bnd (from_result (inode_to_rename_src_response n (no_rename_respond 0))) (\<lambda>response.
               ret (response\<lparr>a_rename_ret := 0\<rparr>))))))
           else ret (no_rename_respond (- ENOSYS))))))"

definition rpc_server_rename_not_same_parent_dst ::
  "'s env \<Rightarrow> rpc_rename_not_same_parent_dst_request \<Rightarrow> (rpc_common_respond, 's) cprog" where
  "rpc_server_rename_not_same_parent_dst E request =
     (let dentry_table_ino = splice_prefix_and_postfix (q_dst_ino_prefix request) (q_dst_ino_postfix request);
          check_dst_ino = splice_prefix_and_postfix (q_check_dst_ino_prefix request) (q_check_dst_ino_postfix request)
      in bnd (from_result (get_filename_from_path (q_dst_new_path request))) (\<lambda>new_name.
           leader_table E dentry_table_ino \<lparr>a_ret = - ENOTLEADER\<rparr> (\<lambda>t.
             bnd (new_iobj \<lparr>base = set_p_ino dentry_table_ino (rename_dst_request_to_inode request (inode_blank LOCAL)),
                            remote = None\<rparr>) (\<lambda>target_inode.
             bnd (parent_of t) (\<lambda>(d, p).
               if q_dst_flags request = 0 then
                 bnd (deref p) (\<lambda>dst_parent_i.
                 bnd (if \<not> is_nil check_dst_ino then replace_entry d dst_parent_i new_name else ret ()) (\<lambda>_.
                 bnd (create_child_inode d new_name target_inode) (\<lambda>_.
                 bnd (with_inodes dst_parent_i target_inode (\<lambda>n f. journal_mkreg n new_name f)) (\<lambda>_.
                   ret \<lparr>a_ret = 0\<rparr>))))
               else ret \<lparr>a_ret = - ENOSYS\<rparr>)))))"

section \<open>Files\<close>

definition rpc_server_open :: "'s env \<Rightarrow> rpc_open_opendir_request \<Rightarrow> (rpc_common_respond, 's) cprog" where
  "rpc_server_open E request =
     leader_table E (request_ino request) \<lparr>a_ret = - ENOTLEADER\<rparr> (\<lambda>t.
       bnd (child_of t (q_filename request)) (\<lambda>i.
       bnd (if q_flags request AND O_DIRECTORY \<noteq> 0 then bnd (get_mode E i) (\<lambda>m. ret (\<not> S_ISDIR m)) else ret False) (\<lambda>not_dir.
         if not_dir then ret \<lparr>a_ret = - ENOTDIR\<rparr>
         else
           bnd (if q_flags request AND O_NOFOLLOW \<noteq> 0 then bnd (get_mode E i) (\<lambda>m. ret (S_ISLNK m)) else ret False) (\<lambda>link.
             if link then ret \<lparr>a_ret = - ELOOP\<rparr>
             else
               bnd (if q_flags request AND O_TRUNC \<noteq> 0 \<and> q_flags request AND O_PATH = 0 then
                      bnd (upd_inode i (set_size 0)) (\<lambda>_. with_inode i (\<lambda>n. journal_chreg (p_ino n) n))
                    else ret ()) (\<lambda>_.
                 ret \<lparr>a_ret = 0\<rparr>)))))"

definition rpc_server_create :: "'s env \<Rightarrow> rpc_create_request \<Rightarrow> (rpc_create_respond, 's) cprog" where
  "rpc_server_create E request =
     (let dentry_table_ino = request_ino request
      in leader_table E dentry_table_ino \<lparr>a_new_ino_prefix = 0, a_new_ino_postfix = 0, a_create_ret = - ENOTLEADER\<rparr> (\<lambda>t.
           bnd (parent_of t) (\<lambda>(d, p).
           bnd (make_inode E dentry_table_ino (q_new_mode request OR S_IFREG)) (\<lambda>i.
           bnd (create_child_inode d (q_new_file_name request) i) (\<lambda>_.
           bnd (deref p) (\<lambda>parent_i.
           bnd (set_mtime_ctime E parent_i) (\<lambda>_.
           bnd (with_inodes parent_i i (\<lambda>n f. journal_mkreg n (q_new_file_name request) f)) (\<lambda>_.
           bnd (gets (\<lambda>st. ino_of st i)) (\<lambda>new_ino.
             ret \<lparr>a_new_ino_prefix = get_prefix_from_uuid new_ino, a_new_ino_postfix = get_postfix_from_uuid new_ino,
                  a_create_ret = 0\<rparr>)))))))))"

definition rpc_server_unlink :: "'s env \<Rightarrow> rpc_unlink_request \<Rightarrow> (rpc_common_respond, 's) cprog" where
  "rpc_server_unlink E request =
     leader_table E (request_ino request) \<lparr>a_ret = - ENOTLEADER\<rparr> (\<lambda>t.
       bnd (parent_of t) (\<lambda>(d, p).
       bnd (get_child_inode d (q_filename request) nil_uuid) (\<lambda>t_i.
       bnd (deref t_i) (\<lambda>target_i.
       bnd (gets (\<lambda>st. the_inode st target_i)) (\<lambda>n.
         (let nlink = i_nlink (core n) - 1
          in if nlink = 0 then
               bnd (on_sys (rados_remove (data_io E) DATA (uuid_to_string (data_io E) (i_ino (core n))))) (\<lambda>_.
               bnd (delete_child_inode d (q_filename request)) (\<lambda>_.
               bnd (deref p) (\<lambda>parent_i.
               bnd (set_mtime_ctime E parent_i) (\<lambda>_.
               bnd (with_inodes parent_i target_i (\<lambda>m f. journal_rmreg m (q_filename request) f)) (\<lambda>_.
                 ret \<lparr>a_ret = 0\<rparr>)))))
             else
               bnd (upd_inode target_i (set_nlink nlink)) (\<lambda>_.
               bnd (with_inode target_i (\<lambda>f. journal_chreg (p_ino f) f)) (\<lambda>_.
                 ret \<lparr>a_ret = 0\<rparr>))))))))"

text \<open>The leader records the new size; the caller writes the data.\<close>

definition rpc_server_write :: "'s env \<Rightarrow> rpc_write_request \<Rightarrow> (rpc_write_respond, 's) cprog" where
  "rpc_server_write E request =
     leader_table E (request_ino request) \<lparr>a_size = 0, a_offset = 0, a_write_ret = - ENOTLEADER\<rparr> (\<lambda>t.
       bnd (child_of t (q_filename request)) (\<lambda>i.
       bnd (gets (\<lambda>st. i_size (core (the_inode st i)))) (\<lambda>size_now.
         (let offset = (if q_write_flags request AND O_APPEND \<noteq> 0 then size_now else q_offset request);
              end_off = offset + q_size request
          in bnd (if size_now < end_off then
                    bnd (upd_inode i (set_size end_off)) (\<lambda>_. with_inode i (\<lambda>f. journal_chreg (p_ino f) f))
                  else ret ()) (\<lambda>_.
               ret \<lparr>a_size = q_size request, a_offset = offset, a_write_ret = 0\<rparr>)))))"

section \<open>Changes of attributes\<close>

definition rpc_server_chmod :: "'s env \<Rightarrow> rpc_chmod_request \<Rightarrow> (rpc_common_respond, 's) cprog" where
  "rpc_server_chmod E request =
     leader_table E (request_ino request) \<lparr>a_ret = - ENOTLEADER\<rparr> (\<lambda>t.
       bnd (request_inode request t) (\<lambda>i.
       bnd (get_mode E i) (\<lambda>m.
       bnd (upd_inode i (set_mode (q_mode request OR (m AND S_IFMT)))) (\<lambda>_.
       bnd (journal_attr E i) (\<lambda>_.
         ret \<lparr>a_ret = 0\<rparr>)))))"

definition rpc_server_chown :: "'s env \<Rightarrow> rpc_chown_request \<Rightarrow> (rpc_common_respond, 's) cprog" where
  "rpc_server_chown E request =
     leader_table E (request_ino request) \<lparr>a_ret = - ENOTLEADER\<rparr> (\<lambda>t.
       bnd (request_inode request t) (\<lambda>i.
       bnd (if sint (q_uid request) \<ge> 0 then upd_inode i (set_uid (q_uid request)) else ret ()) (\<lambda>_.
       bnd (if sint (q_gid request) \<ge> 0 then upd_inode i (set_gid (q_gid request)) else ret ()) (\<lambda>_.
       bnd (journal_attr E i) (\<lambda>_.
         ret \<lparr>a_ret = 0\<rparr>)))))"

definition rpc_server_utimens :: "'s env \<Rightarrow> rpc_utimens_request \<Rightarrow> (rpc_common_respond, 's) cprog" where
  "rpc_server_utimens E request =
     leader_table E (request_ino request) \<lparr>a_ret = - ENOTLEADER\<rparr> (\<lambda>t.
       bnd (request_inode request t) (\<lambda>i.
       bnd (utimens_one E i set_atime \<lparr>tv_sec = q_a_sec request, tv_nsec = q_a_nsec request\<rparr>) (\<lambda>_.
       bnd (utimens_one E i set_mtime \<lparr>tv_sec = q_m_sec request, tv_nsec = q_m_nsec request\<rparr>) (\<lambda>_.
       bnd (journal_attr E i) (\<lambda>_.
         ret \<lparr>a_ret = 0\<rparr>)))))"

text \<open>The leader records the new size; the caller truncates the data.\<close>

definition rpc_server_truncate :: "'s env \<Rightarrow> rpc_truncate_request \<Rightarrow> (rpc_common_respond, 's) cprog" where
  "rpc_server_truncate E request =
     leader_table E (request_ino request) \<lparr>a_ret = - ENOTLEADER\<rparr> (\<lambda>t.
       bnd (request_inode request t) (\<lambda>i.
       bnd (get_mode E i) (\<lambda>m.
         if S_ISDIR m then ret \<lparr>a_ret = - EISDIR\<rparr>
         else
           bnd (upd_inode i (set_size (q_truncate_offset request))) (\<lambda>_.
           bnd (journal_attr E i) (\<lambda>_.
             ret \<lparr>a_ret = 0\<rparr>)))))"

end
