(* ===== verification/Cluster.thy ===== *)
theory Cluster
  imports Rpc_Server Remote_Ops Local_Coherence Local_Data
begin

text \<open>
  Two clients: one calls the service of the other. The world of the calling client is the state of
  the serving client, so that a call runs the handler there; the pools, clocks and generators that
  both share are those of the serving client's world. A handler that throws, or does not return,
  gives the caller a status that is not \<open>OK\<close>; so does an address nobody serves.
\<close>

section \<open>The environment of the calling client\<close>

definition through :: "('w \<Rightarrow> 'a \<times> 'w) \<Rightarrow> 'w client_state \<Rightarrow> 'a \<times> 'w client_state" where
  "through f st = (case f (sys st) of (x, s') \<Rightarrow> (x, st\<lparr>sys := s'\<rparr>))"

definition through_ext :: "'w ext \<Rightarrow> 'w client_state ext" where
  "through_ext X =
     \<lparr>io_read = (\<lambda>k n off. through (io_read X k n off)), io_write = (\<lambda>k bs off. through (io_write X k bs off)),
      io_stat = (\<lambda>k. through (io_stat X k)), io_remove = (\<lambda>k. through (io_remove X k)),
      io_trunc = (\<lambda>k n. through (io_trunc X k n)), uuid_text = uuid_text X\<rparr>"

definition answer :: "('q \<Rightarrow> ('a, 'w) cprog) \<Rightarrow> 'q \<Rightarrow> 'w client_state \<Rightarrow> 'a option \<times> 'w client_state" where
  "answer handler request st =
     (case handler request st of
        None \<Rightarrow> (None, st)
      | Some (Inl e, st') \<Rightarrow> (None, st')
      | Some (Inr response, st') \<Rightarrow> (Some response, st'))"

definition at_host :: "string \<Rightarrow> ('q \<Rightarrow> ('a, 'w) cprog) \<Rightarrow> ('q, 'a, 'w client_state) remote_call" where
  "at_host host handler address request st = (if address = host then answer handler request st else (None, st))"

definition service :: "'w env \<Rightarrow> string \<Rightarrow> 'w client_state remote_ops" where
  "service E host =
     \<lparr>stub_check_child_inode = at_host host (rpc_server_check_child_inode E), stub_get_mode = at_host host (rpc_server_get_mode E),
      stub_permission_check = at_host host (rpc_server_permission_check E), stub_getattr = at_host host (rpc_server_getattr E),
      stub_access = at_host host (rpc_server_access E), stub_opendir = at_host host (rpc_server_opendir E),
      stub_readdir = (\<lambda>address request st.
        case at_host host (rpc_server_readdir E) address request st of
          (None, st') \<Rightarrow> (([], False), st') | (Some ms, st') \<Rightarrow> ((ms, True), st')),
      stub_mkdir = at_host host (rpc_server_mkdir E), stub_rmdir_top = at_host host (rpc_server_rmdir_top E),
      stub_rmdir_down = at_host host (rpc_server_rmdir_down E), stub_symlink = at_host host (rpc_server_symlink E),
      stub_readlink = at_host host (rpc_server_readlink E), stub_rename_same_parent = at_host host (rpc_server_rename_same_parent E),
      stub_rename_src = at_host host (rpc_server_rename_not_same_parent_src E),
      stub_rename_dst = at_host host (rpc_server_rename_not_same_parent_dst E), stub_open = at_host host (rpc_server_open E),
      stub_create = at_host host (rpc_server_create E), stub_unlink = at_host host (rpc_server_unlink E),
      stub_write = at_host host (rpc_server_write E), stub_chmod = at_host host (rpc_server_chmod E),
      stub_chown = at_host host (rpc_server_chown E), stub_utimens = at_host host (rpc_server_utimens E),
      stub_truncate = at_host host (rpc_server_truncate E)\<rparr>"

definition via :: "'w env \<Rightarrow> string \<Rightarrow> 'w client_state env" where
  "via E host =
     \<lparr>meta_io = through_ext (meta_io E), data_io = through_ext (data_io E), sys_clock = through (sys_clock E),
      utc_time = through (utc_time E), new_uuid = through (new_uuid E), lease_rpc = (\<lambda>request. through (lease_rpc E request)),
      peers = service E host\<rparr>"

text \<open>Selecting and updating, as rewrite rules that also apply when the world is itself a client\<close>

lemma client_sys_simps [simp]:
  "iobjs (st\<lparr>sys := s\<rparr>) = iobjs st"
  "next_iobj (st\<lparr>sys := s\<rparr>) = next_iobj st"
  "dtabs (st\<lparr>sys := s\<rparr>) = dtabs st"
  "next_dtab (st\<lparr>sys := s\<rparr>) = next_dtab st"
  "dentry_tables (st\<lparr>sys := s\<rparr>) = dentry_tables st"
  "leases (st\<lparr>sys := s\<rparr>) = leases st"
  "self_remote (st\<lparr>sys := s\<rparr>) = self_remote st"
  "fh_list (st\<lparr>sys := s\<rparr>) = fh_list st"
  "next_fh (st\<lparr>sys := s\<rparr>) = next_fh st"
  "jrnl (st\<lparr>sys := s\<rparr>) = jrnl st"
  "this_client (st\<lparr>sys := s\<rparr>) = this_client st"
  "sys (st\<lparr>sys := s\<rparr>) = s" "st\<lparr>sys := s, sys := s'\<rparr> = st\<lparr>sys := s'\<rparr>"
  "sys (st\<lparr>iobjs := x0\<rparr>) = sys st"
  "sys (st\<lparr>next_iobj := x1\<rparr>) = sys st"
  "sys (st\<lparr>dtabs := x2\<rparr>) = sys st"
  "sys (st\<lparr>next_dtab := x3\<rparr>) = sys st"
  "sys (st\<lparr>dentry_tables := x4\<rparr>) = sys st"
  "sys (st\<lparr>leases := x5\<rparr>) = sys st"
  "sys (st\<lparr>self_remote := x6\<rparr>) = sys st"
  "sys (st\<lparr>fh_list := x7\<rparr>) = sys st"
  "sys (st\<lparr>next_fh := x8\<rparr>) = sys st"
  "sys (st\<lparr>jrnl := x9\<rparr>) = sys st"
  "sys (st\<lparr>this_client := x10\<rparr>) = sys st"
  by simp_all

lemma through_eq: "f (sys st) = (x, s') \<Longrightarrow> through f st = (x, st\<lparr>sys := s'\<rparr>)"
  by (simp add: through_def)

lemma at_answers: "handler request st = Some (Inr response, st') \<Longrightarrow> at_host host handler host request st = (Some response, st')"
  by (simp add: at_host_def answer_def)

lemma call_served:
  assumes "handler request (sys st) = Some (Inr response, s')"
  shows "sys_call (at_host host handler host request) st = Some (Inr (Some response), st\<lparr>sys := s'\<rparr>)"
  using assms by (simp add: sys_call_def at_host_def answer_def)

lemma peers_via [simp]:
  "stub_getattr (peers (via E host)) = at_host host (rpc_server_getattr E)"
  "stub_create (peers (via E host)) = at_host host (rpc_server_create E)"
  "stub_unlink (peers (via E host)) = at_host host (rpc_server_unlink E)"
  "stub_write (peers (via E host)) = at_host host (rpc_server_write E)"
  "stub_rename_src (peers (via E host)) = at_host host (rpc_server_rename_not_same_parent_src E)"
  "stub_mkdir (peers (via E host)) = at_host host (rpc_server_mkdir E)"
  "stub_truncate (peers (via E host)) = at_host host (rpc_server_truncate E)"
  by (simp_all add: via_def service_def)

lemma via_text [simp]: "uuid_to_string (data_io (via E host)) u = uuid_to_string (data_io E) u"
  by (simp add: via_def through_ext_def uuid_to_string_def)

text \<open>The laws of the pool and of the clocks hold for the calling client, too.\<close>

lemma through_librados:
  assumes "librados X objs"
  shows "librados (through_ext X) (\<lambda>st. objs (sys st))"
proof (unfold_locales, goal_cases)
  case (1 st k)
  then obtain n s' where "io_stat X k (sys st) = ((- ENOENT, n), s')" "objs s' = objs (sys st)"
    using librados.stat_absent [OF assms] by blast
  then show ?case by (simp add: through_ext_def through_def)
next
  case (2 st k c)
  then obtain r s' where "io_stat X k (sys st) = ((r, length c), s')" "0 \<le> r" "objs s' = objs (sys st)"
    using librados.stat_present [OF assms] by blast
  then show ?case by (simp add: through_ext_def through_def)
next
  case (3 st k len off)
  then obtain b s' where "io_read X k len off (sys st) = ((- ENOENT, b), s')" "objs s' = objs (sys st)"
    using librados.read_absent [OF assms] by blast
  then show ?case by (simp add: through_ext_def through_def)
next
  case (4 st k c len off)
  then obtain s' where "io_read X k len off (sys st) = ((int (length (take len (drop off c))), take len (drop off c)), s')" "objs s' = objs (sys st)"
    using librados.read_present [OF assms] by blast
  then show ?case by (simp add: through_ext_def through_def)
next
  case (5 bs k off st)
  then obtain r s' where "io_write X k bs off (sys st) = (r, s')" "0 \<le> r"
    "objs s' = (objs (sys st))(k \<mapsto> overlay (obj_or_empty (objs (sys st)) k) off bs)"
    using librados.write_ok [OF assms] by blast
  then show ?case by (simp add: through_ext_def through_def)
next
  case (6 st k)
  then obtain s' where "io_remove X k (sys st) = (- ENOENT, s')" "objs s' = objs (sys st)"
    using librados.remove_absent [OF assms] by blast
  then show ?case by (simp add: through_ext_def through_def)
next
  case (7 st k c)
  then obtain r s' where "io_remove X k (sys st) = (r, s')" "0 \<le> r" "objs s' = (objs (sys st))(k := None)"
    using librados.remove_present [OF assms] by blast
  then show ?case by (simp add: through_ext_def through_def)
next
  case (8 st k c n)
  then show ?case using librados.trunc_present [OF assms, of "sys st" k c n] by (auto simp: through_ext_def through_def)
qed

lemma via_env:
  assumes "client_env E dobjs"
  shows "client_env (via E host) (\<lambda>st. dobjs (sys st))"
proof -
  have lib: "librados (data_io E) dobjs" and keeps: "client_env_axioms E dobjs"
    using assms by (simp_all add: client_env_def)
  have "client_env_axioms (via E host) (\<lambda>st. dobjs (sys st))"
    using keeps by (auto simp: client_env_axioms_def via_def through_def split: prod.split) (metis snd_conv)+
  moreover have "librados (data_io (via E host)) (\<lambda>st. dobjs (sys st))"
    using through_librados [OF lib] by (simp add: via_def)
  ultimately show ?thesis by (simp add: client_env_def)
qed

section \<open>The leader's side\<close>

text \<open>This client leads the directory \<open>p\<close>, with table \<open>d\<close>.\<close>

definition leads :: "'s env \<Rightarrow> 's client_state \<Rightarrow> nat \<Rightarrow> nat \<Rightarrow> bool" where
  "leads E st p d \<longleftrightarrow> leased E st (ino_of st p) d \<and> this_dir_inode (dtabs st d) = Some p"

lemma leader_table_leased:
  "leased E st ino d \<Longrightarrow> leader_table E ino nl body st = body (Some d) (st\<lparr>sys := snd (sys_clock E (sys st))\<rparr>)"
  by (cases "sys_clock E (sys st)")
    (simp add: leader_table_def leased_def get_dentry_table_def lc_is_valid_def sys_call_def bnd_def gets_def ret_def)

lemma get_dentry_table_refuses:
  assumes "\<nexists>d. leased E st ino d"
  obtains s' where "get_dentry_table E ino True st = Some (Inl Not_leader, st\<lparr>dentry_tables := rm_erase ino (dentry_tables st), sys := s'\<rparr>)"
proof (cases "rm_find (dentry_tables st) ino")
  case None
  then have "rm_erase ino (dentry_tables st) = dentry_tables st" by (simp add: delete_id map_of_eq_None_iff)
  then show thesis using None by (intro that [of "sys st"]) (simp add: get_dentry_table_def)
next
  case (Some d)
  then show thesis
    using assms by (intro that [of "snd (sys_clock E (sys st))"])
      (auto simp: leased_def get_dentry_table_def lc_is_valid_def sys_call_def bnd_def gets_def throw_def modify_def split: prod.splits)
qed

lemma leader_table_refused:
  "get_dentry_table E ino True st = Some (Inl Not_leader, st') \<Longrightarrow> leader_table E ino nl body st = Some (Inr nl, st')"
  by (simp add: leader_table_def)

lemma request_ino_make [simp]:
  "is_uuid ino \<Longrightarrow> request_ino (make_dir_request ino) = ino"
  "is_uuid ino \<Longrightarrow> request_ino (make_file_request ino name) = ino"
  "is_uuid ino \<Longrightarrow> request_ino (make_target_request ino name b) = ino"
  "request_ino (dir_request.extend (make_dir_request ino) x) = request_ino (make_dir_request ino)"
  "request_ino (file_request.extend (make_file_request ino name) y) = request_ino (make_dir_request ino)"
  "request_ino (target_request.extend (make_target_request ino name b) z) = request_ino (make_dir_request ino)"
  by (simp_all add: request_ino_def make_dir_request_def make_file_request_def make_target_request_def
      dir_request.defs file_request.defs target_request.defs splice_prefix_postfix)

section \<open>Writes of the calling client\<close>

text \<open>A write changes the shared pool and nothing else of the serving client.\<close>

lemma through_selects [simp]:
  "io_stat (through_ext X) k = through (io_stat X k)" "io_write (through_ext X) k bs off = through (io_write X k bs off)"
  by (simp_all add: through_ext_def)

lemma write_obj_through: "write_obj (through_ext X) k bs off st = through (write_obj X k bs off) st"
  by (simp add: write_obj_def through_def split: prod.split)

lemma lb_scan_through: "lb_scan (through_ext X) pk msg n st = through (lb_scan X pk msg n) st"
proof (induction n arbitrary: st)
  case 0
  show ?case by (simp add: lb_scan.simps [of _ _ _ 0] through_def split: prod.split)
next
  case (Suc n)
  show ?case by (subst (1 2) lb_scan.simps) (simp add: Suc through_def split: prod.split)
qed

lemma zerofill_loop_through: "zerofill_loop (through_ext X) pk c stop zs st = through (zerofill_loop X pk c stop zs) st"
proof (induction "stop - c" arbitrary: c st rule: less_induct)
  case less
  show ?case
  proof (cases "c < stop")
    case True
    then have "stop - next_bound c < stop - c" by (simp add: diff_less_mono2 next_bound_greater)
    then show ?thesis
      by (simp add: through_def zerofill_loop.simps [of _ _ c] less write_obj_through split: prod.split sum.split)
  qed (simp add: zerofill_loop.simps through_def)
qed

lemma write_loop_through: "write_loop (through_ext X) pk c stop bs acc st = through (write_loop X pk c stop bs acc) st"
proof (induction "stop - c" arbitrary: c bs acc st rule: less_induct)
  case less
  show ?case
  proof (cases "c < stop")
    case True
    then have "stop - next_bound c < stop - c" by (simp add: diff_less_mono2 next_bound_greater)
    then show ?thesis
      by (simp add: through_def write_loop.simps [of _ _ c] less write_obj_through Let_def split: prod.split sum.split)
  qed (simp add: write_loop.simps through_def)
qed

lemma rados_write_through: "rados_write (through_ext X) a k bs off st = through (rados_write X a k bs off) st"
  by (simp add: rados_write_def zerofill_def lb_scan_through zerofill_loop_through write_loop_through through_def Let_def
      split: prod.split sum.split)

end
