(* ===== verification/Remote_Spec.thy ===== *)
theory Remote_Spec
  imports Cluster
begin

text \<open>
  What a remote operation does, end to end: the caller's program, the message, the handler in the
  leader and the answer. The leader's directory stays coherent as under the local operations, and
  the caller sees what the leader would see.
\<close>

lemmas request_defs = make_dir_request_def make_file_request_def make_target_request_def inode_request_def target_of_def file_of_def dir_of_def
  dir_request.defs file_request.defs target_request.defs

text \<open>The calling client has a remote inode for a target in the directory \<open>p\<close> of the client at \<open>host\<close>.\<close>

definition points_to :: "'w client_state client_state \<Rightarrow> nat \<Rightarrow> remote_fields \<Rightarrow> string \<Rightarrow> nat \<Rightarrow> bool" where
  "points_to A i r host p \<longleftrightarrow> remote (iobjs A i) = Some r \<and> r_leader_ip r = host \<and> r_dentry_table_ino r = ino_of (sys A) p"

text \<open>The inode the leader finds for it\<close>

definition target_at :: "'w client_state \<Rightarrow> nat \<Rightarrow> nat \<Rightarrow> remote_fields \<Rightarrow> nat option" where
  "target_at B p d r = (if r_target_is_parent r then Some p else rm_find (child_inodes (dtabs B d)) (r_file_name r))"

lemma remote_cast_points: "points_to A i r host p \<Longrightarrow> bnd (remote_cast i) f A = f r A"
  by (simp add: points_to_def remote_cast_def bnd_def gets_def ret_def)

lemma set_loc_p_ino: "p_ino (set_loc l i) = p_ino i"
  by (simp add: set_loc_def)

lemma bnd_new_iobj:
  "bnd (new_iobj x) f st = f (next_iobj st) (st\<lparr>iobjs := (iobjs st)(next_iobj st := x), next_iobj := Suc (next_iobj st)\<rparr>)"
  by (simp add: bnd_def new_iobj_def)

text \<open>A call that the leader answers\<close>

lemma remote_call_step:
  assumes "points_to A i r host p" and "handler q (sys A) = Some (Inr out, B')"
  shows "bnd (sys_call (at_host host handler (r_leader_ip r) q)) f A = f (Some out) (A\<lparr>sys := B'\<rparr>)"
  using assms call_served [of handler q A out B' host] by (simp add: points_to_def bnd_def)

lemma tab_uuid: "tab_ok st p d \<Longrightarrow> is_uuid (ino_of st p)"
  by (simp add: tab_ok_def wf_inode_def)

lemma tab_local: "tab_ok st p d \<Longrightarrow> dt_loc (dtabs st d) = LOCAL"
  by (simp add: tab_ok_def dtable_ok_def)

lemma parent_of_local:
  "dt_loc (dtabs st d) = LOCAL \<Longrightarrow> this_dir_inode (dtabs st d) = Some p \<Longrightarrow> parent_of (Some d) st = Some (Inr (d, Some p), st)"
  by (simp add: parent_of_def deref_def get_this_dir_inode_def bnd_def ret_def)

lemma child_of_local:
  assumes "tab_ok st p d" and "rm_find (child_inodes (dtabs st d)) name = Some a"
  obtains st' where "child_of (Some d) name st = Some (Inr a, st')" and "touched a st st'"
    and "the_inode st' a = set_loc LOCAL (the_inode st a)" and "sys st' = sys st" and "remote (iobjs st' a) = remote (iobjs st a)"
proof -
  let ?st = "st\<lparr>iobjs := (iobjs st)(a := (iobjs st a)\<lparr>base := set_loc LOCAL (the_inode st a)\<rparr>)\<rparr>"
  have ok: "dtable_ok st d" using assms(1) by (simp add: tab_ok_def)
  have "child_of (Some d) name st = Some (Inr a, ?st)"
    using get_child_inode_local [OF ok, of name nil_uuid] assms(2) by (simp add: child_of_def bnd_def deref_def ret_def)
  moreover have "touched a st ?st"
    unfolding touched_def by (intro exI [of _ "set_loc LOCAL (the_inode st a)"] exI [of _ "sys st"]) simp
  ultimately show thesis by (rule that) simp_all
qed

section \<open>Attributes\<close>

lemma request_target_local:
  assumes tab: "tab_ok st p d" and p: "this_dir_inode (dtabs st d) = Some p"
  shows "case if q_target_is_parent q then Some p else rm_find (child_inodes (dtabs st d)) (q_filename q) of
      None \<Rightarrow> request_target q (Some d) st = Some (Inl No_entry, st)
    | Some a \<Rightarrow> \<exists>st'. request_target q (Some d) st = Some (Inr (Some a), st') \<and> touched a st st' \<and>
        core (the_inode st' a) = core (the_inode st a) \<and> remote (iobjs st' a) = remote (iobjs st a)"
proof (cases "q_target_is_parent q")
  case True
  then show ?thesis
    using tab_local [OF tab] p touched_sys [of p st "sys st"]
    by (auto simp: request_target_def deref_def get_this_dir_inode_def)
next
  case False
  have ok: "dtable_ok st d" using tab by (simp add: tab_ok_def)
  show ?thesis
  proof (cases "rm_find (child_inodes (dtabs st d)) (q_filename q)")
    case None
    with False get_child_inode_local [OF ok, of "q_filename q" nil_uuid] show ?thesis by (simp add: request_target_def)
  next
    case (Some a)
    let ?st = "st\<lparr>iobjs := (iobjs st)(a := (iobjs st a)\<lparr>base := set_loc LOCAL (the_inode st a)\<rparr>)\<rparr>"
    have "touched a st ?st"
      unfolding touched_def by (intro exI [of _ "set_loc LOCAL (the_inode st a)"] exI [of _ "sys st"]) simp
    with False Some get_child_inode_local [OF ok, of "q_filename q" nil_uuid] show ?thesis
      by (auto simp: request_target_def set_loc_def)
  qed
qed

lemma remote_getattr_ok:
  assumes lead: "leads E (sys A) p d" and tab: "tab_ok (sys A) p d" and pt: "points_to A i r host p"
    and own: "\<And>a. target_at (sys A) p d r = Some a \<Longrightarrow> remote (iobjs (sys A) a) = None"
  shows "\<exists>B'. remote_getattr (via E host) i s A =
    Some (case target_at (sys A) p d r of None \<Rightarrow> Inl No_entry | Some a \<Rightarrow> Inr (0, fill_stat (the_inode (sys A) a) s), A\<lparr>sys := B'\<rparr>)"
proof -
  let ?B = "sys A" and ?q = "target_of r"
  let ?Bc = "?B\<lparr>sys := snd (sys_clock E (sys ?B))\<rparr>"
  have ino: "request_ino ?q = ino_of ?B p" using pt tab_uuid [OF tab] by (simp add: points_to_def target_of_def)
  have lease: "leased E ?B (request_ino ?q) d" and p: "this_dir_inode (dtabs ?B d) = Some p" using lead ino by (simp_all add: leads_def)
  note table = leader_table_leased [OF lease]
  have tab0: "tab_ok ?Bc p d" by (rule touched_tab [OF touched_sys tab])
  have q: "(if q_target_is_parent ?q then Some p else rm_find (child_inodes (dtabs ?Bc d)) (q_filename ?q)) = target_at ?B p d r"
    by (simp add: target_at_def request_defs)
  note run = remote_getattr_def remote_cast_points [OF pt] rpc_client_getattr_def
  show ?thesis
  proof (cases "target_at ?B p d r")
    case None
    with request_target_local [OF tab0, of ?q] p q have "request_target ?q (Some d) ?Bc = Some (Inl No_entry, ?Bc)" by simp
    then have "rpc_server_getattr E ?q ?B = Some (Inr (no_attributes\<lparr>a_getattr_ret := - EACCES\<rparr>), ?Bc)"
      by (simp add: rpc_server_getattr_def table bnd_def catch_def ret_def)
    note step = remote_call_step [OF pt, where handler = "rpc_server_getattr E", OF this]
    from None show ?thesis by (auto simp: run step throw_def EACCES_def ENOTLEADER_def)
  next
    case (Some a)
    with request_target_local [OF tab0, of ?q] p q obtain B1 where B1: "request_target ?q (Some d) ?Bc = Some (Inr (Some a), B1)"
      "core (the_inode B1 a) = core (the_inode ?Bc a)" "remote (iobjs B1 a) = remote (iobjs ?Bc a)" by auto
    let ?c = "core (the_inode ?B a)"
    have "rpc_server_getattr E ?q ?B = Some (Inr
        \<lparr>a_mode = i_mode ?c, a_uid = i_uid ?c, a_gid = i_gid ?c, a_ino_prefix = get_prefix_from_uuid (i_ino ?c),
         a_ino_postfix = get_postfix_from_uuid (i_ino ?c), a_nlink = i_nlink ?c, a_i_size = i_size ?c,
         a_a_sec = tv_sec (i_atime ?c), a_a_nsec = tv_nsec (i_atime ?c), a_m_sec = tv_sec (i_mtime ?c),
         a_m_nsec = tv_nsec (i_mtime ?c), a_c_sec = tv_sec (i_ctime ?c), a_c_nsec = tv_nsec (i_ctime ?c), a_getattr_ret = 0\<rparr>, B1)"
      using own [OF Some] B1 by (simp add: rpc_server_getattr_def table bnd_def catch_def ret_def deref_def get_mode_def gets_def)
    note step = remote_call_step [OF pt, where handler = "rpc_server_getattr E", OF this]
    from Some show ?thesis by (auto simp: run step ret_def EACCES_def ENOTLEADER_def fill_stat_def Let_def)
  qed
qed

section \<open>Creation\<close>

lemma open_remote_handle_ok:
  assumes "fh_fresh st"
  obtains fh st' where "open_remote_handle ino a st = Some (Inr (next_fh st), st')" and "rm_find (fh_list st') (next_fh st) = Some fh"
    and "get_open_inode_info fh = Inr (Some a)" and "fh_fresh st'" and "st' = st\<lparr>next_fh := Suc (next_fh st), fh_list := fh_list st'\<rparr>"
proof -
  let ?k = "next_fh st" and ?fh = "(file_handler_new ino)\<lparr>fh_loc := REMOTE, fh_remote_i := Some a, fh_no := next_fh st\<rparr>"
  let ?st = "st\<lparr>next_fh := Suc ?k, fh_list := fh_list st @ [(?k, ?fh)]\<rparr>"
  have none: "rm_find (fh_list st) ?k = None" using assms by (auto simp: fh_fresh_def map_of_eq_None_iff)
  have "open_remote_handle ino a st = Some (Inr ?k, ?st)"
    using none by (simp add: open_remote_handle_def add_file_handler_def rm_simps bnd_def ret_def Let_def)
  moreover have "fh_fresh ?st" using assms by (auto simp: fh_fresh_def)
  ultimately show thesis
    by (intro that [of ?st ?fh]) (use none in \<open>simp_all add: map_add_def get_open_inode_info_def file_handler_new_def\<close>)
qed

text \<open>The leader's part: the entry is in its table and its journal.\<close>

lemma server_create_ok:
  assumes lead: "leads E B p d" and dir: "dir_ok v B p d" and q: "request_ino q = ino_of B p"
    and name: "name_ok (q_new_file_name q)" "dir_children B d (q_new_file_name q) = None"
    and mode: "\<not> S_ISLNK (q_new_mode q OR S_IFREG)" and u: "u = drawn_ino E (snd (sys_clock E (sys B)))" and fresh: "fresh_ino B p d u"
  obtains B' i where "rpc_server_create E q B =
      Some (Inr \<lparr>a_new_ino_prefix = get_prefix_from_uuid u, a_new_ino_postfix = get_postfix_from_uuid u, a_create_ret = 0\<rparr>, B')"
    and "dir_ok v B' p d" and "dir_children B' d = (dir_children B d)(q_new_file_name q \<mapsto> u)"
    and "rm_find (child_inodes (dtabs B' d)) (q_new_file_name q) = Some i" and "i_mode (core (the_inode B' i)) = q_new_mode q OR S_IFREG"
proof -
  let ?B = "B\<lparr>sys := snd (sys_clock E (sys B))\<rparr>" and ?i = "next_iobj B"
  have lease: "leased E B (ino_of B p) d" and p: "this_dir_inode (dtabs B d) = Some p" using lead by (simp_all add: leads_def)
  have dir0: "dir_ok v ?B p d" by (rule touched_dir [OF touched_sys dir])
  have local: "dt_loc (dtabs ?B d) = LOCAL" using dir tab_local [of B p d] by (simp add: dir_ok_def)
  obtain B1 B2 B3 B4 where m: "make_inode E (ino_of ?B p) (q_new_mode q OR S_IFREG) ?B = Some (Inr ?i, B1)"
    "create_child_inode d (q_new_file_name q) ?i B1 = Some (Inr 0, B2)" "set_mtime_ctime E p B2 = Some (Inr (), B3)"
    "with_inodes p ?i (\<lambda>i f. journal_mkreg i (q_new_file_name q) f) B3 = Some (Inr (), B4)" "dir_ok v B4 p d"
    "dir_children B4 d = (dir_children B d)(q_new_file_name q \<mapsto> u)"
    "rm_find (child_inodes (dtabs B4 d)) (q_new_file_name q) = Some ?i" "ino_of B4 ?i = u"
    "i_mode (core (the_inode B4 ?i)) = q_new_mode q OR S_IFREG"
    by (rule create_logged [OF dir0 name(1) _ mode, of E]) (use name(2) fresh u in \<open>simp_all add: fresh_ino_def\<close>)
  have "parent_of (Some d) ?B = Some (Inr (d, Some p), ?B)" by (rule parent_of_local) (use local p in simp_all)
  then have "rpc_server_create E q B = Some (Inr \<lparr>a_new_ino_prefix = get_prefix_from_uuid u, a_new_ino_postfix = get_postfix_from_uuid u,
      a_create_ret = 0\<rparr>, B4)"
    using m(1) q by (simp add: rpc_server_create_def Let_def leader_table_leased [OF lease] bnd_def m(2-4,8) deref_def ret_def gets_def)
  then show thesis using m(5-7,9) by (rule that)
qed

text \<open>End to end: the caller also gets a handle whose inode refers to the new file at the leader.\<close>

lemma remote_create_ok:
  assumes lead: "leads E (sys A) p d" and dir: "dir_ok v (sys A) p d" and pt: "points_to A i r host p" and fh: "fh_fresh A"
    and name: "name_ok name" "dir_children (sys A) d name = None" and mode: "\<not> S_ISLNK (mode OR S_IFREG)"
    and u: "u = drawn_ino E (snd (sys_clock E (sys (sys A))))" and fresh: "fresh_ino (sys A) p d u"
  obtains A' h a c where "remote_create (via E host) i name mode fi A = Some (Inr (0, fi\<lparr>fi_fh := next_fh A\<rparr>), A')"
    and "dir_ok v (sys A') p d" and "dir_children (sys A') d = (dir_children (sys A) d)(name \<mapsto> u)"
    and "rm_find (child_inodes (dtabs (sys A') d)) name = Some c" and "i_mode (core (the_inode (sys A') c)) = mode OR S_IFREG"
    and "rm_find (fh_list A') (next_fh A) = Some h" and "get_open_inode_info h = Inr (Some a)" and "ino_of A' a = u"
    and "remote (iobjs A' a) = Some \<lparr>r_leader_ip = host, r_dentry_table_ino = r_dentry_table_ino r, r_target_is_parent = False, r_file_name = name\<rparr>"
proof -
  let ?q = "dir_request.extend (dir_of r) \<lparr>q_new_file_name = name, q_new_mode = mode\<rparr>"
  have uuid: "is_uuid (ino_of (sys A) p)" using dir tab_uuid [of "sys A" p d] by (simp add: dir_ok_def)
  have q: "request_ino ?q = ino_of (sys A) p" "q_new_file_name ?q = name" "q_new_mode ?q = mode"
    using pt uuid by (simp_all add: points_to_def dir_of_def) (simp_all add: request_defs)
  obtain B' c where B': "rpc_server_create E ?q (sys A) = Some (Inr \<lparr>a_new_ino_prefix = get_prefix_from_uuid u,
      a_new_ino_postfix = get_postfix_from_uuid u, a_create_ret = 0\<rparr>, B')"
    "dir_ok v B' p d" "dir_children B' d = (dir_children (sys A) d)(name \<mapsto> u)"
    "rm_find (child_inodes (dtabs B' d)) name = Some c" "i_mode (core (the_inode B' c)) = mode OR S_IFREG"
    using server_create_ok [OF lead dir q(1), unfolded q(2,3), OF name mode u fresh] by blast
  note step = remote_call_step [OF pt, where handler = "rpc_server_create E", OF B'(1)]
  have uu: "splice_prefix_and_postfix (get_prefix_from_uuid u) (get_postfix_from_uuid u) = u"
    using fresh by (simp add: splice_prefix_postfix fresh_ino_def ino_ok_def)
  let ?ri = "remote_inode_new (r_leader_ip r) (r_dentry_table_ino r) name False"
  let ?A = "A\<lparr>sys := B', iobjs := (iobjs A)(next_iobj A := ?ri\<lparr>base := set_ino u (base ?ri)\<rparr>), next_iobj := Suc (next_iobj A)\<rparr>"
  have "fh_fresh ?A" using fh by (simp add: fh_fresh_def)
  then obtain h A' where A': "open_remote_handle u (next_iobj A) ?A = Some (Inr (next_fh ?A), A')" "rm_find (fh_list A') (next_fh ?A) = Some h"
    "get_open_inode_info h = Inr (Some (next_iobj A))" "A' = ?A\<lparr>next_fh := Suc (next_fh ?A), fh_list := fh_list A'\<rparr>"
    by (rule open_remote_handle_ok)
  have rest: "sys A' = B'" by (subst A'(4), simp)
  have new: "iobjs A' (next_iobj A) = ?ri\<lparr>base := set_ino u (base ?ri)\<rparr>" by (subst A'(4), simp)
  have "remote_create (via E host) i name mode fi A = Some (Inr (0, fi\<lparr>fi_fh := next_fh A\<rparr>), A')"
    by (simp add: remote_create_def remote_cast_points [OF pt] rpc_client_create_def step Let_def uu bnd_new_iobj bnd_Some_Inr [where m = "open_remote_handle u (next_iobj A)", OF A'(1)] ret_def)
  then show thesis
    using B'(2-5) A'(2,3) pt by (intro that [of A' c h "next_iobj A"]) (simp_all add: rest new remote_inode_new_def set_ino_def points_to_def)
qed

section \<open>Writing\<close>

text \<open>The leader's part: the size, in memory and in the journal. The answer has the offset of the write.\<close>

lemma server_write_ok:
  assumes keeps: "\<And>s. dobjs (snd (sys_clock E s)) = dobjs s" and lead: "leads E B p d" and tab: "tab_ok B p d"
    and q: "request_ino q = ino_of B p" and a: "rm_find (child_inodes (dtabs B d)) (q_filename q) = Some a"
    and fh: "file_here B a" and size: "unat (i_size (core (the_inode B a))) = n"
    and off: "off = (if q_write_flags q AND O_APPEND \<noteq> 0 then n else unat (q_offset q))" and fit: "off + unat (q_size q) < 2 ^ 64"
  obtains B' w where "rpc_server_write E q B = Some (Inr \<lparr>a_size = q_size q, a_offset = w, a_write_ret = 0\<rparr>, B')" and "unat w = off"
    and "unat (i_size (core (the_inode B' a))) = max n (off + unat (q_size q))" and "ino_of B' a = ino_of B a"
    and "dobjs (sys B') = dobjs (sys B)" and "n < off + unat (q_size q) \<Longrightarrow> logged B' a"
    and "\<forall>ino v. tx_view (open_tx (jrnl B') ino) v = tx_view (open_tx (jrnl B) ino) v"
proof -
  let ?Bc = "B\<lparr>sys := snd (sys_clock E (sys B))\<rparr>"
  have lease: "leased E B (ino_of B p) d" using lead by (simp add: leads_def)
  have tabc: "tab_ok ?Bc p d" by (rule touched_tab [OF touched_sys tab])
  obtain C where C: "child_of (Some d) (q_filename q) ?Bc = Some (Inr a, C)" "touched a ?Bc C"
    "the_inode C a = set_loc LOCAL (the_inode ?Bc a)" "sys C = sys ?Bc" "remote (iobjs C a) = remote (iobjs ?Bc a)"
    by (rule child_of_local [OF tabc, of "q_filename q" a]) (use a in simp_all)
  have fhc: "file_here C a"
    using fh C(3,5) touched_rest(2) [OF C(2)] by (simp add: file_here_def set_loc_p_ino)
  have szc: "i_size (core (the_inode C a)) = i_size (core (the_inode B a))" "ino_of C a = ino_of B a" using C(3) by (simp_all add: set_loc_def)
  have dob: "dobjs (sys C) = dobjs (sys B)" by (simp add: C(4) keeps)
  define w where "w = (if q_write_flags q AND O_APPEND \<noteq> 0 then i_size (core (the_inode B a)) else q_offset q)"
  let ?stop = "w + q_size q"
  have w: "unat w = off" using size off by (simp add: w_def)
  have stop: "unat ?stop = off + unat (q_size q)" using w fit by (subst unat_add_lem [THEN iffD1]) simp_all
  have less: "i_size (core (the_inode B a)) < ?stop \<longleftrightarrow> n < off + unat (q_size q)" using stop size by (simp only: word_less_nat_alt)
  have run: "rpc_server_write E q B =
      bnd (if i_size (core (the_inode B a)) < ?stop then
             bnd (upd_inode a (set_size ?stop)) (\<lambda>_. with_inode a (\<lambda>f. journal_chreg (p_ino f) f))
           else ret ()) (\<lambda>_. ret \<lparr>a_size = q_size q, a_offset = w, a_write_ret = 0\<rparr>) C"
    unfolding rpc_server_write_def q leader_table_leased [OF lease] bnd_Some_Inr [where m = "child_of (Some d) (q_filename q)", OF C(1)]
      bnd_gets szc(1) Let_def w_def ..
  show thesis
  proof (cases "n < off + unat (q_size q)")
    case False
    with less have "rpc_server_write E q B = Some (Inr \<lparr>a_size = q_size q, a_offset = w, a_write_ret = 0\<rparr>, C)" by (simp add: run ret_def)
    then show thesis using False w size szc dob touched_rest(2) [OF C(2)] by (intro that [of w C]) simp_all
  next
    case True
    let ?D = "C\<lparr>iobjs := (iobjs C)(a := (iobjs C a)\<lparr>base := set_size ?stop (the_inode C a)\<rparr>)\<rparr>"
    have "file_here ?D a" using fhc by (simp add: file_here_def)
    then obtain j' where j': "with_inode a (\<lambda>n. journal_chreg (p_ino n) n) ?D = Some (Inr (), ?D\<lparr>jrnl := j'\<rparr>)"
      "logged (?D\<lparr>jrnl := j'\<rparr>) a" "\<forall>ino v. tx_view (open_tx j' ino) v = tx_view (open_tx (jrnl ?D) ino) v"
      by (rule log_chreg)
    have "rpc_server_write E q B = Some (Inr \<lparr>a_size = q_size q, a_offset = w, a_write_ret = 0\<rparr>, ?D\<lparr>jrnl := j'\<rparr>)"
      using True less j'(1) by (simp add: run upd_size bnd_def ret_def)
    then show thesis
      using True w stop szc dob j'(2,3) touched_rest(2) [OF C(2)] by (intro that [of w "?D\<lparr>jrnl := j'\<rparr>"]) simp_all
  qed
qed

text \<open>End to end: after the leader's part the caller writes the data into the shared pool.\<close>

lemma remote_write_ok:
  assumes env: "client_env E dobjs" and lead: "leads E (sys A) p d" and tab: "tab_ok (sys A) p d" and pt: "points_to A i r host p"
    and a: "rm_find (child_inodes (dtabs (sys A) d)) (r_file_name r) = Some a" and same: "ino_of A i = ino_of (sys A) a"
    and fh: "file_here (sys A) a" and sz: "size_ok E dobjs (sys A) a c" and ne: "buffer \<noteq> []"
    and off: "off = (if flags AND O_APPEND \<noteq> 0 then length c else unat offset)" and fit: "off + length buffer < 2 ^ 64"
  obtains A' where "remote_write (via E host) i buffer offset flags A = Some (Inr (int (length buffer)), A')"
    and "size_ok E dobjs (sys A') a (overlay c off buffer)" and "length c < off + length buffer \<Longrightarrow> logged (sys A') a"
    and "\<forall>ino v. tx_view (open_tx (jrnl (sys A')) ino) v = tx_view (open_tx (jrnl (sys A)) ino) v"
proof -
  let ?q = "file_request.extend (file_of r) \<lparr>q_size = of_nat (length buffer), q_offset = offset, q_write_flags = flags\<rparr>"
  let ?k = "uuid_to_string (data_io E) (ino_of (sys A) a)"
  have q: "request_ino ?q = ino_of (sys A) p"
    using pt tab_uuid [OF tab] by (simp add: points_to_def file_of_def)
  have qf: "q_filename ?q = r_file_name r" "q_size ?q = of_nat (length buffer)" "q_offset ?q = offset" "q_write_flags ?q = flags"
    by (simp_all add: request_defs)
  have len: "unat (of_nat (length buffer) :: 64 word) = length buffer" using fit by (simp add: unat_of_nat)
  have size: "unat (i_size (core (the_inode (sys A) a))) = length c" and data: "rados_file dobjs (sys (sys A)) DATA ?k c"
    using sz by (simp_all add: size_ok_def)
  have keeps: "\<And>s. dobjs (snd (sys_clock E s)) = dobjs s" by (rule client_env.clock_keeps [OF env])
  obtain B' w where B': "rpc_server_write E ?q (sys A) = Some (Inr \<lparr>a_size = of_nat (length buffer), a_offset = w, a_write_ret = 0\<rparr>, B')"
    "unat w = off" "unat (i_size (core (the_inode B' a))) = max (length c) (off + length buffer)" "ino_of B' a = ino_of (sys A) a"
    "dobjs (sys B') = dobjs (sys (sys A))" "length c < off + length buffer \<Longrightarrow> logged B' a"
    "\<forall>ino v. tx_view (open_tx (jrnl B') ino) v = tx_view (open_tx (jrnl (sys A)) ino) v"
    using server_write_ok [where dobjs = dobjs and q = ?q, OF keeps lead tab q, unfolded qf len, OF a fh size off fit] by blast
  note step = remote_call_step [OF pt, where handler = "rpc_server_write E", OF B'(1)]
  have "rados_file dobjs (sys B') DATA ?k c" using data B'(5) by (simp add: rados_file_def)
  then obtain s1 where s1: "rados_write (data_io E) DATA ?k buffer off (sys B') = (Inr (length buffer), s1)"
    "rados_file dobjs s1 DATA ?k (overlay c off buffer)"
    using librados.pool_write [OF client_env.axioms(1) [OF env] _ ne] by metis
  have w: "on_sys (lift (rados_write (data_io (via E host)) DATA ?k buffer off)) (A\<lparr>sys := B'\<rparr>)
      = Some (Inr (length buffer), A\<lparr>sys := B'\<lparr>sys := s1\<rparr>\<rparr>)"
    using s1(1) by (simp add: on_sys_def zoom_def lift_def via_def rados_write_through through_def)
  have "remote_write (via E host) i buffer offset flags A = Some (Inr (int (length buffer)), A\<lparr>sys := B'\<lparr>sys := s1\<rparr>\<rparr>)"
    using same by (simp add: remote_write_def remote_cast_points [OF pt] rpc_client_write_def step len B'(2) bnd_Some_Inr [where m = "on_sys (lift (rados_write (data_io (via E host)) DATA ?k buffer off))", OF w] ret_def)
  moreover have "length (overlay c off buffer) = max (length c) (off + length buffer)" by (simp add: length_overlay)
  ultimately show thesis
    using s1(2) B'(3,4,6,7) by (intro that [of "A\<lparr>sys := B'\<lparr>sys := s1\<rparr>\<rparr>"]) (simp_all add: size_ok_def logged_def)
qed

section \<open>Two clients in memory\<close>

text \<open>The client at \<open>B\<close> leads the root directory with the file \<open>f\<close>; the calling client has a remote inode for
  this file, and leads an empty directory of its own.\<close>

abbreviation own_ino :: uuid where "own_ino \<equiv> replicate 16 CHR ''d''"

definition own_dir :: inode where
  "own_dir = inode_new_dir \<lparr>tv_sec = 1, tv_nsec = 2\<rparr> get_root_ino 0 0 S_IFDIR own_ino"

definition own_table :: dentry_table where
  "own_table =
     \<lparr>dir_ino = own_ino, this_dir_inode = Some 0, dt_dentries = Some \<lparr>this_ino = own_ino, child_list = []\<rparr>,
      child_inodes = [], dt_loc = LOCAL, leader_ip = []\<rparr>"

definition root_table :: dentry_table where
  "root_table =
     \<lparr>dir_ino = get_root_ino, this_dir_inode = None, dt_dentries = None, child_inodes = [], dt_loc = REMOTE, leader_ip = ''B''\<rparr>"

definition root_file :: remote_fields where
  "root_file = \<lparr>r_leader_ip = ''B'', r_dentry_table_ino = get_root_ino, r_target_is_parent = False, r_file_name = ''f''\<rparr>"

definition sample_caller :: "(string \<rightharpoonup> bytes) client_state client_state" where
  "sample_caller =
     \<lparr>iobjs = (\<lambda>_. \<lparr>base = own_dir, remote = None\<rparr>)
        (1 := \<lparr>base = set_ino (replicate 16 CHR ''u'') (inode_blank REMOTE), remote = Some root_file\<rparr>), next_iobj = 2,
      dtabs = (\<lambda>_. own_table)(1 := root_table), next_dtab = 2, dentry_tables = [(own_ino, 0), (get_root_ino, 1)],
      leases = [(own_ino, \<lparr>c_due = 1, leader = True\<rparr>), (get_root_ino, \<lparr>c_due = 1, leader = False\<rparr>)],
      self_remote = ''A'', fh_list = [], next_fh = 0, jrnl = journal_new,
      this_client = \<lparr>client_id = 2, client_uid = 0, client_gid = 0\<rparr>, sys = sample_client Map.empty\<rparr>"

lemma sample_caller_simps [simp]:
  "sys sample_caller = sample_client Map.empty" "fh_list sample_caller = []" "next_fh sample_caller = 0" "jrnl sample_caller = journal_new"
  "ino_of sample_caller 0 = own_ino" "ino_of sample_caller (Suc 0) = replicate 16 CHR ''u''" "dir_children sample_caller 0 = Map.empty"
  by (simp_all add: sample_caller_def own_dir_def inode_new_dir_def set_ino_def own_table_def)

lemma sample_leads: "leads mem_env (sample_client M) 0 0"
  using sample_leased [of M] by (simp add: leads_def) (simp add: sample_client_def sample_table_def)

lemma sample_points: "points_to sample_caller 1 root_file ''B'' 0"
  by (simp add: points_to_def) (simp add: sample_caller_def root_file_def)

lemma sample_target: "target_at (sample_client M) 0 0 root_file = Some 1"
  by (simp add: target_at_def root_file_def)

lemma sample_plain: "remote (iobjs (sample_client M) a) = None"
  by (simp add: sample_client_def)

section \<open>Properties\<close>

text \<open>C20. \<open>stat\<close> through another client: \<open>remote_getattr\<close> gives the caller what \<open>fill_stat\<close> gives the leader for the
  target of the request, the directory itself or a child, and throws \<open>no_entry\<close> for a name that is
  not there.\<close>

theorem remote_getattr_agrees:
  assumes "leads E (sys A) p d" and "tab_ok (sys A) p d" and "points_to A i r host p"
    and "\<And>a. target_at (sys A) p d r = Some a \<Longrightarrow> remote (iobjs (sys A) a) = None"
  shows "\<exists>B'. remote_getattr (via E host) i s A =
    Some (case target_at (sys A) p d r of None \<Rightarrow> Inl No_entry | Some a \<Rightarrow> Inr (0, fill_stat (the_inode (sys A) a) s), A\<lparr>sys := B'\<rparr>)"
  using assms by (rule remote_getattr_ok)

theorem remote_getattr_agrees_witness:
  "\<forall>s. \<exists>B'. remote_getattr (via mem_env ''B'') 1 s sample_caller = Some (Inr (0, fill_stat sample_file s), sample_caller\<lparr>sys := B'\<rparr>)"
  using remote_getattr_agrees [of mem_env sample_caller 0 0 1 root_file "''B''"] sample_leads sample_tab sample_points sample_target sample_plain
  by simp

text \<open>C12. \<open>create\<close> through another client: the leader enters the new file into its table and its journal alike, and
  the caller gets an open handle whose inode refers to the new file at the leader, with its number.\<close>

theorem remote_create_coherent:
  assumes "leads E (sys A) p d" and "dir_ok v (sys A) p d" and "points_to A i r host p" and "fh_fresh A"
    and "name_ok name" and "dir_children (sys A) d name = None" and "\<not> S_ISLNK (mode OR S_IFREG)"
    and "u = drawn_ino E (snd (sys_clock E (sys (sys A))))" and "fresh_ino (sys A) p d u"
  shows "\<exists>A' h a c. remote_create (via E host) i name mode fi A = Some (Inr (0, fi\<lparr>fi_fh := next_fh A\<rparr>), A')
    \<and> dir_ok v (sys A') p d \<and> dir_children (sys A') d = (dir_children (sys A) d)(name \<mapsto> u)
    \<and> rm_find (child_inodes (dtabs (sys A') d)) name = Some c \<and> i_mode (core (the_inode (sys A') c)) = mode OR S_IFREG
    \<and> rm_find (fh_list A') (next_fh A) = Some h \<and> get_open_inode_info h = Inr (Some a) \<and> ino_of A' a = u
    \<and> remote (iobjs A' a) = Some \<lparr>r_leader_ip = host, r_dentry_table_ino = r_dentry_table_ino r, r_target_is_parent = False, r_file_name = name\<rparr>"
  by (rule remote_create_ok [OF assms, of fi]) blast

theorem remote_create_coherent_witness:
  "\<exists>A'. remote_create (via mem_env ''B'') 1 ''g'' 0x1A4 \<lparr>fi_flags = 0, fi_fh = 0\<rparr> sample_caller = Some (Inr (0, \<lparr>fi_flags = 0, fi_fh = 0\<rparr>), A')
     \<and> dir_children (sys A') 0 = sample_entries(''g'' \<mapsto> replicate 16 CHR ''w'')"
  using remote_create_coherent [of mem_env sample_caller 0 0 "Some sample_entries" 1 root_file "''B''" "''g''" "0x1A4" _ "\<lparr>fi_flags = 0, fi_fh = 0\<rparr>"]
    sample_leads sample_dir_ok sample_points sample_fresh sample_modes(1) sample_names(2) by (auto simp: fh_fresh_def)



end
