(* ===== verification/Remote_Rename.thy ===== *)
theory Remote_Rename
  imports Remote_Spec Fuse_Ops
begin

text \<open>
  A rename between two directories with different leaders: the leader of the source takes the file
  out and sends its inode, the caller enters it into the directory it leads itself. Both
  directories stay coherent, and the file keeps its number and attributes.
\<close>

section \<open>The file enters a directory\<close>

lemma upd_child:
  assumes dir: "dir_ok v st p d" and a: "child_ok st p a" and f: "core (f (the_inode st a)) = core (the_inode st a)"
    and wf: "wf_inode (the_inode st a) \<Longrightarrow> wf_inode (f (the_inode st a))"
  obtains st' where "upd_inode a f st = Some (Inr (), st')" and "dir_ok v st' p d" and "child_ok st' p a"
    and "the_inode st' a = f (the_inode st a)" and "dir_children st' d = dir_children st d" and "next_iobj st' = next_iobj st"
    and "jrnl st' = jrnl st" and "ino_of st' p = ino_of st p" and "sys st' = sys st"
proof -
  obtain st' where st': "upd_inode a f st = Some (Inr (), st')" "touched a st st'"
    by (rule upd_inode_touched [where st = st and f = f and a = a]) (use f wf in simp_all)
  note t = touched_rest [OF st'(2)] touched_ino [OF st'(2)]
  have new: "the_inode st' a = f (the_inode st a)" "sys st' = sys st" using st'(1) by (auto simp: upd_inode_def modify_def)
  have "child_ok st' p a" using a t(10) touched_wf [OF st'(2), of a] by (simp add: child_ok_def)
  then show thesis using touched_dir [OF st'(2) dir] st'(1) new t by (intro that [of st']) simp_all
qed

lemma local_rename_dst_ok:
  assumes lease: "leased E st (ino_of st p) d" and dir: "dir_ok v st p d"
    and new: "get_filename_from_path new_path = Inr new" "name_ok new"
    and chk: "chk = (case dir_children st d new of None \<Rightarrow> nil_uuid | Some i \<Rightarrow> i)"
    and a: "a < next_iobj st" "child_ok st p a" and fresh: "ino_of st a \<notin> ran (dir_children st d)" "log_free st (ino_of st p) (ino_of st a)"
  obtains st' where "local_rename_not_same_parent_dst E p a chk new_path 0 st = Some (Inr 0, st')" and "dir_ok v st' p d"
    and "dir_children st' d = (dir_children st d)(new \<mapsto> ino_of st a)" and "rm_find (child_inodes (dtabs st' d)) new = Some a"
    and "core (the_inode st' a) = core (the_inode st a)" and "sys st' = snd (sys_clock E (sys st))"
proof -
  let ?st0 = "st\<lparr>sys := snd (sys_clock E (sys st))\<rparr>"
  note st0 = table_of_leased [OF lease]
  have dir0: "dir_ok v ?st0 p d" by (rule touched_dir [OF touched_sys dir])
  have c0: "child_ok ?st0 p a" using a(2) by (simp add: child_ok_def)
  obtain st1 where st1: "upd_inode a (set_loc LOCAL) ?st0 = Some (Inr (), st1)" "dir_ok v st1 p d" "child_ok st1 p a"
    "the_inode st1 a = set_loc LOCAL (the_inode ?st0 a)" "dir_children st1 d = dir_children ?st0 d" "next_iobj st1 = next_iobj ?st0"
    "jrnl st1 = jrnl ?st0" "ino_of st1 p = ino_of ?st0 p" "sys st1 = sys ?st0"
    by (rule upd_child [OF dir0 c0, of "set_loc LOCAL"]) (simp_all, simp add: set_loc_def)
  obtain st2 where st2: "upd_inode a (set_p_ino (ino_of st p)) st1 = Some (Inr (), st2)" "dir_ok v st2 p d" "child_ok st2 p a"
    "the_inode st2 a = set_p_ino (ino_of st p) (the_inode st1 a)" "dir_children st2 d = dir_children st1 d" "next_iobj st2 = next_iobj st1"
    "jrnl st2 = jrnl st1" "ino_of st2 p = ino_of st1 p" "sys st2 = sys st1"
    by (rule upd_child [OF st1(2,3), of "set_p_ino (ino_of st p)"]) (simp_all, simp add: set_p_ino_def)
  have core2: "core (the_inode st2 a) = core (the_inode st a)" by (simp add: st2(4) st1(4) set_p_ino_def set_loc_def)
  obtain st3 where st3: "(if \<not> is_nil chk then replace_entry d p new else ret ()) st2 = Some (Inr (), st3)" "dir_ok v st3 p d"
    "dir_children st3 d = (dir_children st2 d)(new := None)" "next_iobj st3 = next_iobj st2" "\<forall>a. ino_of st3 a = ino_of st2 a"
    "\<forall>x. core (the_inode st3 x) = core (the_inode st2 x) \<and> (child_ok st2 p x \<longrightarrow> child_ok st3 p x)"
    "\<forall>i. log_free st2 (ino_of st2 p) i \<longrightarrow> log_free st3 (ino_of st2 p) i" "sys st3 = sys st2"
    by (rule make_room [OF st2(2) new(2), of chk]) (use chk st2(5) st1(5) in simp_all)
  have ino3: "ino_of st3 a = ino_of st a" "ino_of st3 p = ino_of st p" using st3(5) core2 st2(8) st1(8) by simp_all
  have "log_free st2 (ino_of st2 p) (ino_of st a)" using fresh(2) st2(7,8) st1(7,8) by (simp add: log_free_def)
  then have free3: "log_free st3 (ino_of st3 p) (ino_of st3 a)" using st3(7) ino3 st2(8) st1(8) by simp
  have out3: "ino_of st3 a \<notin> ran (dir_children st3 d)" using fresh(1) ino3 by (auto simp: st3(3) st2(5) st1(5) ran_def)
  have a3: "a < next_iobj st3" "child_ok st3 p a" using a(1) st3(4,6) st2(3,6) st1(6) by simp_all
  obtain st4 st5 where st5: "create_child_inode d new a st3 = Some (Inr 0, st4)"
    "with_inodes p a (\<lambda>i f. journal_mkreg i new f) st4 = Some (Inr (), st5)" "dir_ok v st5 p d"
    "dir_children st5 d = (dir_children st3 d)(new \<mapsto> ino_of st3 a)" "rm_find (child_inodes (dtabs st5 d)) new = Some a" "iobjs st5 = iobjs st3" "sys st5 = sys st3"
    by (rule enter_child [OF st3(2) new(2) _ a3 out3 free3]) (simp_all add: st3(3))
  have "local_rename_not_same_parent_dst E p a chk new_path 0 st = Some (Inr 0, st5)"
    using st3(1) by (simp add: local_rename_not_same_parent_dst_def new(1) bnd_def st0 gets_def st1(1) st2(1) deref_def ret_def st5(1,2))
  then show thesis
    using st5(3-7) st3(3,6,8) st2(5,9) st1(5,9) ino3 core2 by (intro that [of st5]) simp_all
qed

section \<open>The file leaves a directory\<close>

text \<open>The answer of the leader gives back the inode.\<close>

lemma rename_answer:
  assumes "wf_inode n"
  obtains m where "inode_to_rename_src_response n (no_rename_respond 0) = Inr m"
    and "core (rename_src_response_to_inode (m\<lparr>a_rename_ret := 0\<rparr>) (inode_blank l)) = core n"
    and "link_target_name (rename_src_response_to_inode (m\<lparr>a_rename_ret := 0\<rparr>) (inode_blank l)) = link_target_name n"
proof -
  obtain m where m: "inode_to_rename_src_response n (no_rename_respond 0) = Inr m"
    "core (rename_src_response_to_inode m (inode_blank l)) = core n"
    "S_ISLNK (i_mode (core n)) \<longrightarrow> link_target_name (rename_src_response_to_inode m (inode_blank l)) = link_target_name n"
    using rename_message_roundtrip [OF assms, of "no_rename_respond 0" "inode_blank l"] by blast
  have same: "rename_src_response_to_inode (m\<lparr>a_rename_ret := 0\<rparr>) i = rename_src_response_to_inode m i" for i
    by (simp add: rename_src_response_to_inode_def Let_def)
  have mode: "target_i_mode m = i_mode (core n)" using arg_cong [OF m(2), of i_mode] by (simp add: rename_src_response_to_inode_def Let_def split: if_splits)
  have "link_target_name (rename_src_response_to_inode m (inode_blank l)) = link_target_name n"
  proof (cases "S_ISLNK (i_mode (core n))")
    case False
    with mode assms show ?thesis by (simp add: rename_src_response_to_inode_def inode_blank_def wf_inode_def Let_def)
  qed (use m(3) in simp)
  then show thesis using m(1,2) by (intro that [of m]) (simp_all add: same)
qed

lemma server_rename_src_ok:
  assumes lead: "leads E B p d" and dir: "dir_ok v B p d" and q: "request_ino q = ino_of B p" "q_src_flags q = 0"
    and old: "get_filename_from_path (q_src_old_path q) = Inr old" "name_ok old" and a: "rm_find (child_inodes (dtabs B d)) old = Some a"
  obtains B' m where "rpc_server_rename_not_same_parent_src E q B = Some (Inr m, B')" and "a_rename_ret m = 0" and "dir_ok v B' p d"
    and "dir_children B' d = (dir_children B d)(old := None)"
    and "core (rename_src_response_to_inode m (inode_blank l)) = core (the_inode B a)"
    and "link_target_name (rename_src_response_to_inode m (inode_blank l)) = link_target_name (the_inode B a)"
proof -
  let ?Bc = "B\<lparr>sys := snd (sys_clock E (sys B))\<rparr>"
  have lease: "leased E B (ino_of B p) d" and p: "this_dir_inode (dtabs B d) = Some p" using lead by (simp_all add: leads_def)
  have dirc: "dir_ok v ?Bc p d" by (rule touched_dir [OF touched_sys dir])
  then have tabc: "tab_ok ?Bc p d" by (simp add: dir_ok_def)
  obtain C where C: "child_of (Some d) old ?Bc = Some (Inr a, C)" "touched a ?Bc C" "the_inode C a = set_loc LOCAL (the_inode ?Bc a)"
    by (rule child_of_local [OF tabc, of old a]) (use a in simp_all)
  note t = touched_rest [OF C(2)]
  have dirC: "dir_ok v C p d" by (rule touched_dir [OF C(2) dirc])
  have aC: "rm_find (child_inodes (dtabs C d)) old = Some a" using a t(1) by simp
  obtain D F where F: "delete_child_inode d old C = Some (Inr 0, D)" "with_inodes p a (\<lambda>i f. journal_rmreg i old f) D = Some (Inr (), F)"
    "dir_ok v F p d" "dir_children F d = (dir_children C d)(old := None)" "iobjs F = iobjs C" "child_ok F p a"
    by (rule remove_child [OF dirC old(2) aC])
  have "wf_inode (the_inode F a)" using F(6) by (simp add: child_ok_def)
  then obtain m where m: "inode_to_rename_src_response (the_inode F a) (no_rename_respond 0) = Inr m"
    "core (rename_src_response_to_inode (m\<lparr>a_rename_ret := 0\<rparr>) (inode_blank l)) = core (the_inode F a)"
    "link_target_name (rename_src_response_to_inode (m\<lparr>a_rename_ret := 0\<rparr>) (inode_blank l)) = link_target_name (the_inode F a)"
    by (rule rename_answer)
  have parent: "parent_of (Some d) C = Some (Inr (d, Some p), C)"
    by (rule parent_of_local) (use dirC p t(1) tab_local [of C p d] in \<open>simp_all add: dir_ok_def\<close>)
  have "rpc_server_rename_not_same_parent_src E q B = Some (Inr (m\<lparr>a_rename_ret := 0\<rparr>), F)"
    by (simp add: rpc_server_rename_not_same_parent_src_def old(1) q leader_table_leased [OF lease] bnd_def C(1) parent F(1,2) deref_def
        ret_def gets_def m(1) from_result_def)
  then show thesis using m(2,3) F(3-5) C(3) t(1) by (intro that) (simp_all add: set_loc_def)
qed

section \<open>From one leader to the other\<close>

lemma new_iobj_dir:
  assumes dir: "dir_ok v st p d" and new: "st' = st\<lparr>iobjs := (iobjs st)(next_iobj st := x), next_iobj := Suc (next_iobj st)\<rparr>"
  shows "dir_ok v st' p d" and "ino_of st' p = ino_of st p" and "dir_children st' d = dir_children st d"
proof -
  have tab: "tab_ok st p d" using dir by (simp add: dir_ok_def)
  then have p: "p \<noteq> next_iobj st" by (simp add: tab_ok_def)
  then show "ino_of st' p = ino_of st p" "dir_children st' d = dir_children st d" by (simp_all add: new)
  show "dir_ok v st' p d" using dir new_iobj_tab [OF tab, of x] p log_is_cong [of st' st] by (simp add: dir_ok_def new)
qed

lemma wf_inode_cong: "core i = core j \<Longrightarrow> link_target_name i = link_target_name j \<Longrightarrow> wf_inode i \<longleftrightarrow> wf_inode j"
  by (simp add: wf_inode_def split: option.split)

lemma retry_remote_once:
  assumes "m st = Some (Inr x, st')" and "code x \<noteq> - ENOTLEADER" and "code x \<noteq> - ENEEDRECOV"
  shows "retry_remote E i code m st = Some (Inr x, st')"
  by (subst retry_remote.simps) (simp add: assms)

text \<open>The table the caller has for a directory that the client at \<open>host\<close> leads\<close>

definition knows_leader :: "'w client_state client_state \<Rightarrow> nat \<Rightarrow> string \<Rightarrow> nat \<Rightarrow> bool" where
  "knows_leader A sd host p \<longleftrightarrow> leader_ip (dtabs A sd) = host \<and> dir_ino (dtabs A sd) = ino_of (sys A) p"

text \<open>The caller has taken the file over as a new inode object.\<close>

lemma rename_out_ok:
  assumes lead: "leads E (sys A) p d" and dir: "dir_ok v (sys A) p d" and know: "knows_leader A sd host p" and own: "dir_ok w A p' d'"
    and old: "get_filename_from_path old_path = Inr old" "name_ok old" and a: "rm_find (child_inodes (dtabs (sys A) d)) old = Some a"
  obtains A' t where "rename_out (via E host) REMOTE sd src_parent_i old_path 0 A = Some (Inr (Some t), A')"
    and "dir_ok v (sys A') p d" and "dir_children (sys A') d = (dir_children (sys A) d)(old := None)" and "dir_ok w A' p' d'"
    and "core (the_inode A' t) = core (the_inode (sys A) a)" and "wf_inode (the_inode A' t)" and "t < next_iobj A'"
    and "ino_of A' p' = ino_of A p'" and "dir_children A' d' = dir_children A d'" and "jrnl A' = jrnl A"
    and "dentry_tables A' = dentry_tables A" and "leases A' = leases A"
proof -
  define r where "r = \<lparr>r_leader_ip = host, r_dentry_table_ino = ino_of (sys A) p, r_target_is_parent = False, r_file_name = old_path\<rparr>"
  define x where "x = remote_inode_new host (ino_of (sys A) p) old_path False"
  define A1 where "A1 = A\<lparr>iobjs := (iobjs A)(next_iobj A := x), next_iobj := Suc (next_iobj A)\<rparr>"
  have x: "remote x = Some r" by (simp add: x_def r_def remote_inode_new_def)
  have make: "make_remote sd old_path A = Some (Inr (next_iobj A), A1)"
    using know by (simp add: make_remote_def new_iobj_def knows_leader_def A1_def x_def)
  have pt: "points_to A1 (next_iobj A) r host p" using x by (simp add: points_to_def A1_def r_def)
  have s1: "sys A1 = sys A" by (simp add: A1_def)
  note own1 = new_iobj_dir [OF own A1_def]
  let ?q = "dir_request.extend (dir_of r) \<lparr>q_src_old_path = old_path, q_src_flags = 0\<rparr>"
  have "is_uuid (ino_of (sys A) p)" using dir tab_uuid [of "sys A" p d] by (simp add: dir_ok_def)
  then have q: "request_ino ?q = ino_of (sys A1) p" by (simp add: dir_of_def r_def s1)
  have qf: "q_src_flags ?q = 0" "q_src_old_path ?q = old_path" by (simp_all add: request_defs)
  have lead1: "leads E (sys A1) p d" and dir1: "dir_ok v (sys A1) p d" and a1: "rm_find (child_inodes (dtabs (sys A1) d)) old = Some a"
    using lead dir a by (simp_all add: s1)
  obtain B' m where B': "rpc_server_rename_not_same_parent_src E ?q (sys A1) = Some (Inr m, B')" "a_rename_ret m = 0" "dir_ok v B' p d"
    "dir_children B' d = (dir_children (sys A1) d)(old := None)"
    "core (rename_src_response_to_inode m (inode_blank NOBODY)) = core (the_inode (sys A1) a)"
    "link_target_name (rename_src_response_to_inode m (inode_blank NOBODY)) = link_target_name (the_inode (sys A1) a)"
    by (rule server_rename_src_ok [OF lead1 dir1 q qf(1), of old a NOBODY]) (use old a1 qf in simp_all)
  note step = remote_call_step [OF pt, where handler = "rpc_server_rename_not_same_parent_src E", OF B'(1)]
  define y where "y = \<lparr>base = rename_src_response_to_inode m (inode_blank NOBODY), remote = None\<rparr>"
  define A2 where "A2 = A1\<lparr>sys := B'\<rparr>"
  define A3 where "A3 = A2\<lparr>iobjs := (iobjs A2)(next_iobj A2 := y), next_iobj := Suc (next_iobj A2)\<rparr>"
  have call: "remote_rename_not_same_parent_src (via E host) (next_iobj A) old_path 0 A1 = Some (Inr (0, Some (next_iobj A1)), A3)"
    by (simp add: remote_rename_not_same_parent_src_def remote_cast_points [OF pt] rpc_client_rename_not_same_parent_src_def step B'(2)
        bnd_new_iobj ret_def ENOSYS_def A3_def A2_def y_def)
  have "retry_remote (via E host) (next_iobj A) fst (remote_rename_not_same_parent_src (via E host) (next_iobj A) old_path 0) A1
      = Some (Inr (0, Some (next_iobj A1)), A3)"
    using call by (rule retry_remote_once) (simp_all add: ENOTLEADER_def ENEEDRECOV_def)
  then have out: "rename_out (via E host) REMOTE sd src_parent_i old_path 0 A = Some (Inr (Some (next_iobj A1)), A3)"
    by (simp add: rename_out_def bnd_def make ret_def)
  have "dir_ok w A2 p' d'" unfolding A2_def by (rule touched_dir [OF touched_sys own1(1)])
  note own3 = new_iobj_dir [OF this A3_def]
  have t: "iobjs A3 (next_iobj A1) = y" by (simp add: A3_def A2_def)
  have "wf_inode (the_inode (sys A) a)" using dir a by (auto simp: dir_ok_def tab_ok_def)
  then have "wf_inode (base y)" using B'(5,6) wf_inode_cong [of "base y" "the_inode (sys A) a"] by (simp add: y_def s1)
  then show thesis
    using out B'(3-5) own3 own1 t by (intro that [of "next_iobj A1" A3]) (simp_all add: s1 y_def A3_def A2_def A1_def)
qed

text \<open>The two halves in the order in which \<open>rename\<close> runs them when another client leads the source and this
  client the destination. The lease of the destination lasts until the end.\<close>

lemma rename_across_ok:
  assumes lead: "leads E (sys A) p d" and dir: "dir_ok v (sys A) p d" and know: "knows_leader A sd host p" and own: "dir_ok w A p' d'"
    and lease: "rm_find (dentry_tables A) (ino_of A p') = Some d'" "\<And>s. is_valid (fst (sys_clock E s)) (leases A) (ino_of A p')"
    and old: "get_filename_from_path old_path = Inr old" "name_ok old" and a: "rm_find (child_inodes (dtabs (sys A) d)) old = Some a"
    and new: "get_filename_from_path new_path = Inr new" "name_ok new"
    and chk: "chk = (case dir_children A d' new of None \<Rightarrow> nil_uuid | Some i \<Rightarrow> i)"
    and fresh: "ino_of (sys A) a \<noteq> ino_of A p'" "ino_of (sys A) a \<notin> ran (dir_children A d')" "log_free A (ino_of A p') (ino_of (sys A) a)"
  obtains A' t where "bnd (rename_out (via E host) REMOTE sd src_parent_i old_path 0)
      (\<lambda>moved. rename_in (via E host) LOCAL dd p' moved chk new_path 0) A = Some (Inr 0, A')"
    and "dir_ok v (sys A') p d" and "dir_children (sys A') d = (dir_children (sys A) d)(old := None)"
    and "dir_ok w A' p' d'" and "dir_children A' d' = (dir_children A d')(new \<mapsto> ino_of (sys A) a)"
    and "rm_find (child_inodes (dtabs A' d')) new = Some t" and "core (the_inode A' t) = core (the_inode (sys A) a)"
proof -
  obtain A1 t where A1: "rename_out (via E host) REMOTE sd src_parent_i old_path 0 A = Some (Inr (Some t), A1)"
    "dir_ok v (sys A1) p d" "dir_children (sys A1) d = (dir_children (sys A) d)(old := None)" "dir_ok w A1 p' d'"
    "core (the_inode A1 t) = core (the_inode (sys A) a)" "wf_inode (the_inode A1 t)" "t < next_iobj A1"
    "ino_of A1 p' = ino_of A p'" "dir_children A1 d' = dir_children A d'" "jrnl A1 = jrnl A"
    "dentry_tables A1 = dentry_tables A" "leases A1 = leases A"
    by (rule rename_out_ok [OF lead dir know own old a])
  have "fst (sys_clock (via E host) (sys A1)) = fst (sys_clock E (sys (sys A1)))"
    by (simp add: via_def through_def split: prod.split)
  then have lease1: "leased (via E host) A1 (ino_of A1 p') d'" using lease by (simp add: leased_def A1(8,11,12))
  have "\<not> is_nil (ino_of (sys A) a)" using dir a by (auto simp: dir_ok_def tab_ok_def)
  then have c1: "child_ok A1 p' t" using fresh(1) A1(5,6,8) by (simp add: child_ok_def)
  have f1: "ino_of A1 t \<notin> ran (dir_children A1 d')" "log_free A1 (ino_of A1 p') (ino_of A1 t)"
    using fresh(2,3) A1(5,8-10) by (simp_all add: log_free_def)
  have chk1: "chk = (case dir_children A1 d' new of None \<Rightarrow> nil_uuid | Some i \<Rightarrow> i)" using chk A1(9) by simp
  obtain A2 where A2: "local_rename_not_same_parent_dst (via E host) p' t chk new_path 0 A1 = Some (Inr 0, A2)" "dir_ok w A2 p' d'"
    "dir_children A2 d' = (dir_children A1 d')(new \<mapsto> ino_of A1 t)" "rm_find (child_inodes (dtabs A2 d')) new = Some t"
    "core (the_inode A2 t) = core (the_inode A1 t)" "sys A2 = snd (sys_clock (via E host) (sys A1))"
    by (rule local_rename_dst_ok [OF lease1 A1(4) new chk1 A1(7) c1 f1])
  have s2: "sys A2 = (sys A1)\<lparr>sys := snd (sys_clock E (sys (sys A1)))\<rparr>"
    using A2(6) by (simp add: via_def through_def split: prod.splits)
  have "dir_ok v (sys A2) p d" unfolding s2 by (rule touched_dir [OF touched_sys A1(2)])
  then show thesis
    using A1 A2(1-5) s2 by (intro that [of A2 t]) (simp_all add: bnd_def rename_in_def deref_def ret_def)
qed

section \<open>Properties\<close>


lemma sample_own_ok: "dir_ok (Some Map.empty) sample_caller 0 0"
proof -
  have "is_uuid own_ino" by simp
  then have "tab_ok sample_caller 0 0"
    by (simp add: tab_ok_def dtable_ok_def) (simp add: sample_caller_def own_table_def own_dir_def inode_new_dir_def wf_inode_def
        S_ISLNK_def S_IFLNK_def S_IFMT_def S_IFDIR_def)
  moreover have "log_is (Some Map.empty) sample_caller own_ino Map.empty"
    by (simp add: log_is_def journal_ok_new) (simp add: open_tx_def journal_new_def)
  ultimately show ?thesis by (simp add: dir_ok_def)
qed


end
