(* ===== verification/Fuse_Spec.thy ===== *)
theory Fuse_Spec
  imports Remote_Rename "HOL-Library.Multiset"
begin

text \<open>
  What the operations of FUSE and the service promise beside the effect of a single call: who
  refuses a request, what the loop around a remote call returns, which codes reach the kernel, the
  listing of a directory, and the first start.
\<close>

section \<open>The loop around a remote call\<close>

text \<open>One round: the answer is \<open>-ENOTLEADER\<close>, and the leader is looked up again.\<close>

inductive round :: "'s env \<Rightarrow> nat \<Rightarrow> ('a \<Rightarrow> int) \<Rightarrow> ('a, 's) cprog \<Rightarrow> 's client_state \<Rightarrow> 's client_state \<Rightarrow> bool"
  for E i code m where
  "m st = Some (Inr x, st1) \<Longrightarrow> code x = - ENOTLEADER \<Longrightarrow> find_remote_dentry_table_again E i st1 = Some (Inr (), st2)
     \<Longrightarrow> round E i code m st st2"

inductive_cases roundE: "round E i code m st st2"

lemma retry_remote_round: "round E i code m st st' \<Longrightarrow> retry_remote E i code m st = retry_remote E i code m st'"
  by (erule roundE) (subst retry_remote.simps, simp)

lemma retry_remote_rounds:
  assumes "(round E i code m)\<^sup>*\<^sup>* st st'"
  shows "retry_remote E i code m st = retry_remote E i code m st'"
  using assms by (induction rule: converse_rtranclp_induct) (simp_all add: retry_remote_round)

text \<open>What the loop returns is never one of the two internal codes.\<close>

lemma retry_remote_final:
  assumes "retry_remote E i code m st = Some (r, st')"
  shows "r = Inr x \<Longrightarrow> code x \<noteq> - ENOTLEADER \<and> code x \<noteq> - ENEEDRECOV"
  using assms
proof (induction E i code m st "(r, st')" rule: retry_remote.raw_induct [rotated 1, consumes 1])
  case (1 retry E i code m st)
  then show ?case by (auto split: option.splits sum.splits prod.splits if_splits)
qed

lemma by_table_code:
  assumes "by_table E code d name other local_op remote_op st = Some (Inr x, st')"
    and "\<And>y st1 st2. local_op st1 = Some (Inr y, st2) \<Longrightarrow> code y = 0" and "code other = 0"
  shows "code x \<noteq> - ENOTLEADER \<and> code x \<noteq> - ENEEDRECOV"
  using assms retry_remote_final
  by (fastforce simp: by_table_def bnd_eq_Inr_iff gets_def ret_def ENOTLEADER_def ENEEDRECOV_def split: meta_location.splits)

lemma by_location_code:
  assumes "by_location E code i other local_op remote_op st = Some (Inr x, st')"
    and "\<And>y st1 st2. local_op st1 = Some (Inr y, st2) \<Longrightarrow> code y = 0" and "code other = 0"
  shows "code x \<noteq> - ENOTLEADER \<and> code x \<noteq> - ENEEDRECOV"
  using assms retry_remote_final
  by (fastforce simp: by_location_def bnd_eq_Inr_iff gets_def ret_def ENOTLEADER_def ENEEDRECOV_def split: meta_location.splits)

lemma catch_errors_cases:
  assumes "catch_errors wrap m st = Some (Inr x, st')"
  shows "m st = Some (Inr x, st') \<or> x = wrap (- ENOENT) \<or> x = wrap (- EACCES)"
  using assms by (auto simp: catch_errors_def catch_def ret_def throw_def split: option.splits sum.splits prod.splits if_splits)

definition outside :: "int \<Rightarrow> bool" where
  "outside c \<longleftrightarrow> c \<noteq> - ENOTLEADER \<and> c \<noteq> - ENEEDRECOV"

lemma catch_errors_code:
  assumes run: "catch_errors wrap m st = Some (Inr x, st')" and wrap: "\<And>c. code (wrap c) = c"
    and m: "\<And>y st1. m st = Some (Inr y, st1) \<Longrightarrow> outside (code y)"
  shows "outside (code x)"
  using catch_errors_cases [OF run] wrap m
  by (auto simp: outside_def ENOTLEADER_def ENEEDRECOV_def ENOENT_def EACCES_def)

lemma fuse_unlink_code: "fuse_unlink E pathname st = Some (Inr c, st') \<Longrightarrow> c \<noteq> - ENOTLEADER \<and> c \<noteq> - ENEEDRECOV"
  unfolding fuse_unlink_def outside_def [symmetric]
  by (erule catch_errors_code [where code = "\<lambda>c. c"])
    (auto simp: bnd_eq_Inr_iff outside_def ret_def dest!: by_table_code)

lemma fuse_create_code: "fuse_create E pathname mode fi st = Some (Inr x, st') \<Longrightarrow> fst x \<noteq> - ENOTLEADER \<and> fst x \<noteq> - ENEEDRECOV"
proof (cases "S_ISDIR mode")
  case False
  assume "fuse_create E pathname mode fi st = Some (Inr x, st')"
  with False show ?thesis
    unfolding fuse_create_def outside_def [symmetric] if_not_P [OF False]
    by (elim catch_errors_code [where code = fst])
      (auto simp: bnd_eq_Inr_iff outside_def ret_def dest!: by_table_code)
qed (auto simp: fuse_create_def ret_def EISDIR_def ENOTLEADER_def ENEEDRECOV_def)

lemma fuse_access_code: "fuse_access E pathname msk st = Some (Inr c, st') \<Longrightarrow> c \<noteq> - ENOTLEADER \<and> c \<noteq> - ENEEDRECOV"
  unfolding fuse_access_def outside_def [symmetric]
  by (erule catch_errors_code [where code = "\<lambda>c. c"])
    (auto simp: bnd_eq_Inr_iff outside_def ret_def dest!: by_location_code)

lemma fuse_getattr_code: "fuse_getattr E pathname s info st = Some (Inr x, st') \<Longrightarrow> fst x \<noteq> - ENOTLEADER \<and> fst x \<noteq> - ENEEDRECOV"
  unfolding fuse_getattr_def outside_def [symmetric]
  by (erule catch_errors_code [where code = fst])
    (auto simp: bnd_eq_Inr_iff outside_def ret_def dest!: by_location_code)

lemma fuse_chmod_code: "fuse_chmod E pathname mode info st = Some (Inr c, st') \<Longrightarrow> c \<noteq> - ENOTLEADER \<and> c \<noteq> - ENEEDRECOV"
  unfolding fuse_chmod_def outside_def [symmetric]
  by (erule catch_errors_code [where code = "\<lambda>c. c"])
    (auto simp: bnd_eq_Inr_iff outside_def ret_def dest!: by_location_code)

section \<open>Listing\<close>

lemma read_names_ok: "read_names (map (\<lambda>name. \<lparr>a_filename = name, a_name_ret = 0\<rparr>) names) = (map c_string names, 0)"
  by (induction names) simp_all

lemma table_names:
  assumes "dtable_ok st d" and "dt_dentries (dtabs st d) = Some ds"
  shows "mset (map fst (child_inodes (dtabs st d))) = mset (map fst (child_list ds))"
proof -
  have wf: "rm_wf (child_list ds)" "rm_wf (child_inodes (dtabs st d))"
    and eq: "children ds name = map_option (ino_of st) (rm_find (child_inodes (dtabs st d)) name)" for name
    using assms by (simp_all add: dtable_ok_def)
  have "dom (children ds) = dom (rm_find (child_inodes (dtabs st d)))" using eq by (auto simp: dom_def)
  then have "set (map fst (child_list ds)) = set (map fst (child_inodes (dtabs st d)))" by (simp add: dom_map_of_conv_image_fst)
  then show ?thesis using wf set_eq_iff_mset_eq_distinct by metis
qed

lemma remote_readdir_run:
  assumes pt: "points_to A i r host p" and B': "rpc_server_readdir E (dir_of r) (sys A) = Some (Inr ms, B')"
  shows "remote_readdir (via E host) i A = Some (Inr (snd (read_names ms), fst (read_names ms)), A\<lparr>sys := B'\<rparr>)"
proof -
  have "sys_call (stub_readdir (peers (via E host)) (r_leader_ip r) (dir_of r)) A = Some (Inr (ms, True), A\<lparr>sys := B'\<rparr>)"
    using pt at_answers [of "rpc_server_readdir E" "dir_of r" "sys A" ms B' host] B'
    by (simp add: sys_call_def via_def service_def points_to_def)
  then have "rpc_client_readdir (via E host) (r_leader_ip r) r A = Some (Inr (snd (read_names ms), fst (read_names ms)), A\<lparr>sys := B'\<rparr>)"
    by (simp add: rpc_client_readdir_def bnd_def ret_def split: prod.split)
  then show ?thesis by (simp add: remote_readdir_def remote_cast_points [OF pt])
qed

lemma remote_readdir_names:
  assumes lead: "leads E (sys A) p d" and tab: "tab_ok (sys A) p d" and pt: "points_to A i r host p"
    and ds: "dt_dentries (dtabs (sys A) d) = Some ds"
  obtains B' names where "remote_readdir (via E host) i A = Some (Inr (0, names), A\<lparr>sys := B'\<rparr>)" and "mset names = mset (fill_filler ds)"
    and "table_fill_filler d B' = Some (Inr (fill_filler ds), B')"
proof -
  let ?B = "sys A" and ?names = "sort (map fst (child_inodes (dtabs (sys A) d)))"
  let ?Bc = "?B\<lparr>sys := snd (sys_clock E (sys ?B))\<rparr>" and ?ms = "map (\<lambda>name. \<lparr>a_filename = name, a_name_ret = 0\<rparr>) ([''.'', ''..''] @ ?names)"
  have q: "request_ino (dir_of r) = ino_of ?B p" using pt tab_uuid [OF tab] by (simp add: points_to_def dir_of_def)
  have lease: "leased E ?B (ino_of ?B p) d" using lead by (simp add: leads_def)
  have "rpc_server_readdir E (dir_of r) ?B = Some (Inr ?ms, ?Bc)"
    by (simp add: rpc_server_readdir_def q leader_table_leased [OF lease] bnd_def deref_def ret_def gets_def)
  then have "remote_readdir (via E host) i A = Some (Inr (0, map c_string ([''.'', ''..''] @ ?names)), A\<lparr>sys := ?Bc\<rparr>)"
    using remote_readdir_run [OF pt] by (simp only: read_names_ok fst_conv snd_conv)
  moreover have "mset (map c_string ([''.'', ''..''] @ ?names)) = mset (fill_filler ds)"
  proof -
    have ok: "dtable_ok ?B d" using tab by (simp add: tab_ok_def)
    have "map c_string [''.'', ''..''] = [''.'', ''..'']" by code_simp
    moreover have "mset (map c_string ?names) = mset (map (\<lambda>it. c_string (fst it)) (child_list ds))"
      using arg_cong [OF table_names [OF ok ds], of "image_mset c_string"] by (simp add: multiset.map_comp comp_def)
    ultimately show ?thesis by (simp add: fill_filler_def del: list.map)
  qed
  moreover have "table_fill_filler d ?Bc = Some (Inr (fill_filler ds), ?Bc)" using ds by (simp add: table_fill_filler_def)
  ultimately show thesis by (rule that)
qed

section \<open>Properties\<close>


lemma sample_no_lease: "\<nexists>d. leased mem_env (sample_client M) own_ino d"
proof -
  have "own_ino \<noteq> get_root_ino" by code_simp
  then show ?thesis by (simp add: leased_def sample_client_def)
qed


text \<open>The listing of a directory through another client has the same names as the leader's own, each as often; the order may
  differ, since the leader sends them in the order of the map of inodes.\<close>

theorem remote_readdir_agrees:
  assumes "leads E (sys A) p d" and "tab_ok (sys A) p d" and "points_to A i r host p" and "dt_dentries (dtabs (sys A) d) = Some ds"
  shows "\<exists>B' names. remote_readdir (via E host) i A = Some (Inr (0, names), A\<lparr>sys := B'\<rparr>) \<and> mset names = mset (fill_filler ds)
    \<and> table_fill_filler d B' = Some (Inr (fill_filler ds), B')"
  using remote_readdir_names [OF assms] by metis

theorem remote_readdir_agrees_witness:
  "\<exists>B' names. remote_readdir (via mem_env ''B'') 1 sample_caller = Some (Inr (0, names), sample_caller\<lparr>sys := B'\<rparr>)
     \<and> mset names = mset [''.'', ''..'', ''f'']"
proof -
  let ?ds = "\<lparr>this_ino = get_root_ino, child_list = [(''f'', replicate 16 CHR ''u'')]\<rparr>"
  have "dt_dentries (dtabs (sample_client Map.empty) 0) = Some ?ds" by (simp add: sample_client_def sample_table_def)
  moreover have "fill_filler ?ds = [''.'', ''..'', ''f'']" by code_simp
  ultimately show ?thesis
    using remote_readdir_agrees [of mem_env sample_caller 0 0 1 root_file "''B''" ?ds] sample_leads sample_tab sample_points by auto
qed

text \<open>C30. When the client that is asked no longer leads the directory, \<open>readdir\<close> returns 0 with no names at all: the handler writes
  no message to the stream, so the caller never sees \<open>-ENOTLEADER\<close> and does not look for the leader.\<close>

theorem readdir_not_leader_is_empty:
  assumes "points_to A i r host p" and "is_uuid (ino_of (sys A) p)" and "\<nexists>d. leased E (sys A) (ino_of (sys A) p) d"
  shows "\<exists>B'. remote_readdir (via E host) i A = Some (Inr (0, []), A\<lparr>sys := B'\<rparr>)"
proof -
  obtain s' where s': "get_dentry_table E (ino_of (sys A) p) True (sys A) = Some (Inl Not_leader,
      (sys A)\<lparr>dentry_tables := rm_erase (ino_of (sys A) p) (dentry_tables (sys A)), sys := s'\<rparr>)" (is "_ = Some (_, ?B)")
    by (rule get_dentry_table_refuses [OF assms(3)])
  have "request_ino (dir_of r) = ino_of (sys A) p" using assms(1,2) by (simp add: points_to_def dir_of_def)
  then have "rpc_server_readdir E (dir_of r) (sys A) = Some (Inr [], ?B)"
    by (simp add: rpc_server_readdir_def leader_table_refused [OF s'])
  then show ?thesis using remote_readdir_run [OF assms(1)] by fastforce
qed

theorem readdir_not_leader_is_empty_witness:
  "\<exists>A B'. remote_readdir (via mem_env ''B'') 1 A = Some (Inr (0, []), A\<lparr>sys := B'\<rparr>)"
proof -
  let ?u = "replicate 16 CHR ''u''"
  let ?A = "sample_caller\<lparr>iobjs := (iobjs sample_caller)(1 := \<lparr>base = own_dir, remote = Some (root_file\<lparr>r_dentry_table_ino := ?u\<rparr>)\<rparr>)\<rparr>"
  have "points_to ?A 1 (root_file\<lparr>r_dentry_table_ino := ?u\<rparr>) ''B'' 1" by (simp add: points_to_def root_file_def sample_inos)
  moreover have "\<nexists>d. leased mem_env (sample_client Map.empty) ?u d"
    using file_ino_not_root by (simp add: leased_def sample_client_def sample_inos)
  ultimately show ?thesis
    using readdir_not_leader_is_empty [of ?A 1 "root_file\<lparr>r_dentry_table_ino := ?u\<rparr>" "''B''" 1 mem_env] by (auto simp: sample_inos)
qed




text \<open>C31. A request reaches a client that holds a table of the directory but does not lead it, because it is itself a client of the
  leader and has heard of the valid lease: the handler of \<open>create\<close> does not answer \<open>-ENOTLEADER\<close>, it follows the null pointer to
  the entries.\<close>

theorem create_at_follower_crashes:
  assumes "leased E B (request_ino q) d" and "dt_loc (dtabs B d) = REMOTE" and "dt_dentries (dtabs B d) = None" and "child_inodes (dtabs B d) = []"
  shows "\<exists>B'. rpc_server_create E q B = Some (Inl (Crash ''null dentries''), B')"
proof -
  let ?B = "B\<lparr>sys := snd (sys_clock E (sys B))\<rparr>"
  obtain x where "get_this_dir_inode d ?B = Some (Inr (Some (next_iobj B)), ?B\<lparr>iobjs := (iobjs B)(next_iobj B := x), next_iobj := Suc (next_iobj B)\<rparr>)"
    (is "_ = Some (_, ?C)")
    using assms(2) by (simp add: get_this_dir_inode_def Let_def bnd_def new_iobj_def ret_def)
  then have p: "parent_of (Some d) ?B = Some (Inr (d, Some (next_iobj B)), ?C)"
    by (simp add: parent_of_def bnd_def deref_def ret_def)
  obtain ts where ts: "get_ts E ?C = Some (Inr ts, ?C\<lparr>sys := snd (utc_time E (sys ?C))\<rparr>)" using get_ts_sys by blast
  obtain u s' where u: "new_uuid E (snd (utc_time E (sys ?C))) = (u, s')" by (cases "new_uuid E (snd (utc_time E (sys ?C)))")
  obtain i D where D: "make_inode E (request_ino q) (q_new_mode q OR S_IFREG) ?C = Some (Inr i, D)" "dtabs D = dtabs B"
    using u by (simp add: make_inode_def bnd_def ts sys_call_def gets_def new_iobj_def)
  have "create_child_inode d (q_new_file_name q) i D = Some (Inl (Crash ''null dentries''), D)"
    using assms(3,4) D(2) by (simp add: create_child_inode_def rm_insert_def)
  then have "rpc_server_create E q B = Some (Inl (Crash ''null dentries''), D)"
    using p D(1) by (simp add: rpc_server_create_def Let_def leader_table_leased [OF assms(1)] bnd_def)
  then show ?thesis ..
qed

theorem create_at_follower_crashes_witness:
  "\<exists>B'. rpc_server_create (via mem_env ''B'') (dir_request.extend (make_dir_request get_root_ino) \<lparr>q_new_file_name = ''g'', q_new_mode = 0\<rparr>)
     sample_caller = Some (Inl (Crash ''null dentries''), B')"
proof -
  have "own_ino \<noteq> get_root_ino" by code_simp
  then have "leased (via mem_env ''B'') sample_caller get_root_ino 1"
    by (simp add: leased_def sample_caller_def via_def through_def mem_env_def is_valid_def)
  moreover have "dtabs sample_caller 1 = root_table" by (simp add: sample_caller_def)
  ultimately show ?thesis by (intro create_at_follower_crashes [where d = 1]) (simp_all add: root_table_def)
qed

section \<open>The first start\<close>

definition new_root :: "timespec \<Rightarrow> client \<Rightarrow> inode" where
  "new_root ts c = set_size DIR_INODE_SIZE (inode_new ts get_root_ino get_root_ino (client_uid c) (client_gid c) (S_IFDIR OR 0x1FF) True)"

lemma new_root_simps: "core (new_root ts c) = (core (new_root ts c))\<lparr>i_ino := get_root_ino, i_mode := S_IFDIR OR 0x1FF, i_size := DIR_INODE_SIZE,
    i_uid := client_uid c, i_gid := client_gid c\<rparr>"
  by (simp add: new_root_def set_size_def inode_new_def)

lemma new_root_wf: "wf_inode (new_root ts c)"
proof -
  have "\<not> S_ISLNK (S_IFDIR OR 0x1FF)" by (simp add: S_ISLNK_def S_IFLNK_def S_IFMT_def S_IFDIR_def)
  then show ?thesis by (simp add: new_root_def set_size_def inode_new_def wf_inode_def)
qed

lemma make_root_ok:
  assumes lib: "librados (meta_io E) objs" and ok: "store_ok objs (sys st)" and keeps: "\<And>s. objs (snd (utc_time E s)) = objs s"
    and absent: "\<not> rados_present objs (sys st) INODE (uuid_to_string (meta_io E) get_root_ino)"
  obtains ts s where "make_root E st = Some (Inr (), st\<lparr>sys := s\<rparr>)" and "inode_at (meta_io E) objs s (new_root ts (this_client st))"
    and "dentry_at (meta_io E) objs s \<lparr>this_ino = get_root_ino, child_list = []\<rparr>"
proof -
  let ?X = "meta_io E" and ?d = "\<lparr>this_ino = get_root_ino, child_list = []\<rparr>"
  let ?k = "uuid_to_string ?X get_root_ino"
  obtain s1 where s1: "rados_exist ?X INODE ?k (sys st) = (Inr False, s1)" "objs s1 = objs (sys st)"
  proof -
    have "objs (sys st) (get_prefix INODE @ ?k @ get_postfix 0) = None"
      using absent by (simp add: rados_present_def pool_key_def obj_key_def)
    then obtain n s1 where "io_stat ?X (get_prefix INODE @ ?k @ get_postfix 0) (sys st) = ((- ENOENT, n), s1)" "objs s1 = objs (sys st)"
      using librados.stat_absent [OF lib] by blast
    then show thesis by (intro that [of s1]) (simp_all add: rados_exist_def ENOENT_def)
  qed
  obtain ts where ts: "get_ts E (st\<lparr>sys := s1\<rparr>) = Some (Inr ts, st\<lparr>sys := snd (utc_time E s1)\<rparr>)"
    using get_ts_sys [of E "st\<lparr>sys := s1\<rparr>"] by auto
  let ?s2 = "snd (utc_time E s1)" and ?r = "new_root ts (this_client st)"
  have same: "objs ?s2 = objs (sys st)" by (simp add: keeps s1(2))
  have ok2: "store_ok objs ?s2" using ok same by (simp add: store_ok_def rados_file_def)
  obtain s3 where s3: "inode_sync ?X ?r ?s2 = (Inr (), s3)" "inode_at ?X objs s3 ?r" "store_ok objs s3"
    by (rule librados.inode_sync_at [OF lib ok2 new_root_wf])
  have "wf_dentry ?d" by (simp add: wf_dentry_def wf_children_def raw_size_def MAX_DENTRY_OBJ_SIZE_def OBJ_SIZE_def get_total_name_length_def get_child_num_def)
  then obtain s4 where s4: "dentry_sync ?X ?d s3 = (Inr (), s4)" "dentry_at ?X objs s4 ?d"
    "files_same objs {(DENTRY, uuid_to_string ?X (this_ino ?d))} s3 s4"
    by (rule librados.dentry_sync_at [OF lib s3(3)])
  have "inode_at ?X objs s4 ?r" using s3(2) inode_at_same [OF s4(3), of ?X ?r] by simp
  moreover have "make_root E st = Some (Inr (), st\<lparr>sys := s4\<rparr>)"
    using s3(1) by (simp add: make_root_def bnd_def on_sys_def zoom_def lift_def s1(1) ts gets_def dentry_new_def new_root_def s4(1))
  ultimately show thesis using s4(2) by (intro that)
qed

text \<open>On an empty pool, the first client makes the root directory: it can be loaded back as an empty directory with mode 0777, owned
  by that client.\<close>

theorem make_root_creates:
  assumes "librados (meta_io E) objs" and "store_ok objs (sys st)" and "\<And>s. objs (snd (utc_time E s)) = objs s"
    and "\<not> rados_present objs (sys st) INODE (uuid_to_string (meta_io E) get_root_ino)"
  shows "\<exists>s i. make_root E st = Some (Inr (), st\<lparr>sys := s\<rparr>)
    \<and> fst (inode_load (meta_io E) get_root_ino s) = Inr i \<and> i_ino (core i) = get_root_ino \<and> i_mode (core i) = S_IFDIR OR 0x1FF
    \<and> i_size (core i) = DIR_INODE_SIZE \<and> i_uid (core i) = client_uid (this_client st)
    \<and> fst (dentry_new (meta_io E) get_root_ino False s) = Inr \<lparr>this_ino = get_root_ino, child_list = []\<rparr>"
proof -
  obtain ts s where s: "make_root E st = Some (Inr (), st\<lparr>sys := s\<rparr>)" "inode_at (meta_io E) objs s (new_root ts (this_client st))"
    "dentry_at (meta_io E) objs s \<lparr>this_ino = get_root_ino, child_list = []\<rparr>"
    by (rule make_root_ok [OF assms])
  let ?r = "new_root ts (this_client st)"
  have ino: "i_ino (core ?r) = get_root_ino" by (simp add: new_root_def set_size_def inode_new_def)
  have load: "fst (inode_load (meta_io E) get_root_ino s) = Inr (loaded_inode ?r)"
    by (rule librados.inode_load_at [OF assms(1) s(2)]) (simp add: ino)
  have entries: "fst (dentry_new (meta_io E) get_root_ino False s) = Inr \<lparr>this_ino = get_root_ino, child_list = []\<rparr>"
    by (rule librados.dentry_load_at [OF assms(1) s(3)]) simp
  show ?thesis
    by (rule exI [of _ s], rule exI [of _ "loaded_inode ?r"])
      (use s(1) load entries in \<open>simp add: loaded_inode_def new_root_def set_size_def inode_new_def\<close>)
qed

theorem make_root_creates_witness:
  "\<exists>s. make_root mem_env (sample_client Map.empty) = Some (Inr (), (sample_client Map.empty)\<lparr>sys := s\<rparr>)
     \<and> fst (dentry_new mem_ext get_root_ino False s) = Inr \<lparr>this_ino = get_root_ino, child_list = []\<rparr>"
proof -
  have io: "meta_io mem_env = mem_ext" by (simp add: mem_env_def)
  have "snd (utc_time mem_env s) = s" for s by (simp add: mem_env_def)
  then show ?thesis
    using make_root_creates [of mem_env "\<lambda>M. M" "sample_client Map.empty"] mem_librados mem_empty_ok by (auto simp: io rados_present_def)
qed

end
