(* ===== verification/Client_Types.thy ===== *)
theory Client_Types
  imports Fuse_Ops Rpc_Server
begin

text \<open>
  A type system for the programs of a client. The state of a client is a heap of inodes and of
  dentry tables with references between them; \<open>client_ok\<close> says that the references lead to objects
  of the right kind and that each registered table is complete. A judgement \<open>typed \<Gamma> m T\<close> says that
  the program \<open>m\<close>, run on references of which \<open>\<Gamma>\<close> tells the kind, keeps the invariant, only extends
  the heap, returns references of the kinds \<open>T\<close> and throws none of the errors by which the program
  reports that its own data is inconsistent. There is one rule for each combinator and one for each
  primitive; the typing of an operation follows its text.
\<close>

section \<open>The invariant\<close>

text \<open>A table that can be used: of a directory this client leads, with its inode and with the same
  names in its entries and its inodes, or of another client's directory, without entries.\<close>

definition table_ready :: "dentry_table \<Rightarrow> bool" where
  "table_ready t =
     (case dt_loc t of
        LOCAL \<Rightarrow> this_dir_inode t \<noteq> None \<and> rm_wf (child_inodes t) \<and>
          (case dt_dentries t of
             None \<Rightarrow> False
           | Some ds \<Rightarrow> this_ino ds = dir_ino t \<and> rm_wf (child_list ds) \<and>
               fst ` set (child_list ds) = fst ` set (child_inodes t))
      | REMOTE \<Rightarrow> dt_dentries t = None \<and> child_inodes t = []
      | _ \<Rightarrow> False)"

definition table_inodes :: "dentry_table \<Rightarrow> nat set" where
  "table_inodes t = set_option (this_dir_inode t) \<union> snd ` set (child_inodes t)"

text \<open>An open file refers to an inode of the kind its location says.\<close>

definition handle_ok :: "'s client_state \<Rightarrow> file_handler \<Rightarrow> bool" where
  "handle_ok st fh =
     (case fh_loc fh of
        LOCAL \<Rightarrow> (case fh_i fh of None \<Rightarrow> False | Some a \<Rightarrow> a < next_iobj st)
      | REMOTE \<Rightarrow> (case fh_remote_i fh of None \<Rightarrow> False | Some a \<Rightarrow> a < next_iobj st \<and> remote (iobjs st a) \<noteq> None)
      | _ \<Rightarrow> False)"

definition inode_kind :: "iobj \<Rightarrow> bool" where
  "inode_kind i \<longleftrightarrow> (loc (base i) = REMOTE \<longrightarrow> remote i \<noteq> None)"

definition client_ok :: "'s client_state \<Rightarrow> bool" where
  "client_ok st \<longleftrightarrow>
     (\<forall>a < next_iobj st. inode_kind (iobjs st a)) \<and>
     (\<forall>d < next_dtab st. \<forall>a \<in> table_inodes (dtabs st d). a < next_iobj st) \<and>
     rm_wf (dentry_tables st) \<and>
     (\<forall>(ino, d) \<in> set (dentry_tables st). d < next_dtab st \<and> dir_ino (dtabs st d) = ino \<and> table_ready (dtabs st d)) \<and>
     rm_wf (fh_list st) \<and>
     (\<forall>(k, fh) \<in> set (fh_list st). k < next_fh st \<and> fh_no fh = k \<and> handle_ok st fh)"

section \<open>Extension of the heap\<close>

text \<open>Objects stay where they are and what they are: an inode keeps its number and its class, a table
  its directory, and a table that can be used stays so.\<close>

definition evolves :: "'s client_state \<Rightarrow> 's client_state \<Rightarrow> bool" where
  "evolves st st' \<longleftrightarrow>
     next_iobj st \<le> next_iobj st' \<and> next_dtab st \<le> next_dtab st' \<and>
     (\<forall>a < next_iobj st. ino_of st' a = ino_of st a \<and> (remote (iobjs st a) \<noteq> None \<longrightarrow> remote (iobjs st' a) \<noteq> None)) \<and>
     (\<forall>d < next_dtab st. dir_ino (dtabs st' d) = dir_ino (dtabs st d) \<and> dt_loc (dtabs st' d) = dt_loc (dtabs st d) \<and>
        (table_ready (dtabs st d) \<longrightarrow> table_ready (dtabs st' d)))"

lemma evolves_refl [simp]: "evolves st st"
  by (simp add: evolves_def)

lemma evolves_trans: "evolves st st1 \<Longrightarrow> evolves st1 st2 \<Longrightarrow> evolves st st2"
  unfolding evolves_def by (metis (no_types, lifting) order.strict_trans2 order_trans)

section \<open>Kinds of references\<close>

text \<open>\<open>I a\<close>: an inode; \<open>R a\<close>: a remote inode; \<open>D d\<close>: a table that can be used; \<open>Dir d u\<close>: a table
  of directory \<open>u\<close>; \<open>K a u\<close>: the inode has number \<open>u\<close>; \<open>F fh\<close>: an open file. \<open>Absurd\<close> is the kind of what cannot occur: of a null pointer where there is
  none, and of a result that violates a condition.\<close>

datatype kind =
    I nat
  | R nat
  | D nat
  | Dir nat uuid
  | K nat uuid
  | F file_handler
  | Absurd

fun kind_ok :: "'s client_state \<Rightarrow> kind \<Rightarrow> bool" where
  "kind_ok st (I a) = (a < next_iobj st)"
| "kind_ok st (R a) = (a < next_iobj st \<and> remote (iobjs st a) \<noteq> None)"
| "kind_ok st (D d) = (d < next_dtab st \<and> table_ready (dtabs st d))"
| "kind_ok st (Dir d u) = (d < next_dtab st \<and> dir_ino (dtabs st d) = u)"
| "kind_ok st (K a u) = (a < next_iobj st \<and> ino_of st a = u)"
| "kind_ok st (F fh) = handle_ok st fh"
| "kind_ok st Absurd = False"

definition ptr :: "(nat \<Rightarrow> kind) \<Rightarrow> nat option \<Rightarrow> kind set" where
  "ptr k p = (case p of None \<Rightarrow> {Absurd} | Some a \<Rightarrow> {k a})"

lemma ptr_simps [simp]: "ptr k None = {Absurd}" "ptr k (Some a) = {k a}"
  by (simp_all add: ptr_def)

definition fact :: "bool \<Rightarrow> kind set" where
  "fact b = (if b then {} else {Absurd})"

lemma fact_iff [simp]: "k \<in> fact b \<longleftrightarrow> k = Absurd \<and> \<not> b"
  by (simp add: fact_def)

lemma fact_subset [simp]: "fact b \<subseteq> \<Gamma> \<longleftrightarrow> b \<or> Absurd \<in> \<Gamma>"
  by (simp add: fact_def)

lemma handle_ok_evolves:
  assumes "handle_ok st fh" and "evolves st st'"
  shows "handle_ok st' fh"
  using assms by (auto simp: handle_ok_def evolves_def split: option.splits meta_location.splits)

lemma kind_ok_evolves: "kind_ok st k \<Longrightarrow> evolves st st' \<Longrightarrow> kind_ok st' k"
  by (cases k) (auto simp: evolves_def dest: handle_ok_evolves)

section \<open>Judgements\<close>

text \<open>The errors by which the program reports that its own data is inconsistent\<close>

fun internal_error :: "exn \<Rightarrow> bool" where
  "internal_error (Crash m) =
     (m \<in> {''null pointer'', ''null dentry table'', ''null inode'', ''not a remote inode'', ''null new_dir_inode''})"
| "internal_error (Runtime_error m) =
     (m \<in> {''inode casting is failed'', ''Failed to make remote_inode in path_traversal()'',
            ''directory table is corrupted : Can't find leased directory'',
            ''file_handler is corrupted : cannot add file_handler to list'',
            ''file_handler is corrupted : cannot know loc of opened file''})"
| "internal_error e = False"

definition all_ok :: "'s client_state \<Rightarrow> kind set \<Rightarrow> bool" where
  "all_ok st \<Gamma> \<longleftrightarrow> (\<forall>k \<in> \<Gamma>. kind_ok st k)"

definition typed :: "kind set \<Rightarrow> ('a, 's) cprog \<Rightarrow> ('a \<Rightarrow> kind set) \<Rightarrow> bool" where
  "typed \<Gamma> m T \<longleftrightarrow>
     (\<forall>st r st'. client_ok st \<longrightarrow> all_ok st \<Gamma> \<longrightarrow> m st = Some (r, st') \<longrightarrow>
        client_ok st' \<and> evolves st st' \<and> (case r of Inl e \<Rightarrow> \<not> internal_error e | Inr x \<Rightarrow> all_ok st' (T x)))"

lemma all_ok_simps [simp]:
  "all_ok st {}" "all_ok st (insert k \<Gamma>) \<longleftrightarrow> kind_ok st k \<and> all_ok st \<Gamma>" "all_ok st (\<Gamma> \<union> \<Delta>) \<longleftrightarrow> all_ok st \<Gamma> \<and> all_ok st \<Delta>"
  by (auto simp: all_ok_def)

lemma all_ok_fact [simp]: "all_ok st (fact b) \<longleftrightarrow> b"
  by (simp add: fact_def)

lemma all_ok_evolves: "all_ok st \<Gamma> \<Longrightarrow> evolves st st' \<Longrightarrow> all_ok st' \<Gamma>"
  by (auto simp: all_ok_def intro: kind_ok_evolves)

lemma all_ok_subset: "all_ok st \<Gamma> \<Longrightarrow> \<Delta> \<subseteq> \<Gamma> \<Longrightarrow> all_ok st \<Delta>"
  by (auto simp: all_ok_def)

lemma all_okD: "all_ok st \<Gamma> \<Longrightarrow> k \<in> \<Gamma> \<Longrightarrow> kind_ok st k"
  by (auto simp: all_ok_def)

lemma typedI:
  assumes "\<And>st r st'. client_ok st \<Longrightarrow> all_ok st \<Gamma> \<Longrightarrow> m st = Some (r, st') \<Longrightarrow>
    client_ok st' \<and> evolves st st' \<and> (case r of Inl e \<Rightarrow> \<not> internal_error e | Inr x \<Rightarrow> all_ok st' (T x))"
  shows "typed \<Gamma> m T"
  using assms by (auto simp: typed_def)

lemma typedD:
  assumes "typed \<Gamma> m T" and "client_ok st" and "all_ok st \<Gamma>" and "m st = Some (r, st')"
  shows "client_ok st'" and "evolves st st'" and "case r of Inl e \<Rightarrow> \<not> internal_error e | Inr x \<Rightarrow> all_ok st' (T x)"
  using assms by (auto simp: typed_def)

text \<open>A program that inspects the state and goes on as one of several programs\<close>

lemma typed_case:
  assumes "\<And>st. client_ok st \<Longrightarrow> all_ok st \<Gamma> \<Longrightarrow> \<exists>m'. m st = m' st \<and> (\<exists>\<Delta>. all_ok st \<Delta> \<and> typed \<Delta> m' T)"
  shows "typed \<Gamma> m T"
proof (rule typedI)
  fix st r st' assume st: "client_ok st" "all_ok st \<Gamma>" "m st = Some (r, st')"
  then obtain m' \<Delta> where "m st = m' st" "all_ok st \<Delta>" "typed \<Delta> m' T" using assms by blast
  then show "client_ok st' \<and> evolves st st' \<and> (case r of Inl e \<Rightarrow> \<not> internal_error e | Inr x \<Rightarrow> all_ok st' (T x))"
    using typedD [of \<Delta> m' T st r st'] st by auto
qed

lemma typed_sub: "typed \<Gamma> m T \<Longrightarrow> (\<And>x. U x \<subseteq> T x \<union> \<Gamma>) \<Longrightarrow> typed \<Gamma> m U"
proof (rule typedI)
  fix st r st' assume m: "typed \<Gamma> m T" "\<And>x. U x \<subseteq> T x \<union> \<Gamma>" "client_ok st" "all_ok st \<Gamma>" "m st = Some (r, st')"
  have "all_ok st' \<Gamma>" using all_ok_evolves [OF m(4)] typedD(2) [OF m(1,3-5)] .
  then show "client_ok st' \<and> evolves st st' \<and> (case r of Inl e \<Rightarrow> \<not> internal_error e | Inr x \<Rightarrow> all_ok st' (U x))"
    using typedD [OF m(1,3-5)] by (cases r) (auto intro: all_ok_subset [OF _ m(2)])
qed

lemma typed_weaken: "typed \<Delta> m T \<Longrightarrow> \<Delta> \<subseteq> \<Gamma> \<Longrightarrow> typed \<Gamma> m T"
  unfolding typed_def using all_ok_subset by blast

lemma typed_forget: "typed \<Gamma> m T \<Longrightarrow> typed \<Gamma> m (\<lambda>_. {})"
  by (erule typed_sub) simp

section \<open>Rules for the combinators\<close>

named_theorems typing "rules of the type system"

lemma typed_absurd: "Absurd \<in> \<Gamma> \<Longrightarrow> typed \<Gamma> m T"
  by (rule typedI) (auto dest: all_okD)

lemma typed_ret [typing]: "(Absurd \<notin> \<Gamma> \<Longrightarrow> T x \<subseteq> \<Gamma>) \<Longrightarrow> typed \<Gamma> (ret x) T"
  by (rule typedI) (cases "Absurd \<in> \<Gamma>", auto simp: ret_def elim: all_ok_subset dest: all_okD)

lemma typed_throw [typing]: "(internal_error e \<Longrightarrow> Absurd \<in> \<Gamma>) \<Longrightarrow> typed \<Gamma> (throw e) T"
  by (rule typedI) (auto simp: throw_def dest: all_okD)

lemma typed_bnd [typing]:
  assumes "typed \<Gamma> m T" and "\<And>x. typed (\<Gamma> \<union> T x) (f x) U"
  shows "typed \<Gamma> (bnd m f) U"
proof (rule typedI)
  fix st r st' assume st: "client_ok st" "all_ok st \<Gamma>" "bnd m f st = Some (r, st')"
  obtain q st1 where m: "m st = Some (q, st1)" using st(3) by (auto simp: bnd_def split: option.splits)
  note m1 = typedD [OF assms(1) st(1,2) m]
  show "client_ok st' \<and> evolves st st' \<and> (case r of Inl e \<Rightarrow> \<not> internal_error e | Inr x \<Rightarrow> all_ok st' (U x))"
  proof (cases q)
    case (Inl e)
    then show ?thesis using st(3) m m1 by (auto simp: bnd_def)
  next
    case (Inr x)
    then have f: "f x st1 = Some (r, st')" using st(3) m by (simp add: bnd_def)
    have "all_ok st1 (\<Gamma> \<union> T x)" using m1 Inr all_ok_evolves [OF st(2)] by simp
    then show ?thesis using typedD [OF assms(2) m1(1) _ f] evolves_trans [OF m1(2)] by auto
  qed
qed

lemma typed_catch [typing]:
  assumes "typed \<Gamma> m T" and "\<And>e. \<not> internal_error e \<Longrightarrow> typed \<Gamma> (h e) T"
  shows "typed \<Gamma> (catch m h) T"
proof (rule typedI)
  fix st r st' assume st: "client_ok st" "all_ok st \<Gamma>" "catch m h st = Some (r, st')"
  obtain q st1 where m: "m st = Some (q, st1)" using st(3) by (auto simp: catch_def split: option.splits)
  note m1 = typedD [OF assms(1) st(1,2) m]
  show "client_ok st' \<and> evolves st st' \<and> (case r of Inl e \<Rightarrow> \<not> internal_error e | Inr x \<Rightarrow> all_ok st' (T x))"
  proof (cases q)
    case (Inl e)
    then have h: "h e st1 = Some (r, st')" and e: "\<not> internal_error e" using st(3) m m1(3) by (auto simp: catch_def)
    have "all_ok st1 \<Gamma>" using all_ok_evolves [OF st(2) m1(2)] .
    then show ?thesis using typedD [OF assms(2) [OF e] m1(1) _ h] evolves_trans [OF m1(2)] by auto
  next
    case (Inr x)
    then show ?thesis using st(3) m m1 by (auto simp: catch_def)
  qed
qed

lemma typed_if [typing]: "(b \<Longrightarrow> typed \<Gamma> m T) \<Longrightarrow> (\<not> b \<Longrightarrow> typed \<Gamma> n T) \<Longrightarrow> typed \<Gamma> (if b then m else n) T"
  by simp

lemma typed_option [typing]:
  "(p = None \<Longrightarrow> typed \<Gamma> m T) \<Longrightarrow> (\<And>x. p = Some x \<Longrightarrow> typed \<Gamma> (f x) T) \<Longrightarrow> typed \<Gamma> (case p of None \<Rightarrow> m | Some x \<Rightarrow> f x) T"
  by (cases p) simp_all

lemma typed_pair [typing]: "(\<And>a b. p = (a, b) \<Longrightarrow> typed \<Gamma> (f a b) T) \<Longrightarrow> typed \<Gamma> (case p of (a, b) \<Rightarrow> f a b) T"
  by (cases p) simp

lemma typed_let [typing]: "(\<And>y. y = x \<Longrightarrow> typed \<Gamma> (f y) T) \<Longrightarrow> typed \<Gamma> (let y = x in f y) T"
  by (simp add: Let_def)

lemma typed_loc [typing]:
  "(l = LOCAL \<Longrightarrow> typed \<Gamma> m T) \<Longrightarrow> (l = REMOTE \<Longrightarrow> typed \<Gamma> n T) \<Longrightarrow> (l \<notin> {LOCAL, REMOTE} \<Longrightarrow> typed \<Gamma> b T) \<Longrightarrow>
   typed \<Gamma> (case l of LOCAL \<Rightarrow> m | REMOTE \<Rightarrow> n | _ \<Rightarrow> b) T"
  by (cases l) simp_all

section \<open>Rules for the primitives\<close>

text \<open>Changes outside the heap and the tables\<close>

lemma handle_ok_outside [simp]:
  "handle_ok (st\<lparr>sys := s\<rparr>) fh = handle_ok st fh" "handle_ok (st\<lparr>jrnl := j\<rparr>) fh = handle_ok st fh"
  "handle_ok (st\<lparr>leases := t\<rparr>) fh = handle_ok st fh" "handle_ok (st\<lparr>fh_list := l\<rparr>) fh = handle_ok st fh"
  "handle_ok (st\<lparr>next_fh := n\<rparr>) fh = handle_ok st fh" "handle_ok (st\<lparr>dtabs := ds\<rparr>) fh = handle_ok st fh"
  "handle_ok (st\<lparr>dentry_tables := ts\<rparr>) fh = handle_ok st fh" "handle_ok (st\<lparr>next_dtab := n\<rparr>) fh = handle_ok st fh"
  by (simp_all add: handle_ok_def split: meta_location.split option.split)

lemma client_ok_outside [simp]:
  "client_ok (st\<lparr>sys := s\<rparr>) = client_ok st" "client_ok (st\<lparr>jrnl := j\<rparr>) = client_ok st" "client_ok (st\<lparr>leases := t\<rparr>) = client_ok st"
  by (simp_all add: client_ok_def)

lemma evolves_outside [simp]:
  "evolves st (st\<lparr>sys := s\<rparr>)" "evolves st (st\<lparr>jrnl := j\<rparr>)" "evolves st (st\<lparr>leases := t\<rparr>)" "evolves st (st\<lparr>leases := t, sys := s\<rparr>)"
  by (simp_all add: evolves_def)

lemma typed_gets [typing]: "typed \<Gamma> (gets f) (\<lambda>_. {})"
  by (rule typedI) (auto simp: gets_def)

lemma typed_gets_ino: "I a \<in> \<Gamma> \<Longrightarrow> typed \<Gamma> (gets (\<lambda>st. ino_of st a)) (\<lambda>u. {K a u})"
  by (rule typedI) (auto simp: gets_def dest: all_okD)

lemma typed_from_result: "(\<And>e. r = Inl e \<Longrightarrow> \<not> internal_error e) \<Longrightarrow> typed \<Gamma> (from_result r) (\<lambda>_. {})"
  by (rule typedI) (auto simp: from_result_def split: sum.splits)

lemma typed_sys_call [typing]: "typed \<Gamma> (sys_call f) (\<lambda>_. {})"
  by (rule typedI) (auto simp: sys_call_def split: prod.splits)

text \<open>Programs below the client throw none of its internal errors.\<close>

definition calm :: "('a, 's) prog \<Rightarrow> bool" where
  "calm m \<longleftrightarrow> (\<forall>s e s'. m s = Some (Inl e, s') \<longrightarrow> \<not> internal_error e)"

lemma typed_on_sys [typing]: "calm m \<Longrightarrow> typed \<Gamma> (on_sys m) (\<lambda>_. {})"
  by (rule typedI) (auto simp: on_sys_def zoom_def calm_def split: sum.splits)

lemma typed_on_journal [typing]: "calm m \<Longrightarrow> typed \<Gamma> (on_journal m) (\<lambda>_. {})"
  by (rule typedI) (auto simp: on_journal_def zoom_def calm_def split: sum.splits)

lemma typed_deref [typing]: "ptr k p \<subseteq> \<Gamma> \<Longrightarrow> typed \<Gamma> (deref p) (\<lambda>a. {k a})"
  by (cases p) (auto simp: deref_def intro!: typed_ret typed_throw)

lemma typed_new_iobj:
  assumes "inode_kind i"
  shows "typed \<Gamma> (new_iobj i) (\<lambda>a. {I a, K a (i_ino (core (base i)))} \<union> (if remote i = None then {} else {R a}))"
proof (rule typedI)
  fix st r st' assume st: "client_ok st" "all_ok st \<Gamma>" "new_iobj i st = Some (r, st')"
  then have st': "st' = st\<lparr>iobjs := (iobjs st)(next_iobj st := i), next_iobj := Suc (next_iobj st)\<rparr>" "r = Inr (next_iobj st)"
    by (simp_all add: new_iobj_def)
  then have ev: "evolves st st'" by (simp add: evolves_def)
  have "client_ok st'"
    using st(1) assms handle_ok_evolves [OF _ ev] unfolding st'(1) client_ok_def by (fastforce simp: less_Suc_eq)
  then show "client_ok st' \<and> evolves st st' \<and>
    (case r of Inl e \<Rightarrow> \<not> internal_error e | Inr a \<Rightarrow> all_ok st' ({I a, K a (i_ino (core (base i)))} \<union> (if remote i = None then {} else {R a})))"
    using ev by (simp add: st')
qed

lemma typed_new_plain [typing]:
  "loc i \<noteq> REMOTE \<Longrightarrow> typed \<Gamma> (new_iobj \<lparr>base = i, remote = None\<rparr>) (\<lambda>a. {I a, K a (i_ino (core i))})"
  by (rule typed_sub [OF typed_new_iobj]) (auto simp: inode_kind_def)

lemma typed_new_remote [typing]:
  "typed \<Gamma> (new_iobj (remote_inode_new ip u n b)) (\<lambda>a. {I a, R a})"
  "typed \<Gamma> (new_iobj ((remote_inode_new ip u n b)\<lparr>base := i\<rparr>)) (\<lambda>a. {I a, R a})"
  by (rule typed_sub [OF typed_new_iobj]; auto simp: inode_kind_def remote_inode_new_def)+

text \<open>A change of an inode that keeps its number and does not make it remote\<close>

lemma typed_upd_inode [typing]:
  assumes "I a \<in> \<Gamma>" and "\<And>i. i_ino (core (f i)) = i_ino (core i)" and "\<And>i. loc (f i) = REMOTE \<Longrightarrow> loc i = REMOTE"
  shows "typed \<Gamma> (upd_inode a f) (\<lambda>_. {})"
proof (rule typedI)
  fix st r st' assume st: "client_ok st" "all_ok st \<Gamma>" "upd_inode a f st = Some (r, st')"
  then have st': "st' = st\<lparr>iobjs := (iobjs st)(a := (iobjs st a)\<lparr>base := f (the_inode st a)\<rparr>)\<rparr>"
    by (simp add: upd_inode_def modify_def)
  have ev: "evolves st st'" using assms(2) by (simp add: evolves_def st')
  have "client_ok st'"
    using st(1) assms(3) handle_ok_evolves [OF _ ev] unfolding st' client_ok_def by (fastforce simp: inode_kind_def)
  then show "client_ok st' \<and> evolves st st' \<and> (case r of Inl e \<Rightarrow> \<not> internal_error e | Inr x \<Rightarrow> all_ok st' {})"
    using ev st(3) by (auto simp: upd_inode_def modify_def)
qed

end
