(* ===== verification/Client_Calm.thy ===== *)
theory Client_Calm
  imports Client_Types
begin

text \<open>
  The parts below the operations, that is the pools, the object formats, the journal and the path
  functions, throw none of the internal errors of a client: every exception they raise is one of
  their own.
\<close>

lemma calm_lift: "(\<And>s e s'. m s = (Inl e, s') \<Longrightarrow> \<not> internal_error e) \<Longrightarrow> calm (lift m)"
  by (simp add: calm_def lift_def)

section \<open>The pools\<close>

lemma read_obj_calm: "read_obj X k n off s = (Inl e, s') \<Longrightarrow> \<not> internal_error e"
  by (auto simp: read_obj_def split: prod.splits if_splits)

lemma write_obj_calm: "write_obj X k val off s = (Inl e, s') \<Longrightarrow> \<not> internal_error e"
  by (auto simp: write_obj_def split: prod.splits if_splits)

lemma truncate_obj_calm: "truncate_obj X k n s = (Inl e, s') \<Longrightarrow> \<not> internal_error e"
  by (auto simp: truncate_obj_def split: prod.splits if_splits)

lemma read_loop_calm: "read_loop X k c stop val s = (Inl e, bs, s') \<Longrightarrow> \<not> internal_error e"
proof (induction X k c stop val s rule: read_loop.induct)
  case (1 X k c stop val s)
  show ?case
  proof (cases "c < stop")
    case False
    then show ?thesis using "1.prems" by (simp add: read_loop.simps)
  next
    case True
    obtain r s1 where r: "read_obj X (obj_key k (drop_bit OBJ_BITS c)) (chunk_len c stop) (mask_lo c) s = (r, s1)" by fastforce
    show ?thesis
    proof (cases r)
      case (Inl x)
      then have "e = x \<or> e = No_such_object (length val)"
        using "1.prems" True r by (cases x) (auto simp: read_loop.simps [of X k c])
      then show ?thesis using read_obj_calm [OF r [unfolded Inl]] by auto
    next
      case (Inr b)
      then show ?thesis using 1(1) [OF True r [symmetric] Inr] "1.prems" True r by (simp add: read_loop.simps [of X k c])
    qed
  qed
qed

lemma rados_read_calm: "rados_read X c k n off s = (Inl e, bs, s') \<Longrightarrow> \<not> internal_error e"
  unfolding rados_read_def by (rule read_loop_calm)

lemma write_loop_calm: "write_loop X k c stop val acc s = (Inl e, s') \<Longrightarrow> \<not> internal_error e"
proof (induction X k c stop val acc s rule: write_loop.induct)
  case (1 X k c stop val acc s)
  show ?case
    using "1.prems" write_obj_calm "1.IH" by (subst (asm) write_loop.simps) (fastforce simp: Let_def split: if_splits prod.splits sum.splits)
qed

lemma zerofill_loop_calm: "zerofill_loop X k c stop zeros s = (Inl e, s') \<Longrightarrow> \<not> internal_error e"
proof (induction X k c stop zeros s rule: zerofill_loop.induct)
  case (1 X k c stop zeros s)
  show ?case
    using "1.prems" write_obj_calm "1.IH" by (subst (asm) zerofill_loop.simps) (fastforce split: if_splits prod.splits sum.splits)
qed

lemma zerofill_calm: "zerofill X c k n off s = (Inl e, s') \<Longrightarrow> \<not> internal_error e"
  unfolding zerofill_def by (rule zerofill_loop_calm)

lemma lb_scan_calm:
  assumes "\<not> internal_error (Runtime_error msg)"
  shows "lb_scan X k msg n s = (Inl e, s') \<Longrightarrow> \<not> internal_error e"
proof (induction n arbitrary: s)
  case (Suc n)
  then show ?case
    using assms by (subst (asm) (2) lb_scan.simps) (auto simp del: internal_error.simps(1,2) split: prod.splits if_splits)
qed (use assms in \<open>auto simp: lb_scan.simps [of _ _ _ 0] simp del: internal_error.simps(1,2) split: prod.splits if_splits\<close>)

lemmas lb_scan_calms =
  lb_scan_calm [where msg = "''rados_io::write() failed (stat() failed)''", simplified]
  lb_scan_calm [where msg = "''rados_io::truncate() failed (stat() failed)''", simplified]

lemma rados_write_calm: "rados_write X c k val off s = (Inl e, s') \<Longrightarrow> \<not> internal_error e"
  unfolding rados_write_def Let_def
  by (auto simp del: internal_error.simps(1,2) split: prod.splits sum.splits if_splits dest: lb_scan_calms zerofill_calm write_loop_calm)

lemma rados_exist_calm: "rados_exist X c k s = (Inl e, s') \<Longrightarrow> \<not> internal_error e"
  by (auto simp: rados_exist_def split: prod.splits if_splits)

lemma remove_loop_calm: "remove_loop X k n s = Some (r, s') \<Longrightarrow> r = Inl e \<Longrightarrow> \<not> internal_error e"
proof (induction X k n s "(r, s')" rule: remove_loop.raw_induct [rotated 1, consumes 1])
  case (1 remove_loop X k n s)
  then show ?case by (auto split: prod.splits if_splits)
qed

lemma trunc_tail_loop_calm: "trunc_tail_loop X k n s = Some (r, s') \<Longrightarrow> r \<noteq> Inl e"
proof (induction X k n s "(r, s')" rule: trunc_tail_loop.raw_induct [rotated 1, consumes 1])
  case (1 trunc_tail_loop X k n s)
  then show ?case by (auto split: prod.splits if_splits)
qed

lemma calm_remove: "calm (rados_remove X c k)"
  unfolding calm_def rados_remove_def by (auto dest: remove_loop_calm)

lemma calm_truncate: "calm (rados_truncate X c k n)"
  unfolding calm_def rados_truncate_def Let_def
  by (auto simp del: internal_error.simps(1,2) split: prod.splits sum.splits option.splits if_splits
      dest: lb_scan_calms zerofill_calm truncate_obj_calm trunc_tail_loop_calm)

lemma calm_write: "calm (lift (rados_write X c k val off))"
  by (rule calm_lift) (rule rados_write_calm)

lemma calm_exist: "calm (lift (rados_exist X c k))"
  by (rule calm_lift) (rule rados_exist_calm)

section \<open>Objects\<close>

lemma inode_serialize_calm: "inode_serialize i = Inl e \<Longrightarrow> \<not> internal_error e"
  by (auto simp: inode_serialize_def Let_def split: if_splits option.splits)

lemma calm_inode_load: "calm (lift (inode_load X ino))"
proof (rule calm_lift)
  fix s e s' assume "inode_load X ino s = (Inl e, s')"
  then show "\<not> internal_error e"
    by (auto simp: inode_load_def inode_deserialize_def Let_def simp del: internal_error.simps(1,2) split: prod.splits sum.splits exn.splits if_splits
        dest: rados_read_calm)
qed

lemma calm_inode_sync: "calm (lift (inode_sync X i))"
proof (rule calm_lift)
  fix s e s' assume "inode_sync X i s = (Inl e, s')"
  then show "\<not> internal_error e"
    by (auto simp: inode_sync_def simp del: internal_error.simps(1,2) split: prod.splits sum.splits dest: rados_write_calm inode_serialize_calm)
qed

lemma deserialize_children_calm: "deserialize_children n raw m = Inl e \<Longrightarrow> \<not> internal_error e"
  by (induction n raw m rule: deserialize_children.induct) (auto simp: Let_def split: if_splits)

lemma calm_dentry_new: "calm (lift (dentry_new X ino mkdir))"
proof (rule calm_lift)
  fix s e s' assume "dentry_new X ino mkdir s = (Inl e, s')"
  then show "\<not> internal_error e"
    by (auto simp: dentry_new_def dentry_deserialize_def Let_def simp del: internal_error.simps(1,2) split: prod.splits sum.splits exn.splits if_splits
        dest: rados_read_calm deserialize_children_calm) auto
qed

lemma calm_dentry_sync: "calm (lift (dentry_sync X d))"
proof (rule calm_lift)
  fix s e s' assume "dentry_sync X d s = (Inl e, s')"
  then show "\<not> internal_error e"
    by (auto simp: dentry_sync_def Let_def simp del: internal_error.simps(1,2) split: prod.splits sum.splits if_splits dest: rados_write_calm)
qed

lemma permission_check_calm: "permission_check u g i msk = Inl e \<Longrightarrow> \<not> internal_error e"
  by (auto simp: permission_check_def Let_def split: if_splits)

section \<open>Paths and messages\<close>

lemma get_parent_dir_path_calm: "get_parent_dir_path p = Inl e \<Longrightarrow> \<not> internal_error e"
  by (auto simp: get_parent_dir_path_def split: if_splits option.splits)

lemma filename_scan_calm: "filename_scan p i = Inl e \<Longrightarrow> \<not> internal_error e"
  by (induction i) (auto simp: filename_scan.simps split: if_splits)

lemma get_filename_from_path_calm: "get_filename_from_path p = Inl e \<Longrightarrow> \<not> internal_error e"
  by (auto simp: get_filename_from_path_def simp del: internal_error.simps(1,2) split: if_splits sum.splits dest: filename_scan_calm) auto

lemma paradox_check_calm: "paradox_check old new = Inl e \<Longrightarrow> \<not> internal_error e"
  by (auto simp: paradox_check_def split: if_splits)

lemma rename_message_calm:
  "inode_to_rename_src_response i m = Inl e \<Longrightarrow> \<not> internal_error e" "inode_to_rename_dst_request i m = Inl e \<Longrightarrow> \<not> internal_error e"
  by (auto simp: inode_to_rename_dst_request_def inode_to_rename_src_response_def Let_def split: if_splits option.splits)

section \<open>The journal\<close>

lemma journal_apply_error:
  "journal_apply ino f j = Some (r, j') \<Longrightarrow> r = Inl e \<Longrightarrow> (\<And>tx e tx'. f tx = (Inl e, tx') \<Longrightarrow> \<not> internal_error e) \<Longrightarrow> \<not> internal_error e"
proof (induction ino f j "(r, j')" rule: journal_apply.raw_induct [rotated 1, consumes 1])
  case (1 journal_apply ino f j)
  then show ?case by (auto simp: Let_def simp del: internal_error.simps(1,2) split: prod.splits sum.splits if_splits)
qed

lemma journal_apply_calm: "(\<And>tx e tx'. f tx = (Inl e, tx') \<Longrightarrow> \<not> internal_error e) \<Longrightarrow> calm (journal_apply ino f)"
  unfolding calm_def using journal_apply_error by blast

lemma put_dentry_calm: "put_dentry msg name alive ino tx = Inl e \<Longrightarrow> \<not> internal_error e"
  by (auto simp: put_dentry_def split: prod.splits bool.splits option.splits if_splits)

lemma calm_journal:
  "calm (journal_mkself i)" "calm (journal_rmself u)" "calm (journal_chself i)" "calm (journal_mkdir i n u)" "calm (journal_rmdir i n u)"
  "calm (journal_mkreg i n f)" "calm (journal_rmreg i n f)" "calm (journal_chreg u i)"
  unfolding journal_mkself_def journal_rmself_def journal_chself_def journal_mkdir_def journal_rmdir_def journal_mkreg_def
    journal_rmreg_def journal_chreg_def
  by (rule journal_apply_calm, auto simp: tx_mkself_def tx_rmself_def tx_chself_def tx_mkdir_def tx_rmdir_def tx_mkreg_def tx_rmreg_def tx_chreg_def Let_def
      simp del: internal_error.simps(1,2) split: if_splits sum.splits option.splits dest: put_dentry_calm)+

lemmas calm_rules = calm_remove calm_truncate calm_write calm_exist calm_inode_load calm_inode_sync calm_dentry_new calm_dentry_sync calm_journal
lemmas calm_results = get_parent_dir_path_calm get_filename_from_path_calm paradox_check_calm rename_message_calm permission_check_calm

lemma typed_results [typing]:
  "typed \<Gamma> (from_result (get_parent_dir_path p)) (\<lambda>_. {})" "typed \<Gamma> (from_result (get_filename_from_path p)) (\<lambda>_. {})"
  "typed \<Gamma> (from_result (paradox_check p q)) (\<lambda>_. {})" "typed \<Gamma> (from_result (permission_check u g i msk)) (\<lambda>_. {})"
  "typed \<Gamma> (from_result (inode_to_rename_src_response i m)) (\<lambda>_. {})" "typed \<Gamma> (from_result (inode_to_rename_dst_request i m)) (\<lambda>_. {})"
  by (rule typed_from_result, erule calm_results)+

end
