(* ===== verification/Table_Types.thy ===== *)
theory Table_Types
  imports Client_Calm
begin

text \<open>
  Typing of the tables in memory: dentry tables, the table of directories and the handles of open
  files (\<open>client/in_memory/\<close>, \<open>client/meta/file_handler.cpp\<close>).
\<close>

section \<open>Changes of one table\<close>

lemma table_upd:
  assumes "client_ok st" and "d < next_dtab st" and "dir_ino t = dir_ino (dtabs st d)" and "dt_loc t = dt_loc (dtabs st d)"
    and "table_ready (dtabs st d) \<Longrightarrow> table_ready t" and "\<And>a. a \<in> table_inodes t \<Longrightarrow> a < next_iobj st"
  shows "client_ok (st\<lparr>dtabs := (dtabs st)(d := t)\<rparr>)" and "evolves st (st\<lparr>dtabs := (dtabs st)(d := t)\<rparr>)"
proof -
  show "evolves st (st\<lparr>dtabs := (dtabs st)(d := t)\<rparr>)" using assms(3-5) by (simp add: evolves_def)
  show "client_ok (st\<lparr>dtabs := (dtabs st)(d := t)\<rparr>)"
    using assms by (auto simp: client_ok_def)
qed

lemma client_ok_inodes: "client_ok st \<Longrightarrow> d < next_dtab st \<Longrightarrow> a \<in> table_inodes (dtabs st d) \<Longrightarrow> a < next_iobj st"
  by (auto simp: client_ok_def)

lemma names_dom: "fst ` set m = dom (map_of m)"
  by (simp add: dom_map_of_conv_image_fst)

lemma rm_insert_names: "fst ` set (fst (rm_insert k v m)) = insert k (fst ` set m)"
  unfolding names_dom by (auto simp: rm_insert_def map_of_snoc split: option.split)

lemma rm_insert_wf: "rm_wf m \<Longrightarrow> rm_wf (fst (rm_insert k v m))"
  by (auto simp: rm_insert_def map_of_eq_None_iff split: option.split)

lemma rm_insert_values: "snd ` set (fst (rm_insert k v m)) \<subseteq> insert v (snd ` set m)"
  by (auto simp: rm_insert_def split: option.split)

lemma rm_erase_names: "fst ` set (rm_erase k m) = fst ` set m - {k}"
  unfolding names_dom by (auto simp: rm_find_erase split: if_splits)

lemma rm_erase_subset: "x \<in> set (rm_erase k m) \<Longrightarrow> x \<in> set m"
  by (auto simp: AList.delete_eq)

lemma rm_erase_values: "snd ` set (rm_erase k m) \<subseteq> snd ` set m"
  by (auto simp: AList.delete_eq)

lemma add_child_names: "fst ` set (child_list (add_child n u ds)) = insert n (fst ` set (child_list ds))"
  unfolding names_dom by (simp add: add_child_map)

lemma delete_child_names: "fst ` set (child_list (delete_child n ds)) = fst ` set (child_list ds) - {n}"
  unfolding names_dom by (simp add: delete_child_map)

lemma typed_create_child_inode [typing]:
  assumes "D d \<in> \<Gamma>" and "I i \<in> \<Gamma>"
  shows "typed \<Gamma> (create_child_inode d name i) (\<lambda>_. {})"
proof (rule typedI)
  fix st r st' assume st: "client_ok st" "all_ok st \<Gamma>" "create_child_inode d name i st = Some (r, st')"
  have d: "d < next_dtab st" "table_ready (dtabs st d)" and i: "i < next_iobj st"
    using all_okD [OF st(2) assms(1)] all_okD [OF st(2) assms(2)] by simp_all
  show "client_ok st' \<and> evolves st st' \<and> (case r of Inl e \<Rightarrow> \<not> internal_error e | Inr x \<Rightarrow> all_ok st' {})"
  proof (cases "snd (rm_insert name i (child_inodes (dtabs st d)))")
    case False
    then show ?thesis using st(1,3) by (auto simp: create_child_inode_def split: prod.splits)
  next
    case True
    show ?thesis
    proof (cases "dt_dentries (dtabs st d)")
      case None
      then show ?thesis using st(1,3) True by (auto simp: create_child_inode_def split: prod.splits)
    next
      case (Some ds)
      let ?m = "fst (rm_insert name i (child_inodes (dtabs st d)))"
      let ?t = "(dtabs st d)\<lparr>child_inodes := ?m, dt_dentries := Some (add_child name (ino_of st i) ds)\<rparr>"
      have st': "st' = st\<lparr>dtabs := (dtabs st)(d := ?t)\<rparr>" "r = Inr 0"
        using st(3) True Some by (auto simp: create_child_inode_def upd_dtab_def ret_def split: prod.splits)
      have "table_ready ?t"
        using d(2) Some by (auto simp: table_ready_def rm_insert_names rm_insert_wf add_child_names rm_wf_add_child split: meta_location.splits)
      moreover have "a < next_iobj st" if "a \<in> table_inodes ?t" for a
      proof -
        have "a = i \<or> a \<in> table_inodes (dtabs st d)" using that rm_insert_values [of name i] by (auto simp: table_inodes_def)
        then show ?thesis using i client_ok_inodes [OF st(1) d(1)] by blast
      qed
      ultimately show ?thesis using table_upd [OF st(1) d(1), of ?t] by (auto simp: st')
    qed
  qed
qed

lemma typed_delete_child_inode [typing]:
  assumes "D d \<in> \<Gamma>"
  shows "typed \<Gamma> (delete_child_inode d name) (\<lambda>_. {})"
proof (rule typedI)
  fix st r st' assume st: "client_ok st" "all_ok st \<Gamma>" "delete_child_inode d name st = Some (r, st')"
  have d: "d < next_dtab st" "table_ready (dtabs st d)" using all_okD [OF st(2) assms] by simp_all
  show "client_ok st' \<and> evolves st st' \<and> (case r of Inl e \<Rightarrow> \<not> internal_error e | Inr x \<Rightarrow> all_ok st' {})"
  proof (cases "rm_find (child_inodes (dtabs st d)) name = None \<or> dt_dentries (dtabs st d) = None")
    case True
    then show ?thesis using st(1,3) by (auto simp: delete_child_inode_def split: option.splits)
  next
    case False
    then obtain a ds where a: "rm_find (child_inodes (dtabs st d)) name = Some a" "dt_dentries (dtabs st d) = Some ds" by auto
    let ?t = "(dtabs st d)\<lparr>child_inodes := rm_erase name (child_inodes (dtabs st d)), dt_dentries := Some (delete_child name ds)\<rparr>"
    have st': "st' = st\<lparr>dtabs := (dtabs st)(d := ?t)\<rparr>" "r = Inr 0"
      using st(3) a by (auto simp: delete_child_inode_def upd_dtab_def ret_def)
    have "table_ready ?t"
      using d(2) a(2) by (auto simp: table_ready_def rm_erase_names rm_wf_erase delete_child_names rm_wf_delete_child split: meta_location.splits)
    moreover have "x < next_iobj st" if "x \<in> table_inodes ?t" for x
    proof -
      have "x \<in> table_inodes (dtabs st d)" using that rm_erase_values [of name "child_inodes (dtabs st d)"] by (auto simp: table_inodes_def)
      then show ?thesis by (rule client_ok_inodes [OF st(1) d(1)])
    qed
    ultimately show ?thesis using table_upd [OF st(1) d(1), of ?t] by (auto simp: st')
  qed
qed

section \<open>Lookups\<close>

lemma set_loc_kind [simp]: "loc (set_loc l i) = l" "i_ino (core (set_loc l i)) = i_ino (core i)"
  by (simp_all add: set_loc_def)

lemma typed_caseI:
  assumes "m st = m' st" and "all_ok st \<Delta>" and "typed \<Delta> m' T"
  shows "\<exists>m'. m st = m' st \<and> (\<exists>\<Delta>. all_ok st \<Delta> \<and> typed \<Delta> m' T)"
  using assms by blast

lemma table_ready_loc: "table_ready t \<Longrightarrow> dt_loc t = LOCAL \<and> this_dir_inode t \<noteq> None \<or> dt_loc t = REMOTE"
  by (auto simp: table_ready_def split: meta_location.splits)

lemma typed_get_child_inode [typing]:
  assumes "D d \<in> \<Gamma>"
  shows "typed \<Gamma> (get_child_inode d name u) (\<lambda>p. ptr I p)"
proof (rule typed_case)
  fix st assume st: "client_ok st" "all_ok st \<Gamma>"
  have d: "d < next_dtab st" "table_ready (dtabs st d)" using all_okD [OF st(2) assms] by simp_all
  let ?r = "remote_inode_new (leader_ip (dtabs st d)) (dir_ino (dtabs st d)) name False"
  consider "dt_loc (dtabs st d) = LOCAL" "rm_find (child_inodes (dtabs st d)) name = None"
    | a where "dt_loc (dtabs st d) = LOCAL" "rm_find (child_inodes (dtabs st d)) name = Some a" | "dt_loc (dtabs st d) = REMOTE"
    using table_ready_loc [OF d(2)] by (cases "rm_find (child_inodes (dtabs st d)) name") auto
  then show "\<exists>m'. get_child_inode d name u st = m' st \<and> (\<exists>\<Delta>. all_ok st \<Delta> \<and> typed \<Delta> m' (\<lambda>p. ptr I p))"
  proof cases
    case 1
    then show ?thesis by (intro typed_caseI [of _ _ "throw No_entry" "{}"]) (auto simp: get_child_inode_def throw_def intro!: typing)
  next
    case (2 a)
    then have "a \<in> table_inodes (dtabs st d)" by (force simp: table_inodes_def dest: map_of_SomeD)
    then have "a < next_iobj st" by (rule client_ok_inodes [OF st(1) d(1)])
    then show ?thesis using 2
      by (intro typed_caseI [of _ _ "bnd (upd_inode a (set_loc LOCAL)) (\<lambda>_. ret (Some a))" "{I a}"])
        (auto simp: get_child_inode_def intro!: typing)
  next
    case 3
    then show ?thesis
      by (intro typed_caseI [of _ _ "bnd (new_iobj (?r\<lparr>base := set_loc REMOTE (set_ino u (base ?r))\<rparr>)) (\<lambda>a. ret (Some a))" "{}"])
        (auto simp: get_child_inode_def Let_def intro!: typing)
  qed
qed

lemma typed_get_this_dir_inode [typing]:
  assumes "D d \<in> \<Gamma>"
  shows "typed \<Gamma> (get_this_dir_inode d) (\<lambda>p. ptr I p)"
proof (rule typed_case)
  fix st assume st: "client_ok st" "all_ok st \<Gamma>"
  have d: "d < next_dtab st" "table_ready (dtabs st d)" using all_okD [OF st(2) assms] by simp_all
  let ?u = "dir_ino (dtabs st d)"
  let ?r = "remote_inode_new (leader_ip (dtabs st d)) ?u [] True"
  consider a where "dt_loc (dtabs st d) = LOCAL" "this_dir_inode (dtabs st d) = Some a" | "dt_loc (dtabs st d) = REMOTE"
    using table_ready_loc [OF d(2)] by auto
  then show "\<exists>m'. get_this_dir_inode d st = m' st \<and> (\<exists>\<Delta>. all_ok st \<Delta> \<and> typed \<Delta> m' (\<lambda>p. ptr I p))"
  proof cases
    case (1 a)
    then have "a < next_iobj st" by (intro client_ok_inodes [OF st(1) d(1)]) (simp add: table_inodes_def)
    then show ?thesis using 1
      by (intro typed_caseI [of _ _ "ret (Some a)" "{I a}"]) (auto simp: get_this_dir_inode_def ret_def intro!: typing)
  next
    case 2
    then show ?thesis
      by (intro typed_caseI [of _ _ "bnd (new_iobj (?r\<lparr>base := set_loc REMOTE (set_ino ?u (base ?r))\<rparr>)) (\<lambda>a. ret (Some a))" "{}"])
        (auto simp: get_this_dir_inode_def Let_def intro!: typing)
  qed
qed

lemma typed_rpc_lookups [typing]:
  "typed \<Gamma> (rpc_check_child_inode E ad u n) (\<lambda>_. {})" "typed \<Gamma> (rpc_get_mode E ad u n) (\<lambda>_. {})"
  "typed \<Gamma> (rpc_permission_check E ad u n msk b) (\<lambda>_. {})"
  unfolding rpc_check_child_inode_def rpc_get_mode_def rpc_permission_check_def by (auto intro!: typing)

lemma typed_check_child_inode [typing]: "typed \<Gamma> (check_child_inode E d name) (\<lambda>_. {})"
proof (rule typed_case)
  fix st :: "'a client_state" assume "all_ok st \<Gamma>"
  let ?t = "dtabs st d"
  have rpc: "\<exists>m'. rpc_check_child_inode E ip u n st = m' st \<and> (\<exists>\<Delta>. all_ok st \<Delta> \<and> typed \<Delta> m' (\<lambda>_. {}))" for ip u n
    by (rule typed_caseI [of _ _ "rpc_check_child_inode E ip u n" "{}"]) (auto intro: typing)
  have res: "\<exists>m'. Some (r, st) = m' st \<and> (\<exists>\<Delta>. all_ok st \<Delta> \<and> typed \<Delta> m' (\<lambda>_. {}))"
    if "\<And>e. r = Inl e \<Longrightarrow> \<not> internal_error e" for r :: "exn + 'b"
    by (rule exI [of _ "from_result r"]) (auto simp: from_result_def intro!: typed_from_result that exI [of _ "{}"])
  show "\<exists>m'. check_child_inode E d name st = m' st \<and> (\<exists>\<Delta>. all_ok st \<Delta> \<and> typed \<Delta> m' (\<lambda>_. {}))"
    using rpc by (auto simp: check_child_inode_def intro!: res split: meta_location.split option.split)
qed

lemma typed_get_mode [typing]:
  assumes "I a \<in> \<Gamma>"
  shows "typed \<Gamma> (get_mode E a) (\<lambda>_. {})"
proof (rule typed_case)
  fix st :: "'a client_state" assume st: "client_ok st" "all_ok st \<Gamma>"
  show "\<exists>m'. get_mode E a st = m' st \<and> (\<exists>\<Delta>. all_ok st \<Delta> \<and> typed \<Delta> m' (\<lambda>_. {}))"
  proof (cases "remote (iobjs st a)")
    case None
    then show ?thesis
      by (intro typed_caseI [of _ _ "ret (i_mode (core (the_inode st a)))" "{}"]) (auto simp: get_mode_def ret_def intro!: typing)
  next
    case (Some r)
    then show ?thesis using st(2) assms
      by (intro typed_caseI [of _ _ "bnd (rpc_get_mode E (r_leader_ip r) (r_dentry_table_ino r) (r_file_name r)) (\<lambda>m.
            bnd (upd_inode a (set_mode m)) (\<lambda>_. ret m))" \<Gamma>])
        (auto simp: get_mode_def set_mode_def intro!: typing)
  qed
qed

lemma typed_inode_permission_check [typing]: "typed \<Gamma> (inode_permission_check E a msk) (\<lambda>_. {})"
proof (rule typed_case)
  fix st :: "'a client_state" assume st: "all_ok st \<Gamma>"
  let ?c = "permission_check (client_uid (this_client st)) (client_gid (this_client st)) (the_inode st a) msk"
  show "\<exists>m'. inode_permission_check E a msk st = m' st \<and> (\<exists>\<Delta>. all_ok st \<Delta> \<and> typed \<Delta> m' (\<lambda>_. {}))"
  proof (cases "remote (iobjs st a)")
    case None
    then show ?thesis
      by (intro typed_caseI [of _ _ "from_result ?c" "{}"])
        (auto simp: inode_permission_check_def from_result_def intro!: typing)
  next
    case (Some r)
    then show ?thesis
      by (intro typed_caseI [of _ _ "rpc_permission_check E (r_leader_ip r) (r_dentry_table_ino r) (r_file_name r) msk (r_target_is_parent r)" "{}"])
        (auto simp: inode_permission_check_def intro!: typing)
  qed
qed

text \<open>A program that only reads\<close>

lemma typed_reader:
  assumes "\<And>st. \<exists>r. m st = Some (r, st) \<and> (\<forall>e. r = Inl e \<longrightarrow> \<not> internal_error e)"
  shows "typed \<Gamma> m (\<lambda>_. {})"
proof (rule typedI)
  fix st r st' assume "client_ok st" "m st = Some (r, st')"
  then show "client_ok st' \<and> evolves st st' \<and> (case r of Inl e \<Rightarrow> \<not> internal_error e | Inr x \<Rightarrow> all_ok st' {})"
    using assms [of st] by (auto split: sum.split)
qed

lemma typed_table_readers [typing]:
  "typed \<Gamma> (table_fill_filler d) (\<lambda>_. {})" "typed \<Gamma> (table_get_child_num d) (\<lambda>_. {})"
  by (rule typed_reader, auto simp: table_fill_filler_def table_get_child_num_def split: option.split)+

section \<open>Open files\<close>

lemma typed_get_file_handler [typing]: "typed \<Gamma> (get_file_handler k) (\<lambda>fh. {F fh})"
  by (rule typedI) (auto simp: get_file_handler_def client_ok_def split: option.splits dest!: map_of_SomeD)

lemma typed_get_open_inode_info: "F fh \<in> \<Gamma> \<Longrightarrow> typed \<Gamma> (from_result (get_open_inode_info fh)) (\<lambda>p. ptr I p)"
  by (rule typedI)
    (auto simp: from_result_def get_open_inode_info_def handle_ok_def dest!: all_okD split: meta_location.splits option.splits)

lemma typed_delete_file_handler [typing]: "typed \<Gamma> (delete_file_handler k) (\<lambda>_. {})"
proof (rule typedI)
  fix st r st' assume st: "client_ok st" "delete_file_handler k st = Some (r, st')"
  have "client_ok (st\<lparr>fh_list := rm_erase k (fh_list st)\<rparr>)"
    using st(1) by (auto simp: client_ok_def rm_wf_erase dest!: rm_erase_subset)
  moreover have "evolves st (st\<lparr>fh_list := rm_erase k (fh_list st)\<rparr>)" by (simp add: evolves_def)
  ultimately show "client_ok st' \<and> evolves st st' \<and> (case r of Inl e \<Rightarrow> \<not> internal_error e | Inr x \<Rightarrow> all_ok st' {})"
    using st by (auto simp: delete_file_handler_def split: option.splits)
qed

text \<open>A handle under its own fresh address\<close>

lemma new_handle:
  assumes "client_ok st" and "handle_ok st fh" and "fh_no fh = next_fh st"
  shows "client_ok (st\<lparr>next_fh := Suc (next_fh st), fh_list := fh_list st @ [(next_fh st, fh)]\<rparr>)"
    and "evolves st (st\<lparr>next_fh := Suc (next_fh st), fh_list := fh_list st @ [(next_fh st, fh)]\<rparr>)"
    and "rm_find (fh_list st) (next_fh st) = None"
proof -
  have fresh: "next_fh st \<notin> fst ` set (fh_list st)" using assms(1) by (auto simp: client_ok_def)
  then show "rm_find (fh_list st) (next_fh st) = None" by (simp add: map_of_eq_None_iff)
  show "client_ok (st\<lparr>next_fh := Suc (next_fh st), fh_list := fh_list st @ [(next_fh st, fh)]\<rparr>)"
    using assms fresh by (auto simp: client_ok_def less_Suc_eq)
  show "evolves st (st\<lparr>next_fh := Suc (next_fh st), fh_list := fh_list st @ [(next_fh st, fh)]\<rparr>)" by (simp add: evolves_def)
qed

lemma typed_open_handle [typing]:
  assumes "I a \<in> \<Gamma>"
  shows "typed \<Gamma> (open_handle a) (\<lambda>_. {})"
proof (rule typedI)
  fix st r st' assume st: "client_ok st" "all_ok st \<Gamma>" "open_handle a st = Some (r, st')"
  let ?fh = "(file_handler_new (ino_of st a))\<lparr>fh_loc := LOCAL, fh_i := Some a, fh_no := next_fh st\<rparr>"
  have "handle_ok st ?fh" using all_okD [OF st(2) assms] by (simp add: handle_ok_def)
  then show "client_ok st' \<and> evolves st st' \<and> (case r of Inl e \<Rightarrow> \<not> internal_error e | Inr x \<Rightarrow> all_ok st' {})"
    using st(3) new_handle [OF st(1), of ?fh] by (auto simp: open_handle_def Let_def add_file_handler_def rm_insert_new bnd_def ret_def)
qed

lemma typed_open_remote_handle [typing]:
  assumes "R a \<in> \<Gamma>"
  shows "typed \<Gamma> (open_remote_handle u a) (\<lambda>_. {})"
proof (rule typedI)
  fix st r st' assume st: "client_ok st" "all_ok st \<Gamma>" "open_remote_handle u a st = Some (r, st')"
  let ?fh = "(file_handler_new u)\<lparr>fh_loc := REMOTE, fh_remote_i := Some a, fh_no := next_fh st\<rparr>"
  have "handle_ok st ?fh" using all_okD [OF st(2) assms] by (simp add: handle_ok_def)
  then show "client_ok st' \<and> evolves st st' \<and> (case r of Inl e \<Rightarrow> \<not> internal_error e | Inr x \<Rightarrow> all_ok st' {})"
    using st(3) new_handle [OF st(1), of ?fh] by (auto simp: open_remote_handle_def Let_def add_file_handler_def rm_insert_new bnd_def ret_def)
qed

section \<open>The table of directories\<close>

lemma client_ok_erase:
  assumes "client_ok st"
  shows "client_ok (st\<lparr>dentry_tables := rm_erase u (dentry_tables st)\<rparr>)"
  using assms by (auto simp: client_ok_def rm_wf_erase dest!: rm_erase_subset)

lemma typed_erase [typing]: "typed \<Gamma> (modify (\<lambda>st. st\<lparr>dentry_tables := rm_erase u (dentry_tables st)\<rparr>)) (\<lambda>_. {})"
  by (rule typedI) (auto simp: modify_def client_ok_erase evolves_def)

lemma typed_delete_dentry_table [typing]: "typed \<Gamma> (delete_dentry_table u) (\<lambda>_. {})"
  by (rule typedI) (auto simp: delete_dentry_table_def client_ok_erase evolves_def split: option.splits)

lemma typed_make_remote [typing]: "typed \<Gamma> (make_remote d name) (\<lambda>r. {I r, R r})"
proof (rule typed_case)
  fix st :: "'a client_state" assume "all_ok st \<Gamma>"
  let ?r = "remote_inode_new (leader_ip (dtabs st d)) (dir_ino (dtabs st d)) name False"
  have "typed {} (new_iobj ?r :: (nat, 'a) cprog) (\<lambda>r. {I r, R r})" by (rule typing)
  then show "\<exists>m'. make_remote d name st = m' st \<and> (\<exists>\<Delta>. all_ok st \<Delta> \<and> typed \<Delta> m' (\<lambda>r. {I r, R r}))"
    by (intro typed_caseI [of _ _ "new_iobj ?r" "{}"]) (simp_all add: make_remote_def)
qed

lemma typed_remote_cast [typing]: "R a \<in> \<Gamma> \<Longrightarrow> typed \<Gamma> (remote_cast a) (\<lambda>_. {})"
  by (rule typedI) (auto simp: remote_cast_def ret_def throw_def dest!: all_okD split: option.splits)

lemma typed_lc_is_valid [typing]: "typed \<Gamma> (lc_is_valid E u) (\<lambda>_. {})"
  unfolding lc_is_valid_def by (auto intro!: typing)

section \<open>New tables\<close>

lemma new_table:
  assumes "client_ok st" and "\<And>a. a \<in> table_inodes t \<Longrightarrow> a < next_iobj st"
  shows "client_ok (st\<lparr>dtabs := (dtabs st)(next_dtab st := t), next_dtab := Suc (next_dtab st)\<rparr>)"
    and "evolves st (st\<lparr>dtabs := (dtabs st)(next_dtab st := t), next_dtab := Suc (next_dtab st)\<rparr>)"
proof -
  show "client_ok (st\<lparr>dtabs := (dtabs st)(next_dtab st := t), next_dtab := Suc (next_dtab st)\<rparr>)"
    using assms by (fastforce simp: client_ok_def less_Suc_eq)
  show "evolves st (st\<lparr>dtabs := (dtabs st)(next_dtab st := t), next_dtab := Suc (next_dtab st)\<rparr>)" by (simp add: evolves_def)
qed

lemma typed_new_dtab:
  assumes "set_option (this_dir_inode t) = {} \<or> (\<exists>a. this_dir_inode t = Some a \<and> I a \<in> \<Gamma>)" and "child_inodes t = []"
  shows "typed \<Gamma> (new_dtab t) (\<lambda>d. {Dir d (dir_ino t)} \<union> (if table_ready t then {D d} else {}))"
proof (rule typedI)
  fix st r st' assume st: "client_ok st" "all_ok st \<Gamma>" "new_dtab t st = Some (r, st')"
  have "a < next_iobj st" if "a \<in> table_inodes t" for a
    using that assms all_okD [OF st(2), of "I a"] by (auto simp: table_inodes_def)
  then show "client_ok st' \<and> evolves st st' \<and>
    (case r of Inl e \<Rightarrow> \<not> internal_error e | Inr d \<Rightarrow> all_ok st' ({Dir d (dir_ino t)} \<union> (if table_ready t then {D d} else {})))"
    using st(1,3) new_table [OF st(1), of t] by (auto simp: new_dtab_def)
qed

lemma typed_set_leader_ip [typing]:
  assumes "Dir d u \<in> \<Gamma>"
  shows "typed \<Gamma> (set_leader_ip d ip) (\<lambda>_. {})"
proof (rule typedI)
  fix st r st' assume st: "client_ok st" "all_ok st \<Gamma>" "set_leader_ip d ip st = Some (r, st')"
  let ?t = "(dtabs st d)\<lparr>leader_ip := ip\<rparr>"
  have "table_ready ?t = table_ready (dtabs st d)" "table_inodes ?t = table_inodes (dtabs st d)"
    by (simp_all add: table_ready_def table_inodes_def split: meta_location.split option.split)
  then show "client_ok st' \<and> evolves st st' \<and> (case r of Inl e \<Rightarrow> \<not> internal_error e | Inr x \<Rightarrow> all_ok st' {})"
    using st table_upd [OF st(1), of d ?t] all_okD [OF st(2) assms] client_ok_inodes [OF st(1)]
    by (auto simp: set_leader_ip_def upd_dtab_def modify_def)
qed

lemma typed_add_dentry_table [typing]:
  assumes "D d \<in> \<Gamma>" and "Dir d u \<in> \<Gamma>"
  shows "typed \<Gamma> (add_dentry_table u d) (\<lambda>_. {})"
proof (rule typedI)
  fix st r st' assume st: "client_ok st" "all_ok st \<Gamma>" "add_dentry_table u d st = Some (r, st')"
  let ?m = "fst (rm_insert u d (dentry_tables st))"
  have st': "st' = st\<lparr>dentry_tables := ?m\<rparr> \<and> r = Inr 0 \<or> st' = st \<and> r = Inr (- 1)"
    using st(3) by (auto simp: add_dentry_table_def split: prod.splits if_splits)
  have "set ?m \<subseteq> insert (u, d) (set (dentry_tables st))" by (auto simp: rm_insert_def split: option.split)
  then have "client_ok (st\<lparr>dentry_tables := ?m\<rparr>)"
    using st(1) rm_insert_wf [of "dentry_tables st" u d] all_okD [OF st(2) assms(1)] all_okD [OF st(2) assms(2)] by (auto simp: client_ok_def)
  then show "client_ok st' \<and> evolves st st' \<and> (case r of Inl e \<Rightarrow> \<not> internal_error e | Inr x \<Rightarrow> all_ok st' {})"
    using st' st(1) by (auto simp: evolves_def)
qed

lemma typed_dentry_table_new_remote: "typed \<Gamma> (dentry_table_new E u REMOTE) (\<lambda>d. {D d, Dir d u})"
  unfolding dentry_table_new_def Let_def by (simp, rule typed_sub [OF typed_new_dtab]) (auto simp: table_ready_def)

lemma typed_dentry_table_new_mkdir:
  assumes "I i \<in> \<Gamma>" and "K i (this_ino ds) \<in> \<Gamma>" and "child_list ds = []"
  shows "typed \<Gamma> (dentry_table_new_mkdir i ds LOCAL) (\<lambda>d. {D d, Dir d (this_ino ds)})"
proof (rule typed_case)
  fix st :: "'a client_state" assume st: "client_ok st" "all_ok st \<Gamma>"
  let ?t = "\<lparr>dir_ino = this_ino ds, this_dir_inode = Some i, dt_dentries = Some ds, child_inodes = [], dt_loc = LOCAL, leader_ip = []\<rparr>"
  have "typed (\<Gamma> \<union> {}) (new_dtab ?t :: (nat, 'a) cprog) (\<lambda>d. {D d, Dir d (this_ino ds)})"
    using assms by (intro typed_sub [OF typed_new_dtab]) (auto simp: table_ready_def)
  then have "typed \<Gamma> (bnd (upd_inode i (set_loc LOCAL)) (\<lambda>_. new_dtab ?t) :: (nat, 'a) cprog) (\<lambda>d. {D d, Dir d (this_ino ds)})"
    using assms(1) by (intro typed_bnd [where T = "\<lambda>_. {}"] typing) auto
  moreover have "ino_of st i = this_ino ds" using all_okD [OF st(2) assms(2)] by simp
  ultimately show "\<exists>m'. dentry_table_new_mkdir i ds LOCAL st = m' st \<and> (\<exists>\<Delta>. all_ok st \<Delta> \<and> typed \<Delta> m' (\<lambda>d. {D d, Dir d (this_ino ds)}))"
    using st(2) by (intro typed_caseI [of _ _ "bnd (upd_inode i (set_loc LOCAL)) (\<lambda>_. new_dtab ?t)" \<Gamma>]) (simp_all add: dentry_table_new_mkdir_def)
qed

text \<open>The table of a directory that this client begins to lead, while it is filled\<close>

definition empty_table :: "'s client_state \<Rightarrow> nat \<Rightarrow> bool" where
  "empty_table st d \<longleftrightarrow> d < next_dtab st \<and> dt_loc (dtabs st d) = LOCAL \<and> this_dir_inode (dtabs st d) \<noteq> None
     \<and> dt_dentries (dtabs st d) = None \<and> child_inodes (dtabs st d) = []"

definition filling_table :: "'s client_state \<Rightarrow> nat \<Rightarrow> dentry \<Rightarrow> bool" where
  "filling_table st d ds \<longleftrightarrow> d < next_dtab st \<and> dt_loc (dtabs st d) = LOCAL \<and> this_dir_inode (dtabs st d) \<noteq> None
     \<and> dt_dentries (dtabs st d) = Some ds \<and> rm_wf (child_inodes (dtabs st d))
     \<and> fst ` set (child_inodes (dtabs st d)) \<subseteq> fst ` set (child_list ds)"

lemma deserialize_children_wf: "deserialize_children n raw m = Inr m' \<Longrightarrow> rm_wf m \<Longrightarrow> rm_wf m'"
proof (induction n raw m rule: deserialize_children.induct)
  case (2 i raw m)
  show ?case using "2.prems" by (auto simp: Let_def rm_insert_wf split: if_splits intro: "2.IH" [rotated -1])
qed simp

lemma dentry_new_wf: "dentry_new X u mkdir s = (Inr ds, s') \<Longrightarrow> this_ino ds = u \<and> rm_wf (child_list ds) \<and> (mkdir \<longrightarrow> child_list ds = [])"
  by (auto simp: dentry_new_def dentry_deserialize_def Let_def split: if_splits prod.splits sum.splits exn.splits
      dest!: deserialize_children_wf)

lemma dentry_table_new_local:
  assumes "client_ok st" and "dentry_table_new E u LOCAL st = Some (r, st')"
  shows "client_ok st' \<and> evolves st st' \<and>
    (case r of Inl e \<Rightarrow> \<not> internal_error e | Inr d \<Rightarrow> empty_table st' d \<and> dir_ino (dtabs st' d) = u)"
proof -
  let ?t = "\<lambda>a. \<lparr>dir_ino = u, this_dir_inode = Some a, dt_dentries = None, child_inodes = [], dt_loc = LOCAL, leader_ip = []\<rparr>"
  let ?m = "bnd (on_sys (lift (inode_load (meta_io E) u))) (\<lambda>i. new_iobj \<lparr>base = set_loc LOCAL i, remote = None\<rparr>)"
  have "typed {} (new_iobj \<lparr>base = set_loc LOCAL i, remote = None\<rparr> :: (nat, 'a) cprog) (\<lambda>a. {I a})" for i
    by (rule typed_sub [OF typed_new_plain]) auto
  then have t: "typed {} ?m (\<lambda>a. {I a})" by (auto intro!: typed_bnd [where T = "\<lambda>_. {}"] typed_on_sys calm_rules)
  have new: "dentry_table_new E u LOCAL = bnd ?m (\<lambda>a. new_dtab (?t a))" by (simp add: dentry_table_new_def Let_def bnd_assoc)
  obtain q st1 where m: "?m st = Some (q, st1)" using assms(2) unfolding new by (cases "?m st") (auto simp: bnd_def [of ?m])
  note m1 = typedD [OF t assms(1) _ m, simplified]
  show ?thesis
  proof (cases q)
    case (Inl e)
    then show ?thesis using assms(2) m m1 unfolding new by (auto simp: bnd_def [of ?m])
  next
    case (Inr a)
    then have st': "st' = st1\<lparr>dtabs := (dtabs st1)(next_dtab st1 := ?t a), next_dtab := Suc (next_dtab st1)\<rparr>" "r = Inr (next_dtab st1)"
      using assms(2) m unfolding new by (auto simp: bnd_def [of ?m] new_dtab_def)
    have "a < next_iobj st1" using m1(3) Inr by simp
    then show ?thesis
      using new_table [OF m1(1), of "?t a"] evolves_trans [OF m1(2)] by (auto simp: st' empty_table_def table_inodes_def)
  qed
qed

lemma filling_ready:
  assumes "filling_table st d ds" and "this_ino ds = dir_ino (dtabs st d)" and "rm_wf (child_list ds)"
  shows "table_ready (dtabs st d) \<longleftrightarrow> fst ` set (child_list ds) \<subseteq> fst ` set (child_inodes (dtabs st d))"
  using assms by (auto simp: table_ready_def filling_table_def)

lemma add_child_inode_fills:
  assumes "client_ok st" and "filling_table st d ds" and "name \<in> fst ` set (child_list ds)" and "a < next_iobj st"
    and "add_child_inode d name a st = Some (r, st')"
  shows "client_ok st' \<and> evolves st st' \<and> filling_table st' d ds \<and> dir_ino (dtabs st' d) = dir_ino (dtabs st d) \<and> (\<exists>x. r = Inr x)
    \<and> fst ` set (child_inodes (dtabs st' d)) = insert name (fst ` set (child_inodes (dtabs st d)))"
proof (cases "rm_find (child_inodes (dtabs st d)) name")
  case (Some b)
  then have "name \<in> fst ` set (child_inodes (dtabs st d))" by (force dest: map_of_SomeD)
  then show ?thesis using assms Some by (auto simp: add_child_inode_def rm_insert_old)
next
  case None
  let ?c = "child_inodes (dtabs st d)"
  let ?t = "(dtabs st d)\<lparr>child_inodes := ?c @ [(name, a)]\<rparr>"
  have st': "st' = st\<lparr>dtabs := (dtabs st)(d := ?t)\<rparr>" "r = Inr 0"
    using assms(5) None by (auto simp: add_child_inode_def rm_insert_new upd_dtab_def ret_def)
  have d: "d < next_dtab st" "rm_wf ?c" "fst ` set ?c \<subseteq> fst ` set (child_list ds)" using assms(2) by (auto simp: filling_table_def)
  have new: "name \<notin> fst ` set ?c" using None by (simp add: map_of_eq_None_iff)
  have "\<not> table_ready (dtabs st d)" using new assms(2,3) by (auto simp: table_ready_def filling_table_def)
  moreover have "x < next_iobj st" if "x \<in> table_inodes ?t" for x
    using that assms(4) client_ok_inodes [OF assms(1) d(1), of x] by (auto simp: table_inodes_def)
  ultimately have "client_ok st' \<and> evolves st st'" using table_upd [OF assms(1) d(1), of ?t] by (simp add: st')
  moreover have "filling_table st' d ds" using assms(2,3) new by (auto simp: filling_table_def st')
  ultimately show ?thesis by (auto simp: st')
qed

lemma filling_sys [simp]: "filling_table (st\<lparr>sys := s\<rparr>) d ds = filling_table st d ds"
  by (simp add: filling_table_def)

lemma pull_children_fills:
  assumes "client_ok st" and "filling_table st d ds" and "set es \<subseteq> set (child_list ds)" and "pull_children E d es st = Some (r, st')"
  shows "client_ok st' \<and> evolves st st' \<and>
    (case r of Inl e \<Rightarrow> \<not> internal_error e
     | Inr _ \<Rightarrow> filling_table st' d ds \<and> fst ` set es \<union> fst ` set (child_inodes (dtabs st d)) \<subseteq> fst ` set (child_inodes (dtabs st' d)))"
  using assms
proof (induction es arbitrary: st)
  case Nil
  then show ?case by (auto simp: ret_def)
next
  case (Cons e es)
  obtain name u where e: "e = (name, u)" by fastforce
  obtain q s where q: "inode_load (meta_io E) u (sys st) = (q, s)" by fastforce
  show ?case
  proof (cases q)
    case (Inl x)
    have "\<not> internal_error x" using calm_inode_load [of "meta_io E" u] q Inl by (auto simp: calm_def lift_def simp del: internal_error.simps)
    then show ?thesis using Cons.prems(1,4) q Inl e by (auto simp: bnd_def on_sys_def zoom_def lift_def)
  next
    case (Inr i)
    let ?i = "\<lparr>base = set_loc (if S_ISDIR (i_mode (core i)) then UNKNOWN else LOCAL) (set_p_ino (dir_ino (dtabs st d)) i), remote = None\<rparr>"
    let ?st = "st\<lparr>sys := s, iobjs := (iobjs st)(next_iobj st := ?i), next_iobj := Suc (next_iobj st)\<rparr>"
    have new: "new_iobj ?i (st\<lparr>sys := s\<rparr>) = Some (Inr (next_iobj st), ?st)" by (simp add: new_iobj_def)
    note n = typedD [OF typed_new_plain [where \<Gamma> = "{}"] _ _ new, simplified]
    have ok: "client_ok ?st" and ev: "evolves st ?st"
      using n(1) Cons.prems(1) evolves_trans [OF evolves_outside(1) n(2)] by simp_all
    have fill: "filling_table ?st d ds" using Cons.prems(2) by (simp add: filling_table_def)
    obtain x st1 where add: "add_child_inode d name (next_iobj st) ?st = Some (x, st1)"
      by (cases "add_child_inode d name (next_iobj st) ?st") (auto simp: add_child_inode_def upd_dtab_def bnd_def ret_def modify_def split: prod.splits if_splits)
    have "name \<in> fst ` set (child_list ds)" using Cons.prems(3) e by force
    note a = add_child_inode_fills [OF ok fill this _ add]
    have "pull_children E d es st1 = Some (r, st')"
      using Cons.prems(4) q Inr e a add new by (auto simp: bnd_def on_sys_def zoom_def lift_def)
    then show ?thesis
      using Cons.IH [of st1] a Cons.prems(3) ev e by (auto intro: evolves_trans split: sum.splits)
  qed
qed

text \<open>A table that has been filled can be used.\<close>

lemma bndE:
  assumes "bnd m f st = Some (r, st')"
  obtains (throws) e where "m st = Some (Inl e, st')" and "r = Inl e" | (returns) x st1 where "m st = Some (Inr x, st1)" and "f x st1 = Some (r, st')"
  using assms by (auto simp: bnd_def split: option.splits sum.splits)

lemma pull_child_metadata_fills:
  assumes "client_ok st" and "empty_table st d" and "pull_child_metadata E d st = Some (r, st')"
  shows "client_ok st' \<and> evolves st st' \<and> (case r of Inl e \<Rightarrow> \<not> internal_error e | Inr _ \<Rightarrow> kind_ok st' (D d))"
proof -
  let ?u = "dir_ino (dtabs st d)"
  have run: "bnd (on_sys (lift (dentry_new (meta_io E) ?u False))) (\<lambda>ds. bnd (upd_dtab d (\<lambda>t. t\<lparr>dt_dentries := Some ds\<rparr>)) (\<lambda>_.
      pull_children E d (child_list ds))) st = Some (r, st')"
    using assms(3) by (simp add: pull_child_metadata_def)
  have d: "d < next_dtab st" using assms(2) by (simp add: empty_table_def)
  from run show ?thesis
  proof (cases rule: bndE)
    case (throws e)
    then show ?thesis
      using typedD [OF typed_on_sys [OF calm_dentry_new, where \<Gamma> = "{}"] assms(1) _ throws(1)] by simp
  next
    case (returns ds st1)
    then obtain s where s: "st1 = st\<lparr>sys := s\<rparr>" "dentry_new (meta_io E) ?u False (sys st) = (Inr ds, s)"
      by (auto simp: on_sys_def zoom_def lift_def split: prod.splits)
    have ds: "this_ino ds = ?u" "rm_wf (child_list ds)" using dentry_new_wf [OF s(2)] by simp_all
    let ?t = "(dtabs st d)\<lparr>dt_dentries := Some ds\<rparr>"
    let ?st2 = "st1\<lparr>dtabs := (dtabs st1)(d := ?t)\<rparr>"
    have pull: "pull_children E d (child_list ds) ?st2 = Some (r, st')"
      using returns(2) s(1) by (simp add: upd_dtab_def)
    have st2: "client_ok ?st2" "evolves st1 ?st2"
    proof -
      have "a < next_iobj st1" if "a \<in> table_inodes ?t" for a
        using that client_ok_inodes [OF assms(1) d, of a] s(1) by (simp add: table_inodes_def)
      moreover have "\<not> table_ready (dtabs st1 d)" using assms(2) s(1) by (simp add: empty_table_def table_ready_def)
      ultimately show "client_ok ?st2" "evolves st1 ?st2" using table_upd [of st1 d ?t] assms(1) d s(1) by simp_all
    qed
    have fill: "filling_table ?st2 d ds" using assms(2) s(1) by (simp add: filling_table_def empty_table_def)
    note p = pull_children_fills [OF st2(1) fill subset_refl pull]
    have ev: "evolves st st'" using evolves_trans [OF evolves_trans [OF _ st2(2)], of st st'] p s(1) by simp
    then have "dir_ino (dtabs st' d) = ?u" using d by (simp add: evolves_def)
    then show ?thesis using p ev ds filling_ready [of st' d ds] by (auto simp: filling_table_def split: sum.splits)
  qed
qed

lemma typed_pull_table:
  "typed \<Gamma> (bnd (dentry_table_new E u LOCAL) (\<lambda>d. bnd (set_leader_ip d ip) (\<lambda>_. bnd (pull_child_metadata E d) (\<lambda>_. ret d))))
     (\<lambda>d. {D d, Dir d u})"
proof (rule typedI)
  fix st r st'
  assume st: "client_ok st"
    and run: "bnd (dentry_table_new E u LOCAL) (\<lambda>d. bnd (set_leader_ip d ip) (\<lambda>_. bnd (pull_child_metadata E d) (\<lambda>_. ret d))) st = Some (r, st')"
  from run show "client_ok st' \<and> evolves st st' \<and> (case r of Inl e \<Rightarrow> \<not> internal_error e | Inr d \<Rightarrow> all_ok st' {D d, Dir d u})"
  proof (cases rule: bndE)
    case (throws e)
    then show ?thesis using dentry_table_new_local [OF st throws(1)] by simp
  next
    case (returns d st1)
    have ok1: "client_ok st1" "evolves st st1" "empty_table st1 d" "dir_ino (dtabs st1 d) = u"
      using dentry_table_new_local [OF st returns(1)] by simp_all
    let ?st2 = "st1\<lparr>dtabs := (dtabs st1)(d := (dtabs st1 d)\<lparr>leader_ip := ip\<rparr>)\<rparr>"
    have lead: "set_leader_ip d ip st1 = Some (Inr (), ?st2)" by (simp add: set_leader_ip_def upd_dtab_def modify_def)
    have "all_ok st1 {Dir d u}" using ok1(3,4) by (simp add: empty_table_def)
    note l = typedD [OF typed_set_leader_ip [where \<Gamma> = "{Dir d u}" and u = u] ok1(1) this lead, simplified]
    have empty: "empty_table ?st2 d" using ok1(3) by (simp add: empty_table_def)
    have "bnd (pull_child_metadata E d) (\<lambda>_. ret d) ?st2 = Some (r, st')" using returns(2) lead by (simp add: bnd_def [of "set_leader_ip d ip"])
    then obtain x where x: "pull_child_metadata E d ?st2 = Some (x, st')" "r = (case x of Inl e \<Rightarrow> Inl e | Inr _ \<Rightarrow> Inr d)"
      by (cases rule: bndE) (auto simp: ret_def)
    note p = pull_child_metadata_fills [OF l(1) empty x(1)]
    have ev: "evolves st st'" "evolves st1 st'"
      using p l(2) ok1(2) by (blast intro: evolves_trans)+
    then have "dir_ino (dtabs st' d) = u" using ok1(3,4) by (simp add: evolves_def empty_table_def)
    then show ?thesis using p ev(1) x(2) by (auto split: sum.splits)
  qed
qed

section \<open>Leases\<close>

text \<open>What a client relies on of the other processes: the manager answers a request for a lease with 0 or
  -1, and a leader answers \<open>mkdir\<close> and the first half of a rename with one of their codes.\<close>

locale services =
  fixes E :: "'s env"
  assumes lease_answers: "lease_rpc E q s = (Some response, s') \<Longrightarrow> res_ret response = 0 \<or> res_ret response = - 1"
    and mkdir_answers: "stub_mkdir (peers E) ad qm s = (Some om, s') \<Longrightarrow> a_mkdir_ret om = 0 \<or> a_mkdir_ret om = - ENOTLEADER"
    and rename_answers: "stub_rename_src (peers E) ad qr s = (Some orr, s') \<Longrightarrow>
      a_rename_ret orr = 0 \<or> a_rename_ret orr = - ENOTLEADER \<or> a_rename_ret orr = - ENOSYS"
begin

lemma typed_lc_acquire [typing]: "typed \<Gamma> (lc_acquire E u ip) (\<lambda>(r, _). fact (r = 0 \<or> r = - 1))"
proof (rule typedI)
  fix st r st' assume "client_ok st" "lc_acquire E u ip st = Some (r, st')"
  then show "client_ok st' \<and> evolves st st' \<and> (case r of Inl e \<Rightarrow> \<not> internal_error e | Inr x \<Rightarrow> all_ok st' (case x of (r, _) \<Rightarrow> fact (r = 0 \<or> r = - 1)))"
    using lease_answers
    by (auto simp: lc_acquire_def sys_call_def bnd_def lease_client_acquire_def Let_def evolves_def split: prod.splits if_splits option.splits sum.splits)
qed

lemma typed_lease_dentry_table [typing]: "typed \<Gamma> (lease_dentry_table E u) (\<lambda>p. ptr D p)"
proof -
  have local: "typed \<Delta> (bnd (dentry_table_new E u LOCAL) (\<lambda>d. bnd (set_leader_ip d ip) (\<lambda>_. bnd (pull_child_metadata E d) (\<lambda>_.
      bnd (add_dentry_table u d) (\<lambda>_. ret (Some d)))))) (\<lambda>p. ptr D p)" for \<Delta> ip
  proof -
    let ?pull = "bnd (dentry_table_new E u LOCAL) (\<lambda>d. bnd (set_leader_ip d ip) (\<lambda>_. bnd (pull_child_metadata E d) (\<lambda>_. ret d)))"
    have "typed \<Delta> (bnd ?pull (\<lambda>d. bnd (add_dentry_table u d) (\<lambda>_. ret (Some d)))) (\<lambda>p. ptr D p)"
      by (rule typed_bnd [OF typed_pull_table]) (auto intro!: typing)
    then show ?thesis by (simp add: bnd_assoc bnd_ret)
  qed
  have remote: "typed \<Delta> (bnd (dentry_table_new E u REMOTE) (\<lambda>d. bnd (set_leader_ip d ip) (\<lambda>_.
      bnd (add_dentry_table u d) (\<lambda>_. ret (Some d))))) (\<lambda>p. ptr D p)" for \<Delta> ip
    by (rule typed_bnd [OF typed_dentry_table_new_remote]) (auto intro!: typing)
  show ?thesis unfolding lease_dentry_table_def by (auto intro!: typing local remote split: prod.split)
qed

end

context services
begin

lemma typed_lease_dentry_table_mkdir [typing]:
  assumes "I i \<in> \<Gamma>" and "K i (this_ino ds) \<in> \<Gamma>" and "child_list ds = []"
  shows "typed \<Gamma> (lease_dentry_table_mkdir E i ds) (\<lambda>p. ptr D p)"
proof -
  have made: "typed \<Delta> (bnd (dentry_table_new_mkdir i ds LOCAL) (\<lambda>d. bnd (set_leader_ip d ip) (\<lambda>_.
      bnd (add_dentry_table u d) (\<lambda>_. ret (Some d))))) (\<lambda>p. ptr D p)" if "\<Gamma> \<subseteq> \<Delta>" "u = this_ino ds" for \<Delta> ip u
    using assms that by (intro typed_bnd [OF typed_dentry_table_new_mkdir]) (auto intro!: typing)
  show ?thesis
  proof (rule typed_case)
    fix st :: "'s client_state" assume st: "client_ok st" "all_ok st \<Gamma>"
    let ?m = "bnd (lc_acquire E (this_ino ds) []) (\<lambda>(r, ip).
       if r = 0 then bnd (dentry_table_new_mkdir i ds LOCAL) (\<lambda>d. bnd (set_leader_ip d ip) (\<lambda>_.
         bnd (add_dentry_table (this_ino ds) d) (\<lambda>_. ret (Some d))))
       else if r = - 1 then throw (Runtime_error ''New directory should have local dentry table'')
       else ret None)"
    have ino: "ino_of st i = this_ino ds" using all_okD [OF st(2) assms(2)] by simp
    have "lease_dentry_table_mkdir E i ds st = ?m st"
      by (simp only: lease_dentry_table_mkdir_def bnd_gets ino)
    moreover have "typed \<Gamma> ?m (\<lambda>p. ptr D p)" by (auto intro!: typing made split: prod.split)
    ultimately show "\<exists>m'. lease_dentry_table_mkdir E i ds st = m' st \<and> (\<exists>\<Delta>. all_ok st \<Delta> \<and> typed \<Delta> m' (\<lambda>p. ptr D p))"
      using st(2) by blast
  qed
qed

lemma typed_get_dentry_table [typing]: "typed \<Gamma> (get_dentry_table E u remote_call) (\<lambda>p. ptr D p)"
proof (rule typed_case)
  fix st :: "'s client_state" assume st: "client_ok st" "all_ok st \<Gamma>"
  let ?erase = "modify (\<lambda>st. st\<lparr>dentry_tables := rm_erase u (dentry_tables st)\<rparr>)"
  show "\<exists>m'. get_dentry_table E u remote_call st = m' st \<and> (\<exists>\<Delta>. all_ok st \<Delta> \<and> typed \<Delta> m' (\<lambda>p. ptr D p))"
  proof (cases "rm_find (dentry_tables st) u")
    case None
    then show ?thesis
      by (intro typed_caseI [of _ _ "if remote_call then throw Not_leader else lease_dentry_table E u" "{}"])
        (auto simp: get_dentry_table_def throw_def intro!: typing)
  next
    case (Some d)
    then have d: "kind_ok st (D d)" using st(1) by (auto simp: client_ok_def dest: map_of_SomeD)
    let ?rest = "if remote_call then throw Not_leader else lease_dentry_table E u"
    show ?thesis using Some d
      by (intro typed_caseI [of _ _ "bnd (lc_is_valid E u) (\<lambda>valid. if valid then ret (Some d) else bnd ?erase (\<lambda>_. ?rest))" "{D d}"])
        (auto simp: get_dentry_table_def intro!: typing)
  qed
qed

lemma typed_find_remote_dentry_table_again [typing]:
  assumes "R a \<in> \<Gamma>"
  shows "typed \<Gamma> (find_remote_dentry_table_again E a) (\<lambda>_. {})"
proof (rule typed_case)
  fix st :: "'s client_state" assume st: "client_ok st" "all_ok st \<Gamma>"
  obtain r where r: "remote (iobjs st a) = Some r" using all_okD [OF st(2) assms] by auto
  let ?set = "\<lambda>d. modify (\<lambda>st :: 's client_state. st\<lparr>iobjs := (iobjs st)(a := (iobjs st a)\<lparr>remote := Some (r\<lparr>r_leader_ip := leader_ip (dtabs st d)\<rparr>)\<rparr>)\<rparr>)"
  have set: "typed \<Delta> (?set d) (\<lambda>_. {})" for d \<Delta>
  proof (rule typedI)
    fix st :: "'s client_state" and r' st' assume "client_ok st" "?set d st = Some (r', st')"
    moreover have "evolves st (st\<lparr>iobjs := (iobjs st)(a := (iobjs st a)\<lparr>remote := Some (r\<lparr>r_leader_ip := leader_ip (dtabs st d)\<rparr>)\<rparr>)\<rparr>)"
      (is "evolves st ?st") by (simp add: evolves_def)
    moreover have "client_ok ?st" if "client_ok st"
      using that handle_ok_evolves [OF _ \<open>evolves st ?st\<close>] by (fastforce simp: client_ok_def inode_kind_def)
    ultimately show "client_ok st' \<and> evolves st st' \<and> (case r' of Inl e \<Rightarrow> \<not> internal_error e | Inr x \<Rightarrow> all_ok st' {})"
      by (auto simp: modify_def)
  qed
  show "\<exists>m'. find_remote_dentry_table_again E a st = m' st \<and> (\<exists>\<Delta>. all_ok st \<Delta> \<and> typed \<Delta> m' (\<lambda>_. {}))"
    using r by (intro typed_caseI [of _ _ "bnd (get_dentry_table E (r_dentry_table_ino r) False) (\<lambda>t.
        case t of None \<Rightarrow> throw (Crash ''null dentry table'') | Some d \<Rightarrow> ?set d)" "{}"])
      (auto simp: find_remote_dentry_table_again_def intro!: typing set)
qed

lemma traverse_Cons:
  "traverse E (name # rest) parent target =
     bnd (check_child_inode E parent name) (\<lambda>ino.
       if is_nil ino then throw No_entry
       else
         bnd (get_child_inode parent name ino) (\<lambda>t.
           case t of
             None \<Rightarrow> throw (Runtime_error ''Failed to make remote_inode in path_traversal()'')
           | Some a \<Rightarrow>
               bnd (get_mode E a) (\<lambda>m.
                 if S_ISDIR m then
                   bnd (get_dentry_table E ino False) (\<lambda>p.
                     case p of
                       None \<Rightarrow> throw (Crash ''null dentry table'')
                     | Some d \<Rightarrow>
                         bnd (get_this_dir_inode d) (\<lambda>t'.
                           case t' of
                             None \<Rightarrow> throw (Crash ''null inode'')
                           | Some a' \<Rightarrow> bnd (inode_permission_check E a' X_OK) (\<lambda>_. traverse E rest d (Some a'))))
                 else traverse E rest parent (Some a))))"
  by (rule ext) simp

lemma typed_traverse [typing]: "D parent \<in> \<Gamma> \<Longrightarrow> ptr I target \<subseteq> \<Gamma> \<Longrightarrow> typed \<Gamma> (traverse E names parent target) (\<lambda>p. ptr I p)"
proof (induction names arbitrary: \<Gamma> parent target)
  case Nil
  have "traverse E [] parent target = ret target" by (rule ext) simp
  then show ?case using Nil by (auto intro!: typing)
next
  case (Cons name rest)
  show ?case unfolding traverse_Cons using Cons.prems by (auto intro!: typing Cons.IH)
qed

lemma typed_path_traversal [typing]: "typed \<Gamma> (path_traversal E p) (\<lambda>p. ptr I p)"
  unfolding path_traversal_def by (auto intro!: typing)

end

end
