(* ===== verification/Local_Types.thy ===== *)
theory Local_Types
  imports Table_Types
begin

text \<open>
  Typing of the operations on directories this client leads (\<open>client/fs_ops/local_ops.cpp\<close>).
\<close>

section \<open>Setters\<close>

text \<open>No setter changes the number or makes an inode remote.\<close>

lemma setters [simp]:
  "i_ino (core (set_mtime t i)) = i_ino (core i)" "i_ino (core (set_ctime t i)) = i_ino (core i)" "i_ino (core (set_atime t i)) = i_ino (core i)"
  "i_ino (core (set_size n i)) = i_ino (core i)" "i_ino (core (set_mode m i)) = i_ino (core i)" "i_ino (core (set_uid u i)) = i_ino (core i)"
  "i_ino (core (set_gid u i)) = i_ino (core i)" "i_ino (core (set_nlink k i)) = i_ino (core i)" "i_ino (core (set_p_ino v i)) = i_ino (core i)"
  "loc (set_mtime t i) = loc i" "loc (set_ctime t i) = loc i" "loc (set_atime t i) = loc i" "loc (set_size n i) = loc i" "loc (set_mode m i) = loc i"
  "loc (set_uid u i) = loc i" "loc (set_gid u i) = loc i" "loc (set_nlink k i) = loc i" "loc (set_p_ino v i) = loc i"
  by (simp_all add: set_mtime_def set_ctime_def set_atime_def set_size_def set_mode_def set_uid_def set_gid_def set_nlink_def set_p_ino_def)

lemma new_inode_loc [simp]:
  "loc (inode_new ts u p uid gid m b) \<noteq> REMOTE" "loc (inode_new_symlink ts u p uid gid m src) \<noteq> REMOTE"
  "loc (inode_new_dir ts p uid gid m u) \<noteq> REMOTE" "loc (rename_src_response_to_inode msg (inode_blank l)) = l"
  "loc (rename_dst_request_to_inode msg (inode_blank l)) = l"
  by (simp_all add: inode_new_def inode_new_symlink_def inode_new_dir_def rename_src_response_to_inode_def rename_dst_request_to_inode_def
      inode_blank_def Let_def)

section \<open>Fragments\<close>

lemma typed_get_ts [typing]: "typed \<Gamma> (get_ts E) (\<lambda>_. {})" "typed \<Gamma> (get_ts_checked E) (\<lambda>_. {})"
  unfolding get_ts_def get_ts_checked_def by (auto intro!: typing)

lemma typed_set_mtime_ctime [typing]: "I a \<in> \<Gamma> \<Longrightarrow> typed \<Gamma> (set_mtime_ctime E a) (\<lambda>_. {})"
  unfolding set_mtime_ctime_def by (auto intro!: typing)

lemma typed_make_inode [typing]: "typed \<Gamma> (make_inode E p m) (\<lambda>a. {I a})" "typed \<Gamma> (make_symlink E p m src) (\<lambda>a. {I a})"
  "typed \<Gamma> (make_inode_owned E p uid gid m) (\<lambda>a. {I a})"
  unfolding make_inode_def make_symlink_def make_inode_owned_def
  by (auto intro!: typing typed_sub [OF typed_new_plain])

lemma typed_with_inode [typing]: "(\<And>i. calm (f i)) \<Longrightarrow> typed \<Gamma> (with_inode a f) (\<lambda>_. {})"
  unfolding with_inode_def by (auto intro!: typing)

lemma typed_with_inodes [typing]: "(\<And>i j. calm (g i j)) \<Longrightarrow> typed \<Gamma> (with_inodes p a g) (\<lambda>_. {})"
  unfolding with_inodes_def by (auto intro!: typing split: prod.split)

lemma typed_journal_attr [typing]: "I a \<in> \<Gamma> \<Longrightarrow> typed \<Gamma> (journal_attr E a) (\<lambda>_. {})"
  unfolding journal_attr_def by (auto intro!: typing calm_rules)

lemma typed_replace_entry [typing]: "D d \<in> \<Gamma> \<Longrightarrow> typed \<Gamma> (replace_entry d p name) (\<lambda>_. {})"
  unfolding replace_entry_def by (auto intro!: typing calm_rules)

lemma typed_utimens_one [typing]:
  assumes "I a \<in> \<Gamma>" and "\<And>t i. i_ino (core (f t i)) = i_ino (core i)" and "\<And>t i. loc (f t i) = loc i"
  shows "typed \<Gamma> (utimens_one E a f tv) (\<lambda>_. {})"
  unfolding utimens_one_def using assms by (auto intro!: typing)

section \<open>Operations\<close>

lemma typed_attributes [typing]:
  "typed \<Gamma> (local_getattr i s) (\<lambda>_. {})" "typed \<Gamma> (local_access E i msk) (\<lambda>_. {})"
  "I i \<in> \<Gamma> \<Longrightarrow> typed \<Gamma> (local_chmod E i m) (\<lambda>_. {})" "I i \<in> \<Gamma> \<Longrightarrow> typed \<Gamma> (local_chown E i uid gid) (\<lambda>_. {})"
  "I i \<in> \<Gamma> \<Longrightarrow> typed \<Gamma> (local_utimens E i tv0 tv1) (\<lambda>_. {})"
  unfolding local_getattr_def local_access_def local_chmod_def local_chown_def local_utimens_def by (auto intro!: typing)

lemma typed_handles [typing]:
  "I i \<in> \<Gamma> \<Longrightarrow> typed \<Gamma> (local_opendir E i fi) (\<lambda>_. {})" "typed \<Gamma> (local_releasedir i fi) (\<lambda>_. {})" "typed \<Gamma> (local_release i fi) (\<lambda>_. {})"
  unfolding local_opendir_def local_releasedir_def local_release_def by (auto intro!: typing)

lemma typed_local_readlink [typing]: "I i \<in> \<Gamma> \<Longrightarrow> typed \<Gamma> (local_readlink E i sz) (\<lambda>_. {})"
  unfolding local_readlink_def by (auto intro!: typing)

lemma typed_data [typing]:
  "I i \<in> \<Gamma> \<Longrightarrow> typed \<Gamma> (local_write E i buf off flags) (\<lambda>_. {})" "I i \<in> \<Gamma> \<Longrightarrow> typed \<Gamma> (local_truncate E i off) (\<lambda>_. {})"
  unfolding local_write_def local_truncate_def by (auto intro!: typing calm_rules)

text \<open>A condition on open flags, with the program that evaluates it\<close>

lemma typed_if_plain: "typed \<Gamma> m (\<lambda>_. {}) \<Longrightarrow> typed \<Gamma> n (\<lambda>_. {}) \<Longrightarrow> typed \<Gamma> (if b then m else n) (\<lambda>_. {})"
  by simp

lemma typed_local_open [typing]: "I i \<in> \<Gamma> \<Longrightarrow> typed \<Gamma> (local_open E i fi) (\<lambda>_. {})"
  unfolding local_open_def
  by (intro typed_bnd [where T = "\<lambda>_. {}"] typed_if typed_if_plain; auto intro!: typing calm_rules)

context services
begin

lemma typed_table_of [typing]: "typed \<Gamma> (table_of E a) (\<lambda>p. ptr D p)"
  unfolding table_of_def by (auto intro!: typing)

lemma typed_local_readdir [typing]: "typed \<Gamma> (local_readdir E i) (\<lambda>_. {})"
  unfolding local_readdir_def by (auto intro!: typing)

lemma typed_local_create [typing]: "I p \<in> \<Gamma> \<Longrightarrow> typed \<Gamma> (local_create E p name mode fi) (\<lambda>_. {})"
  unfolding local_create_def by (auto intro!: typing calm_rules)

lemma typed_local_unlink [typing]: "I p \<in> \<Gamma> \<Longrightarrow> typed \<Gamma> (local_unlink E p name) (\<lambda>_. {})"
  unfolding local_unlink_def by (auto intro!: typing calm_rules)

lemma typed_local_rmdir [typing]:
  "typed \<Gamma> (local_rmdir_top E t u) (\<lambda>_. {})" "I p \<in> \<Gamma> \<Longrightarrow> typed \<Gamma> (local_rmdir_down E p u name) (\<lambda>_. {})"
  unfolding local_rmdir_top_def local_rmdir_down_def by (auto intro!: typing calm_rules)

lemma typed_local_symlink [typing]: "typed \<Gamma> (local_symlink E p src dst) (\<lambda>_. {})"
  unfolding local_symlink_def by (auto intro!: typing calm_rules)

lemma typed_local_rename_src [typing]: "typed \<Gamma> (local_rename_not_same_parent_src E p old flags) (\<lambda>a. {I a})"
  unfolding local_rename_not_same_parent_src_def by (auto intro!: typing calm_rules)

end

context services
begin

text \<open>The replacement of an entry in the middle of a rename\<close>

lemma typed_replace_if: "D d \<in> \<Gamma> \<Longrightarrow> typed \<Gamma> (if b then replace_entry d p name else ret ()) (\<lambda>_. {})"
  by (rule typed_if_plain) (auto intro!: typing)

lemma typed_local_rename_dst [typing]: "I a \<in> \<Gamma> \<Longrightarrow> typed \<Gamma> (local_rename_not_same_parent_dst E p a u new flags) (\<lambda>_. {})"
  unfolding local_rename_not_same_parent_dst_def by (auto intro!: typed_replace_if typing calm_rules)

lemma typed_local_rename_same_parent [typing]: "I p \<in> \<Gamma> \<Longrightarrow> typed \<Gamma> (local_rename_same_parent E p old new flags) (\<lambda>_. {})"
  unfolding local_rename_same_parent_def by (auto intro!: typed_replace_if typing calm_rules)

lemma typed_local_mkdir [typing]:
  assumes "I p \<in> \<Gamma>"
  shows "typed \<Gamma> (local_mkdir E p name mode) (\<lambda>(r, i, ds). {I i, K i (this_ino ds)} \<union> fact (child_list ds = []))"
proof -
  have new: "typed \<Delta> (on_sys (lift (dentry_new (meta_io E) u True)) :: (dentry, 's) cprog) (\<lambda>ds. fact (this_ino ds = u \<and> child_list ds = []))"
    for \<Delta> u
    by (rule typedI) (auto simp: on_sys_def zoom_def lift_def dentry_new_def)
  show ?thesis
    supply typed_gets [typing del]
    unfolding local_mkdir_def using assms by (auto intro!: typed_gets_ino new typing calm_rules)
qed

end

end
