(* ===== verification/Rpc_Types.thy ===== *)
theory Rpc_Types
  imports Local_Types
begin

text \<open>
  Typing of both ends of the calls between clients (\<open>client/rpc/\<close>, \<open>client/fs_ops/remote_ops.cpp\<close>).
\<close>

section \<open>The handlers at the leader\<close>

lemma typed_leader_table [typing]:
  assumes "\<And>t. typed (\<Gamma> \<union> ptr D t) (body t) T" and "T not_leader \<subseteq> \<Gamma>" and "services E"
  shows "typed \<Gamma> (leader_table E u not_leader body) T"
proof (rule typedI)
  fix st r st' assume st: "client_ok st" "all_ok st \<Gamma>" "leader_table E u not_leader body st = Some (r, st')"
  obtain q st1 where q: "get_dentry_table E u True st = Some (q, st1)"
    using st(3) by (auto simp: leader_table_def split: option.splits)
  note g = typedD [OF services.typed_get_dentry_table [OF assms(3)] st(1,2) q]
  have all: "all_ok st1 \<Gamma>" using all_ok_evolves [OF st(2) g(2)] .
  show "client_ok st' \<and> evolves st st' \<and> (case r of Inl e \<Rightarrow> \<not> internal_error e | Inr x \<Rightarrow> all_ok st' (T x))"
  proof (cases q)
    case (Inl e)
    then show ?thesis
      using st(3) q g all_ok_subset [OF all assms(2)] by (auto simp: leader_table_def simp del: internal_error.simps split: if_splits)
  next
    case (Inr t)
    then have "body t st1 = Some (r, st')" using st(3) q by (simp add: leader_table_def)
    moreover have "all_ok st1 (\<Gamma> \<union> ptr D t)" using g(3) Inr all by simp
    ultimately show ?thesis using typedD [OF assms(1) g(1), of t r st'] evolves_trans [OF g(2)] by auto
  qed
qed

lemma typed_fragments [typing]:
  "ptr D t \<subseteq> \<Gamma> \<Longrightarrow> typed \<Gamma> (child_of t name) (\<lambda>a. {I a})"
  "ptr D t \<subseteq> \<Gamma> \<Longrightarrow> typed \<Gamma> (parent_of t) (\<lambda>(d, p). insert (D d) (ptr I p))"
  "ptr D t \<subseteq> \<Gamma> \<Longrightarrow> typed \<Gamma> (request_target q t) (\<lambda>p. ptr I p)"
  "ptr D t \<subseteq> \<Gamma> \<Longrightarrow> typed \<Gamma> (request_inode q t) (\<lambda>a. {I a})"
  "typed \<Gamma> (answer_permission E i msk) (\<lambda>_. {})"
  unfolding child_of_def parent_of_def request_target_def request_inode_def answer_permission_def
  by (auto intro!: typing simp del: internal_error.simps)

context services
begin

lemma typed_serve: "(\<And>t. typed (\<Gamma> \<union> ptr D t) (body t) (\<lambda>_. {})) \<Longrightarrow> typed \<Gamma> (leader_table E u n body) (\<lambda>_. {})"
  by (rule typed_leader_table) (auto intro: services_axioms)

lemma typed_server_lookups [typing]:
  "typed \<Gamma> (rpc_server_check_child_inode E q1) (\<lambda>_. {})" "typed \<Gamma> (rpc_server_get_mode E q2) (\<lambda>_. {})"
  "typed \<Gamma> (rpc_server_permission_check E q3) (\<lambda>_. {})" "typed \<Gamma> (rpc_server_access E q5) (\<lambda>_. {})"
  "typed \<Gamma> (rpc_server_opendir E q6) (\<lambda>_. {})" "typed \<Gamma> (rpc_server_readdir E q7) (\<lambda>_. {})"
  unfolding rpc_server_check_child_inode_def rpc_server_get_mode_def rpc_server_permission_check_def rpc_server_access_def
    rpc_server_opendir_def rpc_server_readdir_def
  by (auto intro!: typing services_axioms)

lemma typed_server_getattr [typing]: "typed \<Gamma> (rpc_server_getattr E q) (\<lambda>_. {})"
proof -
  have found: "typed \<Delta> (catch (bnd (request_target q t) (\<lambda>i. ret (Some i))) (\<lambda>e. if e = No_entry then ret None else throw e) :: (nat option option, 's) cprog)
      (\<lambda>f. case f of None \<Rightarrow> {} | Some p \<Rightarrow> ptr I p)" if "ptr D t \<subseteq> \<Delta>" for t \<Delta>
    using that by (auto intro!: typing simp del: internal_error.simps)
  show ?thesis unfolding rpc_server_getattr_def
    by (rule typed_serve, rule typed_bnd [OF found]) (auto intro!: typing)
qed

lemma typed_server_directories [typing]:
  "typed \<Gamma> (rpc_server_mkdir E q1) (\<lambda>_. {})" "typed \<Gamma> (rpc_server_rmdir_top E q2) (\<lambda>_. {})" "typed \<Gamma> (rpc_server_rmdir_down E q3) (\<lambda>_. {})"
  unfolding rpc_server_mkdir_def rpc_server_rmdir_top_def rpc_server_rmdir_down_def Let_def
  by (auto intro!: typing calm_rules services_axioms)

lemma typed_server_links [typing]: "typed \<Gamma> (rpc_server_symlink E q1) (\<lambda>_. {})" "typed \<Gamma> (rpc_server_readlink E q2) (\<lambda>_. {})"
  unfolding rpc_server_symlink_def rpc_server_readlink_def Let_def by (auto intro!: typing calm_rules services_axioms)

lemma typed_server_renames [typing]:
  "typed \<Gamma> (rpc_server_rename_same_parent E q1) (\<lambda>_. {})" "typed \<Gamma> (rpc_server_rename_not_same_parent_src E q2) (\<lambda>_. {})"
  "typed \<Gamma> (rpc_server_rename_not_same_parent_dst E q3) (\<lambda>_. {})"
  unfolding rpc_server_rename_same_parent_def rpc_server_rename_not_same_parent_src_def rpc_server_rename_not_same_parent_dst_def Let_def
  by (auto intro!: typed_replace_if typing calm_rules services_axioms)

lemma typed_server_open [typing]: "typed \<Gamma> (rpc_server_open E q) (\<lambda>_. {})"
  unfolding rpc_server_open_def
  by (rule typed_serve)
    (intro typed_bnd [where T = "\<lambda>_. {}"] typed_bnd [OF typed_fragments(1)] typed_if typed_if_plain; auto intro!: typing calm_rules)+

lemma typed_server_files [typing]: "typed \<Gamma> (rpc_server_create E q1) (\<lambda>_. {})" "typed \<Gamma> (rpc_server_unlink E q2) (\<lambda>_. {})"
  unfolding rpc_server_create_def rpc_server_unlink_def Let_def by (auto intro!: typing calm_rules services_axioms)

lemma typed_server_changes [typing]:
  "typed \<Gamma> (rpc_server_write E q1) (\<lambda>_. {})" "typed \<Gamma> (rpc_server_chmod E q2) (\<lambda>_. {})" "typed \<Gamma> (rpc_server_chown E q3) (\<lambda>_. {})"
  "typed \<Gamma> (rpc_server_utimens E q4) (\<lambda>_. {})" "typed \<Gamma> (rpc_server_truncate E q5) (\<lambda>_. {})"
  unfolding rpc_server_write_def rpc_server_chmod_def rpc_server_chown_def rpc_server_utimens_def rpc_server_truncate_def Let_def
  by (auto intro!: typing calm_rules services_axioms)

end

section \<open>The calls\<close>

text \<open>What a call returns, unless the loop around it goes on or gives up\<close>

definition returned :: "('a \<Rightarrow> int) \<Rightarrow> ('a \<Rightarrow> kind set) \<Rightarrow> 'a \<Rightarrow> kind set" where
  "returned code T x = (if code x = - ENOTLEADER \<or> code x = - ENEEDRECOV then {} else T x)"

lemma typed_client_codes [typing]:
  "typed \<Gamma> (rpc_client_getattr E ad r s) (\<lambda>_. {})" "typed \<Gamma> (rpc_client_access E ad r msk) (\<lambda>_. {})"
  "typed \<Gamma> (rpc_client_rmdir_top E ad u) (\<lambda>_. {})" "typed \<Gamma> (rpc_client_rmdir_down E ad r u n) (\<lambda>_. {})"
  "typed \<Gamma> (rpc_client_symlink E ad r src dst) (\<lambda>_. {})" "typed \<Gamma> (rpc_client_rename_same_parent E ad r old new fl) (\<lambda>_. {})"
  "typed \<Gamma> (rpc_client_unlink E ad r n) (\<lambda>_. {})" "typed \<Gamma> (rpc_client_chmod E ad r m) (\<lambda>_. {})"
  "typed \<Gamma> (rpc_client_chown E ad r uid gid) (\<lambda>_. {})" "typed \<Gamma> (rpc_client_utimens E ad r tv0 tv1) (\<lambda>_. {})"
  unfolding rpc_client_getattr_def rpc_client_access_def rpc_client_rmdir_top_def rpc_client_rmdir_down_def rpc_client_symlink_def
    rpc_client_rename_same_parent_def rpc_client_unlink_def rpc_client_chmod_def rpc_client_chown_def rpc_client_utimens_def Let_def
  by (auto intro!: typing)

lemma typed_client_data [typing]:
  "typed \<Gamma> (rpc_client_readdir E ad r) (\<lambda>_. {})" "typed \<Gamma> (rpc_client_readlink E ad r sz) (\<lambda>_. {})"
  "typed \<Gamma> (rpc_client_write E ad i r buf off fl) (\<lambda>_. {})" "typed \<Gamma> (rpc_client_truncate E ad i r off) (\<lambda>_. {})"
  unfolding rpc_client_readdir_def rpc_client_readlink_def rpc_client_write_def rpc_client_truncate_def Let_def
  by (auto intro!: typing calm_rules)

lemma typed_client_handles [typing]:
  "R i \<in> \<Gamma> \<Longrightarrow> typed \<Gamma> (rpc_client_opendir E ad i r fi) (\<lambda>_. {})" "R i \<in> \<Gamma> \<Longrightarrow> typed \<Gamma> (rpc_client_open E ad i r fi) (\<lambda>_. {})"
  "typed \<Gamma> (rpc_client_create E ad r n m fi) (\<lambda>_. {})"
  unfolding rpc_client_opendir_def rpc_client_open_def rpc_client_create_def Let_def by (auto intro!: typing)

lemma typed_client_rename_dst [typing]:
  "ptr I target \<subseteq> \<Gamma> \<Longrightarrow> typed \<Gamma> (rpc_client_rename_not_same_parent_dst E ad r target u new fl) (\<lambda>_. {})"
  unfolding rpc_client_rename_not_same_parent_dst_def by (auto intro!: typing)

lemma typed_remote_ops [typing]:
  "R i \<in> \<Gamma> \<Longrightarrow> typed \<Gamma> (remote_getattr E i s) (\<lambda>_. {})" "R i \<in> \<Gamma> \<Longrightarrow> typed \<Gamma> (remote_access E i msk) (\<lambda>_. {})"
  "R i \<in> \<Gamma> \<Longrightarrow> typed \<Gamma> (remote_opendir E i fi) (\<lambda>_. {})" "R i \<in> \<Gamma> \<Longrightarrow> typed \<Gamma> (remote_readdir E i) (\<lambda>_. {})"
  "R i \<in> \<Gamma> \<Longrightarrow> typed \<Gamma> (remote_rmdir_top E i u) (\<lambda>_. {})" "R i \<in> \<Gamma> \<Longrightarrow> typed \<Gamma> (remote_rmdir_down E i u n) (\<lambda>_. {})"
  "R i \<in> \<Gamma> \<Longrightarrow> typed \<Gamma> (remote_symlink E i src dst) (\<lambda>_. {})" "R i \<in> \<Gamma> \<Longrightarrow> typed \<Gamma> (remote_readlink E i sz) (\<lambda>_. {})"
  "R i \<in> \<Gamma> \<Longrightarrow> typed \<Gamma> (remote_rename_same_parent E i old new fl) (\<lambda>_. {})"
  "R i \<in> \<Gamma> \<Longrightarrow> ptr I target \<subseteq> \<Gamma> \<Longrightarrow> typed \<Gamma> (remote_rename_not_same_parent_dst E i target u new fl) (\<lambda>_. {})"
  "R i \<in> \<Gamma> \<Longrightarrow> typed \<Gamma> (remote_open E i fi) (\<lambda>_. {})" "R i \<in> \<Gamma> \<Longrightarrow> typed \<Gamma> (remote_create E i n m fi) (\<lambda>_. {})"
  "R i \<in> \<Gamma> \<Longrightarrow> typed \<Gamma> (remote_unlink E i n) (\<lambda>_. {})" "R i \<in> \<Gamma> \<Longrightarrow> typed \<Gamma> (remote_write E i buf off fl) (\<lambda>_. {})"
  "R i \<in> \<Gamma> \<Longrightarrow> typed \<Gamma> (remote_chmod E i m) (\<lambda>_. {})" "R i \<in> \<Gamma> \<Longrightarrow> typed \<Gamma> (remote_chown E i uid gid) (\<lambda>_. {})"
  "R i \<in> \<Gamma> \<Longrightarrow> typed \<Gamma> (remote_utimens E i tv0 tv1) (\<lambda>_. {})" "R i \<in> \<Gamma> \<Longrightarrow> typed \<Gamma> (remote_truncate E i off) (\<lambda>_. {})"
  unfolding remote_getattr_def remote_access_def remote_opendir_def remote_readdir_def remote_rmdir_top_def remote_rmdir_down_def remote_symlink_def
    remote_readlink_def remote_rename_same_parent_def remote_rename_not_same_parent_dst_def remote_open_def remote_create_def remote_unlink_def
    remote_write_def remote_chmod_def remote_chown_def remote_utimens_def remote_truncate_def
  by (auto intro!: typing)

context services
begin

text \<open>The new directory of a successful \<open>mkdir\<close>, and the file of a successful first half of a rename\<close>

lemma typed_remote_mkdir:
  assumes "R i \<in> \<Gamma>"
  shows "typed \<Gamma> (remote_mkdir E i name mode) (returned fst (\<lambda>(r, made).
    case made of None \<Rightarrow> {Absurd} | Some (a, ds) \<Rightarrow> {I a, K a (this_ino ds)} \<union> fact (child_list ds = [])))"
proof -
  have call: "typed \<Delta> (sys_call (stub_mkdir (peers E) ad q)) (\<lambda>answer. case answer of None \<Rightarrow> {} | Some out \<Rightarrow>
      fact (a_mkdir_ret out = 0 \<or> a_mkdir_ret out = - ENOTLEADER))" for \<Delta> ad q
    by (rule typedI) (auto simp: sys_call_def split: prod.splits option.splits dest: mkdir_answers)
  have new: "typed \<Delta> (on_sys (lift (dentry_new (meta_io E) u True)) :: (dentry, 's) cprog) (\<lambda>ds. fact (this_ino ds = u \<and> child_list ds = []))"
    for \<Delta> u
    by (rule typedI) (auto simp: on_sys_def zoom_def lift_def dentry_new_def)
  have ino: "i_ino (core (inode_new_dir ts p uid gid m u)) = u" for ts p uid gid m u by (simp add: inode_new_dir_def Let_def)
  show ?thesis
    supply typed_sys_call [typing del]
    unfolding remote_mkdir_def rpc_client_mkdir_def Let_def using assms
    by (auto simp: returned_def ino ENOTLEADER_def ENEEDRECOV_def intro!: call new typing calm_rules)
qed

lemma typed_remote_rename_src:
  assumes "R i \<in> \<Gamma>"
  shows "typed \<Gamma> (remote_rename_not_same_parent_src E i old fl) (returned fst (\<lambda>(r, moved). ptr I moved))"
proof -
  have call: "typed \<Delta> (sys_call (stub_rename_src (peers E) ad q)) (\<lambda>answer. case answer of None \<Rightarrow> {} | Some out \<Rightarrow>
      fact (a_rename_ret out = 0 \<or> a_rename_ret out = - ENOTLEADER \<or> a_rename_ret out = - ENOSYS))" for \<Delta> ad q
    by (rule typedI) (auto simp: sys_call_def split: prod.splits option.splits dest: rename_answers)
  show ?thesis
    supply typed_sys_call [typing del]
    unfolding remote_rename_not_same_parent_src_def rpc_client_rename_not_same_parent_src_def using assms
    by (auto simp: returned_def ENOTLEADER_def ENEEDRECOV_def ENOSYS_def intro!: call typing)
qed

end

end
