(* ===== verification/Fuse_Types.thy ===== *)
theory Fuse_Types
  imports Rpc_Types
begin

text \<open>
  Typing of the operations FUSE calls (\<open>client/fs_ops/fuse_ops.cpp\<close>), and the states a client can
  reach by its own operations and by requests of other clients.
\<close>

section \<open>Fragments\<close>

lemma typed_to_plain: "typed \<Gamma> m (\<lambda>_. {}) \<Longrightarrow> typed \<Gamma> m (returned code (\<lambda>_. {}))"
  by (erule typed_sub) (simp add: returned_def)

context services
begin

lemma typed_retry_remote:
  assumes "R i \<in> \<Gamma>" and "typed \<Gamma> m (returned code T)"
  shows "typed \<Gamma> (retry_remote E i code m) T"
proof (rule typedI)
  fix st r st' assume st: "client_ok st" "all_ok st \<Gamma>" and "retry_remote E i code m st = Some (r, st')"
  from this(3) assms services_axioms st
  show "client_ok st' \<and> evolves st st' \<and> (case r of Inl e \<Rightarrow> \<not> internal_error e | Inr x \<Rightarrow> all_ok st' (T x))"
  proof (induction E i code m st "(r, st')" rule: retry_remote.raw_induct [rotated 1, consumes 1])
    case (1 retry E i code m st)
    obtain q st1 where q: "m st = Some (q, st1)" using 1(2) by (auto split: option.splits)
    note m = typedD [OF 1(4) 1(6,7) q]
    have all1: "all_ok st1 \<Gamma>" using all_ok_evolves [OF 1(7) m(2)] .
    show ?case
    proof (cases q)
      case (Inl e)
      then show ?thesis using 1(2) q m by auto
    next
      case (Inr x)
      show ?thesis
      proof (cases "code x = - ENOTLEADER")
        case False
        then show ?thesis using 1(2) q Inr m by (auto simp: returned_def split: if_splits)
      next
        case True
        then obtain p st2 where p: "find_remote_dentry_table_again E i st1 = Some (p, st2)"
          using 1(2) q Inr by (auto split: option.splits)
        note f = typedD [OF services.typed_find_remote_dentry_table_again [OF 1(5,3)] m(1) all1 p]
        have all2: "all_ok st2 \<Gamma>" using all_ok_evolves [OF all1 f(2)] .
        show ?thesis
        proof (cases p)
          case (Inl e)
          then show ?thesis using 1(2) q Inr True p m(2) f by (auto intro: evolves_trans)
        next
          case (Inr u)
          then have "retry E i code m st2 = Some (r, st')" using 1(2) q \<open>q = Inr x\<close> True p by simp
          then show ?thesis using 1(1) [OF _ 1(3-5) f(1) all2] evolves_trans [OF m(2) evolves_trans [OF f(2)]] by blast
        qed
      qed
    qed
  qed
qed

lemmas typed_retry_plain = typed_retry_remote [OF _ typed_to_plain]

lemma typed_by_location:
  assumes "I i \<in> \<Gamma>" and "T other \<subseteq> \<Gamma>" and "typed \<Gamma> local_op T" and "typed (insert (R i) \<Gamma>) remote_op (returned code T)"
  shows "typed \<Gamma> (by_location E code i other local_op remote_op) T"
proof -
  have loc: "typed \<Gamma> (gets (\<lambda>st :: 's client_state. loc (the_inode st i))) (\<lambda>l. if l = REMOTE then {R i} else {})"
  proof (rule typedI)
    fix st :: "'s client_state" and r st' assume st: "client_ok st" "all_ok st \<Gamma>" "gets (\<lambda>st. loc (the_inode st i)) st = Some (r, st')"
    have "inode_kind (iobjs st i)" using st(1) all_okD [OF st(2) assms(1)] by (simp add: client_ok_def)
    then show "client_ok st' \<and> evolves st st' \<and> (case r of Inl e \<Rightarrow> \<not> internal_error e | Inr l \<Rightarrow> all_ok st' (if l = REMOTE then {R i} else {}))"
      using st(1,3) all_okD [OF st(2) assms(1)] by (auto simp: gets_def inode_kind_def)
  qed
  have "typed (insert (R i) \<Gamma>) (retry_remote E i code remote_op) T" using assms(4) by (intro typed_retry_remote) simp_all
  then show ?thesis
    unfolding by_location_def using assms(2,3) by (intro typed_bnd [OF loc] typed_loc) (auto intro!: typed_ret)
qed

lemma typed_by_location_plain [typing]:
  assumes "I i \<in> \<Gamma>" and "typed \<Gamma> local_op (\<lambda>_. {})" and "typed (insert (R i) \<Gamma>) remote_op (\<lambda>_. {})"
  shows "typed \<Gamma> (by_location E code i other local_op remote_op) (\<lambda>_. {})"
  using assms by (intro typed_by_location typed_to_plain) auto

lemma typed_by_table_plain [typing]:
  assumes "typed \<Gamma> local_op (\<lambda>_. {})" and "\<And>r. typed (\<Gamma> \<union> {I r, R r}) (remote_op r) (\<lambda>_. {})"
  shows "typed \<Gamma> (by_table E code d name other local_op remote_op) (\<lambda>_. {})"
  unfolding by_table_def using assms
  by (intro typed_bnd [OF typed_gets] typed_loc typed_bnd [OF typed_make_remote] typed_retry_plain) (auto intro!: typing)

lemma typed_fuse_fragments [typing]:
  "typed \<Gamma> (handle_inode fi) (\<lambda>a. {I a})" "typed \<Gamma> (path_inode E p) (\<lambda>a. {I a})"
  "typed \<Gamma> (parent_dir E p) (\<lambda>(i, d). {I i, D d})" "typed \<Gamma> (file_info_of info) (\<lambda>_. {})"
  unfolding handle_inode_def path_inode_def parent_dir_def file_info_of_def
  by (auto intro!: typed_get_open_inode_info typing)

lemma typed_target_inode [typing]: "typed \<Gamma> (target_inode E info p) (\<lambda>a. {I a})"
  unfolding target_inode_def by (auto intro!: typing split: option.split)

lemma typed_catch_errors [typing]:
  "typed \<Gamma> m T \<Longrightarrow> (\<And>c. T (w c) \<subseteq> \<Gamma>) \<Longrightarrow> typed \<Gamma> (catch_errors w m) T"
  unfolding catch_errors_def by (auto intro!: typing simp del: internal_error.simps)

end

section \<open>Operations\<close>

context services
begin

lemma typed_fuse_attributes:
  "typed \<Gamma> (fuse_getattr E p s info) (\<lambda>_. {})" "typed \<Gamma> (fuse_access E p msk) (\<lambda>_. {})" "typed \<Gamma> (fuse_chmod E p m info) (\<lambda>_. {})"
  "typed \<Gamma> (fuse_chown E p uid gid info) (\<lambda>_. {})" "typed \<Gamma> (fuse_utimens E p tv0 tv1 info) (\<lambda>_. {})" "typed \<Gamma> (fuse_truncate E p off info) (\<lambda>_. {})"
  unfolding fuse_getattr_def fuse_access_def fuse_chmod_def fuse_chown_def fuse_utimens_def fuse_truncate_def
  by (auto intro!: typing)

lemma typed_fuse_links:
  "typed \<Gamma> (fuse_symlink E src dst) (\<lambda>_. {})" "typed \<Gamma> (fuse_readlink E p sz) (\<lambda>_. {})"
  unfolding fuse_symlink_def fuse_readlink_def by (auto intro!: typing)

lemma typed_fuse_handles:
  "typed \<Gamma> (fuse_opendir E p fi) (\<lambda>_. {})" "typed \<Gamma> (fuse_releasedir E p info) (\<lambda>_. {})" "typed \<Gamma> (fuse_open E p fi) (\<lambda>_. {})"
  "typed \<Gamma> (fuse_release E p info) (\<lambda>_. {})"
  unfolding fuse_opendir_def fuse_releasedir_def fuse_open_def fuse_release_def by (auto intro!: typing)

lemma typed_fuse_readdir: "typed \<Gamma> (fuse_readdir E p info) (\<lambda>_. {})"
  unfolding fuse_readdir_def by (auto intro!: typed_retry_plain typing)

lemma typed_fuse_files: "typed \<Gamma> (fuse_create E p mode fi) (\<lambda>_. {})" "typed \<Gamma> (fuse_unlink E p) (\<lambda>_. {})"
  unfolding fuse_create_def fuse_unlink_def by (auto intro!: typing)

lemma typed_fuse_write: "typed \<Gamma> (fuse_write E p buf off info) (\<lambda>_. {})"
  unfolding fuse_write_def by (auto intro!: typing)

lemma typed_read_program: "typed \<Gamma> (read_program E i sz off) (\<lambda>_. {})"
proof (rule typedI)
  fix st :: "'s client_state" and r st' assume st: "client_ok st" "read_program E i sz off st = Some (r, st')"
  obtain q bs s where q: "rados_read (data_io E) DATA (uuid_to_string (data_io E) (ino_of st i)) (unat sz) (unat off) (sys st) = (q, bs, s)"
    by (metis prod_cases3)
  then have "st' = st\<lparr>sys := s\<rparr>" using st(2) by (auto simp: read_program_def local_read_def split: sum.splits exn.splits)
  moreover have "\<not> internal_error e" if "r = Inl e" for e
    using st(2) q that
    by (auto simp: read_program_def local_read_def simp del: internal_error.simps split: sum.splits exn.splits dest: rados_read_calm)
  ultimately show "client_ok st' \<and> evolves st st' \<and> (case r of Inl e \<Rightarrow> \<not> internal_error e | Inr x \<Rightarrow> all_ok st' {})"
    using st(1) by (auto split: sum.split)
qed

lemma typed_fuse_read: "typed \<Gamma> (fuse_read E p sz off info) (\<lambda>_. {})"
proof -
  have "typed \<Gamma> (case e of No_entry \<Rightarrow> ret (- ENOENT, []) | Permission_denied \<Rightarrow> ret (- EACCES, [])
      | No_such_object n \<Rightarrow> ret (to_int (int n), []) | _ \<Rightarrow> throw e) (\<lambda>_. {})" if "\<not> internal_error e" for e
    using that by (cases e) (auto intro!: typing simp del: internal_error.simps)
  then show ?thesis unfolding fuse_read_def by (auto intro!: typed_read_program typing simp del: internal_error.simps)
qed

lemma typed_lease_new_dir [typing]:
  "(Absurd \<notin> \<Gamma> \<Longrightarrow> \<exists>a ds. made = Some (a, ds) \<and> I a \<in> \<Gamma> \<and> K a (this_ino ds) \<in> \<Gamma> \<and> child_list ds = []) \<Longrightarrow> typed \<Gamma> (lease_new_dir E made) (\<lambda>_. {})"
  unfolding lease_new_dir_def by (cases "Absurd \<in> \<Gamma>", rule typed_absurd) (auto intro!: typing)

lemma typed_fuse_mkdir: "typed \<Gamma> (fuse_mkdir E p mode) (\<lambda>_. {})"
  unfolding fuse_mkdir_def
  by (auto intro!: typed_retry_remote [OF _ typed_remote_mkdir] typing split: option.splits)

lemma typed_rmdir_top: "typed \<Gamma> (rmdir_top E l d t u n) (\<lambda>_. {})"
  unfolding rmdir_top_def by (auto intro!: typed_retry_plain typing)

lemma typed_fuse_rmdir: "typed \<Gamma> (fuse_rmdir E p) (\<lambda>_. {})"
  unfolding fuse_rmdir_def by (auto intro!: typed_rmdir_top typed_retry_plain typing)

lemma typed_rename_out: "I p \<in> \<Gamma> \<Longrightarrow> typed \<Gamma> (rename_out E l d p old fl) (\<lambda>moved. ptr I moved)"
  unfolding rename_out_def by (auto intro!: typed_retry_remote [OF _ typed_remote_rename_src] typing)

lemma typed_rename_in: "I p \<in> \<Gamma> \<Longrightarrow> ptr I moved \<subseteq> \<Gamma> \<Longrightarrow> typed \<Gamma> (rename_in E l d p moved u new fl) (\<lambda>_. {})"
  unfolding rename_in_def by (auto intro!: typed_retry_plain typing)

lemma typed_fuse_rename: "typed \<Gamma> (fuse_rename E old new fl) (\<lambda>_. {})"
  unfolding fuse_rename_def rename_inside_def rename_across_def
  by (auto intro!: typed_rename_out typed_rename_in typing simp del: internal_error.simps)

end

end
