(* ===== verification/Client_Runs.thy ===== *)
theory Client_Runs
  imports Fuse_Types
begin

text \<open>
  The runs of a client: its own operations, in any order, as FUSE calls them, requests of other
  clients in between, and changes of the world and the journal by others.
\<close>

section \<open>The operations FUSE calls\<close>

text \<open>The table that \<open>get_fuse_ops\<close> fills in; the result of a call goes to the kernel.
  \<open>destroy\<close> shuts the server down and changes nothing else.\<close>

datatype fuse_call =
    Init
  | Destroy
  | Getattr string stat "fuse_file_info option"
  | Access string "32 word"
  | Symlink bytes string
  | Readlink string "64 word"
  | Opendir string fuse_file_info
  | Releasedir string "fuse_file_info option"
  | Readdir string "fuse_file_info option"
  | Mkdir string "32 word"
  | Rmdir string
  | Rename string string "32 word"
  | Open string fuse_file_info
  | Release string "fuse_file_info option"
  | Create string "32 word" fuse_file_info
  | Unlink string
  | Read string "64 word" "64 word" "fuse_file_info option"
  | Write string bytes "64 word" "fuse_file_info option"
  | Chmod string "32 word" "fuse_file_info option"
  | Chown string "32 word" "32 word" "fuse_file_info option"
  | Utimens string timespec timespec "fuse_file_info option"
  | Truncate string "64 word" "fuse_file_info option"

definition finish :: "('a, 's) cprog \<Rightarrow> (unit, 's) cprog" where
  "finish m = bnd m (\<lambda>_. ret ())"

fun get_fuse_ops :: "'s env \<Rightarrow> fuse_call \<Rightarrow> (unit, 's) cprog" where
  "get_fuse_ops E Init = fuse_init E"
| "get_fuse_ops E Destroy = ret ()"
| "get_fuse_ops E (Getattr p s info) = finish (fuse_getattr E p s info)"
| "get_fuse_ops E (Access p msk) = finish (fuse_access E p msk)"
| "get_fuse_ops E (Symlink src dst) = finish (fuse_symlink E src dst)"
| "get_fuse_ops E (Readlink p sz) = finish (fuse_readlink E p sz)"
| "get_fuse_ops E (Opendir p fi) = finish (fuse_opendir E p fi)"
| "get_fuse_ops E (Releasedir p info) = finish (fuse_releasedir E p info)"
| "get_fuse_ops E (Readdir p info) = finish (fuse_readdir E p info)"
| "get_fuse_ops E (Mkdir p mode) = finish (fuse_mkdir E p mode)"
| "get_fuse_ops E (Rmdir p) = finish (fuse_rmdir E p)"
| "get_fuse_ops E (Rename old_path new_path flags) = finish (fuse_rename E old_path new_path flags)"
| "get_fuse_ops E (Open p fi) = finish (fuse_open E p fi)"
| "get_fuse_ops E (Release p info) = finish (fuse_release E p info)"
| "get_fuse_ops E (Create p mode fi) = finish (fuse_create E p mode fi)"
| "get_fuse_ops E (Unlink p) = finish (fuse_unlink E p)"
| "get_fuse_ops E (Read p sz offset info) = finish (fuse_read E p sz offset info)"
| "get_fuse_ops E (Write p buffer offset info) = finish (fuse_write E p buffer offset info)"
| "get_fuse_ops E (Chmod p mode info) = finish (fuse_chmod E p mode info)"
| "get_fuse_ops E (Chown p uid gid info) = finish (fuse_chown E p uid gid info)"
| "get_fuse_ops E (Utimens p tv0 tv1 info) = finish (fuse_utimens E p tv0 tv1 info)"
| "get_fuse_ops E (Truncate p offset info) = finish (fuse_truncate E p offset info)"

section \<open>The requests of other clients\<close>

datatype rpc_call =
    Rpc_check_child_inode rpc_dentry_table_request
  | Rpc_get_mode rpc_inode_request
  | Rpc_permission_check rpc_inode_request
  | Rpc_getattr rpc_getattr_request
  | Rpc_access rpc_access_request
  | Rpc_opendir rpc_open_opendir_request
  | Rpc_readdir rpc_readdir_request
  | Rpc_mkdir rpc_mkdir_request
  | Rpc_rmdir_top rpc_rmdir_request
  | Rpc_rmdir_down rpc_rmdir_request
  | Rpc_symlink rpc_symlink_request
  | Rpc_readlink rpc_readlink_request
  | Rpc_rename_same_parent rpc_rename_same_parent_request
  | Rpc_rename_not_same_parent_src rpc_rename_not_same_parent_src_request
  | Rpc_rename_not_same_parent_dst rpc_rename_not_same_parent_dst_request
  | Rpc_open rpc_open_opendir_request
  | Rpc_create rpc_create_request
  | Rpc_unlink rpc_unlink_request
  | Rpc_write rpc_write_request
  | Rpc_chmod rpc_chmod_request
  | Rpc_chown rpc_chown_request
  | Rpc_utimens rpc_utimens_request
  | Rpc_truncate rpc_truncate_request

fun rpc_server :: "'s env \<Rightarrow> rpc_call \<Rightarrow> (unit, 's) cprog" where
  "rpc_server E (Rpc_check_child_inode q) = finish (rpc_server_check_child_inode E q)"
| "rpc_server E (Rpc_get_mode q) = finish (rpc_server_get_mode E q)"
| "rpc_server E (Rpc_permission_check q) = finish (rpc_server_permission_check E q)"
| "rpc_server E (Rpc_getattr q) = finish (rpc_server_getattr E q)"
| "rpc_server E (Rpc_access q) = finish (rpc_server_access E q)"
| "rpc_server E (Rpc_opendir q) = finish (rpc_server_opendir E q)"
| "rpc_server E (Rpc_readdir q) = finish (rpc_server_readdir E q)"
| "rpc_server E (Rpc_mkdir q) = finish (rpc_server_mkdir E q)"
| "rpc_server E (Rpc_rmdir_top q) = finish (rpc_server_rmdir_top E q)"
| "rpc_server E (Rpc_rmdir_down q) = finish (rpc_server_rmdir_down E q)"
| "rpc_server E (Rpc_symlink q) = finish (rpc_server_symlink E q)"
| "rpc_server E (Rpc_readlink q) = finish (rpc_server_readlink E q)"
| "rpc_server E (Rpc_rename_same_parent q) = finish (rpc_server_rename_same_parent E q)"
| "rpc_server E (Rpc_rename_not_same_parent_src q) = finish (rpc_server_rename_not_same_parent_src E q)"
| "rpc_server E (Rpc_rename_not_same_parent_dst q) = finish (rpc_server_rename_not_same_parent_dst E q)"
| "rpc_server E (Rpc_open q) = finish (rpc_server_open E q)"
| "rpc_server E (Rpc_create q) = finish (rpc_server_create E q)"
| "rpc_server E (Rpc_unlink q) = finish (rpc_server_unlink E q)"
| "rpc_server E (Rpc_write q) = finish (rpc_server_write E q)"
| "rpc_server E (Rpc_chmod q) = finish (rpc_server_chmod E q)"
| "rpc_server E (Rpc_chown q) = finish (rpc_server_chown E q)"
| "rpc_server E (Rpc_utimens q) = finish (rpc_server_utimens E q)"
| "rpc_server E (Rpc_truncate q) = finish (rpc_server_truncate E q)"

section \<open>Reachable states\<close>

text \<open>A process starts without objects and tables.\<close>

definition fresh_client :: "'s client_state \<Rightarrow> bool" where
  "fresh_client st \<longleftrightarrow> next_iobj st = 0 \<and> next_dtab st = 0 \<and> dentry_tables st = [] \<and> fh_list st = []"

text \<open>An operation may also end with an exception, in the state it has reached by then.\<close>

inductive reachable :: "'s env \<Rightarrow> 's client_state \<Rightarrow> bool" for E where
  start: "fresh_client st \<Longrightarrow> reachable E st"
| operation: "reachable E st \<Longrightarrow> get_fuse_ops E c st = Some (r, st') \<Longrightarrow> reachable E st'"
| request: "reachable E st \<Longrightarrow> rpc_server E q st = Some (r, st') \<Longrightarrow> reachable E st'"
| others: "reachable E st \<Longrightarrow> reachable E (st\<lparr>sys := s, jrnl := j\<rparr>)"

lemma typed_finish [typing]: "typed \<Gamma> m (\<lambda>_. {}) \<Longrightarrow> typed \<Gamma> (finish m) (\<lambda>_. {})"
  unfolding finish_def by (auto intro!: typing)

lemma typed_make_root [typing]: "typed \<Gamma> (make_root E) (\<lambda>_. {})"
  unfolding make_root_def by (auto intro!: typing calm_rules)

context services
begin

lemma typed_fuse_init: "typed \<Gamma> (fuse_init E) (\<lambda>_. {})"
proof -
  have reset: "typed \<Delta> (modify (\<lambda>st :: 's client_state. st\<lparr>fh_list := [], jrnl := journal_new\<rparr>)) (\<lambda>_. {})" for \<Delta>
    by (rule typedI) (auto simp: modify_def client_ok_def evolves_def)
  show ?thesis
    unfolding fuse_init_def directory_table_new_def by (auto intro!: reset typing calm_rules)
qed

lemma typed_get_fuse_ops: "typed \<Gamma> (get_fuse_ops E c) (\<lambda>_. {})"
  by (cases c) (auto intro!: typed_ret typed_finish typed_fuse_init typed_fuse_attributes typed_fuse_links typed_fuse_handles typed_fuse_readdir typed_fuse_files
      typed_fuse_write typed_fuse_read typed_fuse_mkdir typed_fuse_rmdir typed_fuse_rename)

lemma typed_rpc_server: "typed \<Gamma> (rpc_server E q) (\<lambda>_. {})"
  by (cases q) (auto intro!: typed_finish typed_server_lookups typed_server_getattr typed_server_directories typed_server_links typed_server_renames
      typed_server_open typed_server_files typed_server_changes)

lemma reachable_ok: "reachable E st \<Longrightarrow> client_ok st"
proof (induction rule: reachable.induct)
  case (start st)
  then show ?case by (simp add: fresh_client_def client_ok_def)
next
  case (operation st c r st')
  then show ?case using typedD(1) [OF typed_get_fuse_ops [where \<Gamma> = "{}"]] by simp
next
  case (request st q r st')
  then show ?case using typedD(1) [OF typed_rpc_server [where \<Gamma> = "{}"]] by simp
next
  case (others st s j)
  then show ?case by simp
qed

text \<open>No operation and no request meets an internal error.\<close>

lemma operation_calm: "reachable E st \<Longrightarrow> get_fuse_ops E c st = Some (Inl e, st') \<Longrightarrow> \<not> internal_error e"
  using typedD(3) [OF typed_get_fuse_ops [where \<Gamma> = "{}"] reachable_ok, where r = "Inl e"] by simp

lemma request_calm: "reachable E st \<Longrightarrow> rpc_server E q st = Some (Inl e, st') \<Longrightarrow> \<not> internal_error e"
  using typedD(3) [OF typed_rpc_server [where \<Gamma> = "{}"] reachable_ok, where r = "Inl e"] by simp

end

end
