(* ===== verification/World_Frame.thy ===== *)
theory World_Frame
  imports Client_Runs Cluster
begin

text \<open>
  What a client does to the world around it, it does through the functions of its environment: a
  property of the world that these functions keep is kept by every operation of the client. For a
  client that calls another client the world is the state of that client, so that what the service
  keeps survives every operation of the caller.
\<close>

section \<open>Programs that keep a property of the world\<close>

definition kept :: "('s \<Rightarrow> bool) \<Rightarrow> ('s \<Rightarrow> 'a \<times> 's) \<Rightarrow> bool" where
  "kept Q f \<longleftrightarrow> (\<forall>s. Q s \<longrightarrow> Q (snd (f s)))"

definition below :: "('s \<Rightarrow> bool) \<Rightarrow> ('a, 's) prog \<Rightarrow> bool" where
  "below Q m \<longleftrightarrow> (\<forall>s r s'. Q s \<longrightarrow> m s = Some (r, s') \<longrightarrow> Q s')"

definition keeps :: "('s \<Rightarrow> bool) \<Rightarrow> ('a, 's) cprog \<Rightarrow> bool" where
  "keeps Q m \<longleftrightarrow> (\<forall>st r st'. Q (sys st) \<longrightarrow> m st = Some (r, st') \<longrightarrow> Q (sys st'))"

lemma keptD: "kept Q f \<Longrightarrow> Q s \<Longrightarrow> f s = (x, s') \<Longrightarrow> Q s'"
  by (metis kept_def snd_conv)

lemma keepsD: "keeps Q m \<Longrightarrow> Q (sys st) \<Longrightarrow> m st = Some (r, st') \<Longrightarrow> Q (sys st')"
  by (simp add: keeps_def)

named_theorems keeping "rules about what programs keep"

text \<open>A program that leaves the world alone\<close>

lemma keeps_quiet: "(\<And>st r st'. m st = Some (r, st') \<Longrightarrow> sys st' = sys st) \<Longrightarrow> keeps Q m"
  by (auto simp: keeps_def)

text \<open>For a program that inspects the state and goes on as one of several programs\<close>

lemma keepsI: "(\<And>st r st'. m st = Some (r, st') \<Longrightarrow> Q (sys st) \<Longrightarrow> Q (sys st')) \<Longrightarrow> keeps Q m"
  by (simp add: keeps_def)

lemma keeps_run: "m st = Some (r, st') \<Longrightarrow> Q (sys st) \<Longrightarrow> keeps Q m \<Longrightarrow> Q (sys st')"
  by (simp add: keepsD)

lemma keeps_dep: "(\<And>x. keeps Q (f x)) \<Longrightarrow> keeps Q (\<lambda>st. f (g st) st)"
  by (auto simp: keeps_def)

lemma keeps_ret [keeping]: "keeps Q (ret x)"
  by (simp add: keeps_def ret_def)

lemma keeps_throw [keeping]: "keeps Q (throw e)"
  by (simp add: keeps_def throw_def)

lemma keeps_bnd [keeping]: "keeps Q m \<Longrightarrow> (\<And>x. keeps Q (f x)) \<Longrightarrow> keeps Q (bnd m f)"
  unfolding keeps_def [of Q "bnd m f"] by (auto simp: bnd_def split: option.splits sum.splits dest: keepsD)

lemma keeps_catch [keeping]: "keeps Q m \<Longrightarrow> (\<And>e. keeps Q (h e)) \<Longrightarrow> keeps Q (catch m h)"
  unfolding keeps_def [of Q "catch m h"] by (auto simp: catch_def split: option.splits sum.splits dest: keepsD)

lemma keeps_if [keeping]: "keeps Q m \<Longrightarrow> keeps Q n \<Longrightarrow> keeps Q (if b then m else n)"
  by simp

lemma keeps_option [keeping]: "keeps Q m \<Longrightarrow> (\<And>x. keeps Q (f x)) \<Longrightarrow> keeps Q (case p of None \<Rightarrow> m | Some x \<Rightarrow> f x)"
  by (cases p) simp_all

lemma keeps_pair [keeping]: "(\<And>a b. keeps Q (f a b)) \<Longrightarrow> keeps Q (case p of (a, b) \<Rightarrow> f a b)"
  by (cases p) simp

lemma keeps_let [keeping]: "(\<And>y. keeps Q (f y)) \<Longrightarrow> keeps Q (let y = x in f y)"
  by (simp add: Let_def)

lemma keeps_loc [keeping]: "keeps Q m \<Longrightarrow> keeps Q n \<Longrightarrow> keeps Q b \<Longrightarrow> keeps Q (case l of LOCAL \<Rightarrow> m | REMOTE \<Rightarrow> n | _ \<Rightarrow> b)"
  by (cases l) simp_all

lemma keeps_exn [keeping]:
  "keeps Q a \<Longrightarrow> keeps Q b \<Longrightarrow> (\<And>n. keeps Q (c n)) \<Longrightarrow> (\<And>e. keeps Q d) \<Longrightarrow>
   keeps Q (case e of No_entry \<Rightarrow> a | Permission_denied \<Rightarrow> b | No_such_object n \<Rightarrow> c n | _ \<Rightarrow> d)"
  by (cases e) simp_all

lemma keeps_sys_call [keeping]: "kept Q f \<Longrightarrow> keeps Q (sys_call f)"
  by (auto simp: keeps_def sys_call_def split: prod.splits dest: keptD)

lemma keeps_on_sys [keeping]: "below Q m \<Longrightarrow> keeps Q (on_sys m)"
  by (auto simp: keeps_def on_sys_def zoom_def below_def)

lemma keeps_state [keeping]:
  "keeps Q (gets f)" "keeps Q (from_result x)" "keeps Q (on_journal j)" "keeps Q (new_iobj i)" "keeps Q (new_dtab t)" "keeps Q (upd_inode a g)"
  "keeps Q (upd_dtab d h)" "keeps Q (deref p)" "keeps Q (with_inode a k)" "keeps Q (with_inodes a b l)"
  "keeps Q (add_file_handler n fh)" "keeps Q (get_file_handler n)" "keeps Q (delete_file_handler n)" "keeps Q (open_handle a)"
  by (auto simp: keeps_def gets_def from_result_def on_journal_def zoom_def new_iobj_def new_dtab_def upd_inode_def upd_dtab_def modify_def
      deref_def ret_def throw_def with_inode_def with_inodes_def add_file_handler_def get_file_handler_def delete_file_handler_def open_handle_def bnd_def Let_def
      split: option.splits sum.splits prod.splits if_splits)

section \<open>The pools\<close>

text \<open>A pool whose operations keep a property\<close>

definition pool_keeps :: "('s \<Rightarrow> bool) \<Rightarrow> 's ext \<Rightarrow> bool" where
  "pool_keeps Q X \<longleftrightarrow>
     (\<forall>k n off. kept Q (io_read X k n off)) \<and> (\<forall>k bs off. kept Q (io_write X k bs off)) \<and> (\<forall>k. kept Q (io_stat X k)) \<and>
     (\<forall>k. kept Q (io_remove X k)) \<and> (\<forall>k n. kept Q (io_trunc X k n))"

locale steady_pool =
  fixes Q :: "'s \<Rightarrow> bool" and X :: "'s ext"
  assumes pool_keeps: "pool_keeps Q X"
begin

lemma io_keeps:
  "Q s \<Longrightarrow> io_read X k n off s = (a, s') \<Longrightarrow> Q s'" "Q s \<Longrightarrow> io_write X k bs off s = (b, s') \<Longrightarrow> Q s'"
  "Q s \<Longrightarrow> io_stat X k s = (c, s') \<Longrightarrow> Q s'" "Q s \<Longrightarrow> io_remove X k s = (b, s') \<Longrightarrow> Q s'" "Q s \<Longrightarrow> io_trunc X k n s = (b, s') \<Longrightarrow> Q s'"
  using pool_keeps unfolding pool_keeps_def by (blast dest: keptD)+

lemma obj_keeps:
  "Q s \<Longrightarrow> read_obj X k n off s = (a, s') \<Longrightarrow> Q s'" "Q s \<Longrightarrow> write_obj X k bs off s = (b, s') \<Longrightarrow> Q s'"
  "Q s \<Longrightarrow> truncate_obj X k n s = (c, s') \<Longrightarrow> Q s'"
  by (auto simp: read_obj_def write_obj_def truncate_obj_def split: prod.splits if_splits dest: io_keeps)

lemma read_loop_keeps: "read_loop X k cursor stop val s = (r, bs, s') \<Longrightarrow> Q s \<Longrightarrow> Q s'"
proof (induction "stop - cursor" arbitrary: cursor val s rule: less_induct)
  case less
  obtain q s1 where q: "read_obj X (obj_key k (drop_bit OBJ_BITS cursor)) (chunk_len cursor stop) (mask_lo cursor) s = (q, s1)" by fastforce
  have s1: "Q s1" using obj_keeps(1) [OF less.prems(2) q] .
  show ?case
  proof (cases "\<exists>b. q = Inr b \<and> cursor < stop")
    case True
    then obtain b where b: "q = Inr b" "cursor < stop" by blast
    then have "read_loop X k (next_bound cursor) stop (val @ b) s1 = (r, bs, s')"
      using less.prems(1) q by (subst (asm) read_loop.simps) simp
    then show ?thesis by (rule less.hyps [rotated]) (use b s1 next_bound_greater [of cursor] in auto)
  next
    case False
    then show ?thesis using less.prems q s1 by (subst (asm) read_loop.simps) (auto split: if_splits sum.splits exn.splits)
  qed
qed

lemma write_loop_keeps: "write_loop X k cursor stop val acc s = (r, s') \<Longrightarrow> Q s \<Longrightarrow> Q s'"
proof (induction "stop - cursor" arbitrary: cursor val acc s rule: less_induct)
  case less
  let ?n = "chunk_len cursor stop"
  obtain q s1 where q: "write_obj X (obj_key k (drop_bit OBJ_BITS cursor)) (take ?n val) (mask_lo cursor) s = (q, s1)" by fastforce
  have s1: "Q s1" using obj_keeps(2) [OF less.prems(2) q] .
  show ?case
  proof (cases "\<exists>b. q = Inr b \<and> cursor < stop")
    case True
    then obtain b where b: "q = Inr b" "cursor < stop" by blast
    then have "write_loop X k (next_bound cursor) stop (drop ?n val) (acc + b) s1 = (r, s')"
      using less.prems(1) q by (subst (asm) write_loop.simps) (simp add: Let_def)
    then show ?thesis by (rule less.hyps [rotated]) (use b s1 next_bound_greater [of cursor] in auto)
  next
    case False
    then show ?thesis using less.prems q s1 by (subst (asm) write_loop.simps) (auto simp: Let_def split: if_splits sum.splits)
  qed
qed

lemma zerofill_loop_keeps: "zerofill_loop X k cursor stop zeros s = (r, s') \<Longrightarrow> Q s \<Longrightarrow> Q s'"
proof (induction "stop - cursor" arbitrary: cursor s rule: less_induct)
  case less
  obtain q s1 where q: "write_obj X (obj_key k (drop_bit OBJ_BITS cursor)) (take (chunk_len cursor stop) zeros) (mask_lo cursor) s = (q, s1)" by fastforce
  have s1: "Q s1" using obj_keeps(2) [OF less.prems(2) q] .
  show ?case
  proof (cases "\<exists>b. q = Inr b \<and> cursor < stop")
    case True
    then have "zerofill_loop X k (next_bound cursor) stop zeros s1 = (r, s')"
      using less.prems(1) q by (subst (asm) zerofill_loop.simps) auto
    then show ?thesis by (rule less.hyps [rotated]) (use True s1 next_bound_greater [of cursor] in auto)
  next
    case False
    then show ?thesis using less.prems q s1 by (subst (asm) zerofill_loop.simps) (auto split: if_splits sum.splits)
  qed
qed

lemma lb_scan_keeps: "lb_scan X k msg n s = (r, s') \<Longrightarrow> Q s \<Longrightarrow> Q s'"
proof (induction n arbitrary: s)
  case 0
  then show ?case by (auto simp: lb_scan.simps [of _ _ _ 0] split: prod.splits if_splits dest: io_keeps)
next
  case (Suc n)
  then show ?case by (subst (asm) (2) lb_scan.simps) (auto split: prod.splits if_splits dest: io_keeps)
qed

lemma zerofill_keeps: "zerofill X c k n off s = (r, s') \<Longrightarrow> Q s \<Longrightarrow> Q s'"
  unfolding zerofill_def by (rule zerofill_loop_keeps)

lemma rados_read_keeps: "rados_read X c k n off s = (r, bs, s') \<Longrightarrow> Q s \<Longrightarrow> Q s'"
  unfolding rados_read_def by (rule read_loop_keeps)

lemma rados_write_keeps: "rados_write X c k val off s = (r, s') \<Longrightarrow> Q s \<Longrightarrow> Q s'"
  unfolding rados_write_def Let_def
  by (auto split: prod.splits sum.splits if_splits dest: lb_scan_keeps zerofill_keeps write_loop_keeps)

end

lemma remove_loop_keeps: "remove_loop X k n s = Some (r, s') \<Longrightarrow> steady_pool Q X \<Longrightarrow> Q s \<Longrightarrow> Q s'"
proof (induction X k n s "(r, s')" rule: remove_loop.raw_induct [rotated 1, consumes 1])
  case (1 remove_loop X k n s)
  then show ?case by (auto split: prod.splits if_splits dest: steady_pool.io_keeps(4)) (metis steady_pool.io_keeps(4))
qed

lemma trunc_tail_loop_keeps: "trunc_tail_loop X k n s = Some (r, s') \<Longrightarrow> steady_pool Q X \<Longrightarrow> Q s \<Longrightarrow> Q s'"
proof (induction X k n s "(r, s')" rule: trunc_tail_loop.raw_induct [rotated 1, consumes 1])
  case (1 trunc_tail_loop X k n s)
  then show ?case by (auto split: prod.splits if_splits dest: steady_pool.io_keeps(3,4)) (metis steady_pool.io_keeps(3,4))+
qed

context steady_pool
begin

lemma below_lift: "(\<And>s r s'. Q s \<Longrightarrow> m s = (r, s') \<Longrightarrow> Q s') \<Longrightarrow> below Q (lift m)"
  by (simp add: below_def lift_def)

lemma below_remove: "below Q (rados_remove X c k)"
  unfolding below_def rados_remove_def by (blast dest: remove_loop_keeps [OF _ steady_pool_axioms])

lemma below_truncate: "below Q (rados_truncate X c k n)"
  unfolding below_def rados_truncate_def Let_def
  by (auto split: prod.splits sum.splits option.splits if_splits
      dest: lb_scan_keeps zerofill_keeps obj_keeps trunc_tail_loop_keeps [OF _ steady_pool_axioms])

lemma below_steps:
  "below Q (lift (rados_write X c k val off))" "below Q (lift (rados_exist X c k))" "below Q (lift (inode_sync X i))"
  "below Q (lift (dentry_sync X d))"
  by (rule below_lift, auto simp: rados_exist_def inode_sync_def dentry_sync_def split: prod.splits sum.splits if_splits
      dest: rados_write_keeps io_keeps)+

lemma below_loads: "below Q (lift (inode_load X u))" "below Q (lift (dentry_new X u b))"
  by (rule below_lift, auto simp: inode_load_def inode_deserialize_def dentry_new_def Let_def split: prod.splits sum.splits exn.splits if_splits
      dest: rados_read_keeps)+

lemmas below_rules = below_remove below_truncate below_steps below_loads

end

section \<open>The operations of a client\<close>

definition peers_keep :: "('s \<Rightarrow> bool) \<Rightarrow> 's remote_ops \<Rightarrow> bool" where
  "peers_keep Q P \<longleftrightarrow>
     (\<forall>a q. kept Q (stub_check_child_inode P a q)) \<and> (\<forall>a q. kept Q (stub_get_mode P a q)) \<and>
     (\<forall>a q. kept Q (stub_permission_check P a q)) \<and> (\<forall>a q. kept Q (stub_getattr P a q)) \<and> (\<forall>a q. kept Q (stub_access P a q)) \<and>
     (\<forall>a q. kept Q (stub_opendir P a q)) \<and> (\<forall>a q. kept Q (stub_readdir P a q)) \<and> (\<forall>a q. kept Q (stub_mkdir P a q)) \<and>
     (\<forall>a q. kept Q (stub_rmdir_top P a q)) \<and> (\<forall>a q. kept Q (stub_rmdir_down P a q)) \<and> (\<forall>a q. kept Q (stub_symlink P a q)) \<and>
     (\<forall>a q. kept Q (stub_readlink P a q)) \<and> (\<forall>a q. kept Q (stub_rename_same_parent P a q)) \<and> (\<forall>a q. kept Q (stub_rename_src P a q)) \<and>
     (\<forall>a q. kept Q (stub_rename_dst P a q)) \<and> (\<forall>a q. kept Q (stub_open P a q)) \<and> (\<forall>a q. kept Q (stub_create P a q)) \<and>
     (\<forall>a q. kept Q (stub_unlink P a q)) \<and> (\<forall>a q. kept Q (stub_write P a q)) \<and> (\<forall>a q. kept Q (stub_chmod P a q)) \<and>
     (\<forall>a q. kept Q (stub_chown P a q)) \<and> (\<forall>a q. kept Q (stub_utimens P a q)) \<and> (\<forall>a q. kept Q (stub_truncate P a q))"

locale steady_world =
  fixes Q :: "'s \<Rightarrow> bool" and E :: "'s env"
  assumes pools_keep: "pool_keeps Q (meta_io E)" "pool_keeps Q (data_io E)"
    and calls_keep: "kept Q (sys_clock E)" "kept Q (utc_time E)" "kept Q (new_uuid E)" "kept Q (lease_rpc E request)"
    and peers_keep: "peers_keep Q (peers E)"

sublocale steady_world \<subseteq> meta: steady_pool Q "meta_io E"
  by unfold_locales (rule pools_keep)

sublocale steady_world \<subseteq> data: steady_pool Q "data_io E"
  by unfold_locales (rule pools_keep)

context steady_world
begin

lemmas stubs_keep = peers_keep [unfolded peers_keep_def]
lemmas world_rules = keeping calls_keep meta.below_rules data.below_rules

lemma keeps_calls [keeping]:
  "keeps Q (rpc_check_child_inode E ip u n)" "keeps Q (rpc_get_mode E ip u n)" "keeps Q (rpc_permission_check E ip u n msk b)"
  "keeps Q (lc_is_valid E u)" "keeps Q (lc_is_mine E u)" "keeps Q (get_ts E)" "keeps Q (get_ts_checked E)"
  unfolding rpc_check_child_inode_def rpc_get_mode_def rpc_permission_check_def lc_is_valid_def lc_is_mine_def get_ts_def get_ts_checked_def
  by (auto intro!: keeping calls_keep simp: stubs_keep)

lemma keeps_lc_acquire [keeping]: "keeps Q (lc_acquire E u ip)"
proof -
  have "keeps Q (\<lambda>st. case lease_client_acquire (lease_rpc E) now (self_remote st) u ip (leases st, sys st) of
      (r, t, s') \<Rightarrow> Some (r, st\<lparr>leases := t, sys := s'\<rparr>))" for now
    by (auto simp: keeps_def lease_client_acquire_def Let_def split: prod.splits option.splits if_splits dest: keptD [OF calls_keep(4)])
  then show ?thesis unfolding lc_acquire_def by (intro keeping calls_keep)
qed

lemma keeps_virtual [keeping]: "keeps Q (get_mode E a)" "keeps Q (inode_permission_check E a msk)"
  by (rule keepsI, auto simp: get_mode_def inode_permission_check_def split: option.splits elim!: keeps_run intro!: keeping)+

text \<open>The tables\<close>

lemma keeps_children [keeping]:
  "keeps Q (create_child_inode d n a)" "keeps Q (add_child_inode d n a)" "keeps Q (delete_child_inode d n)"
  by (rule keepsI, simp add: create_child_inode_def add_child_inode_def delete_child_inode_def upd_dtab_def modify_def bnd_def ret_def
      split: option.splits if_splits prod.splits)+

lemma keeps_lookups [keeping]: "keeps Q (get_child_inode d n u)" "keeps Q (get_this_dir_inode d)"
  by (rule keepsI, auto simp: get_child_inode_def get_this_dir_inode_def upd_inode_def modify_def bnd_def ret_def new_iobj_def Let_def
      split: option.splits meta_location.splits)+

lemma keeps_registry [keeping]:
  "keeps Q (table_fill_filler d)" "keeps Q (table_get_child_num d)" "keeps Q (add_dentry_table u d)" "keeps Q (delete_dentry_table u)"
  by (rule keepsI, auto simp: table_fill_filler_def table_get_child_num_def add_dentry_table_def delete_dentry_table_def
      split: option.splits if_splits prod.splits)+

lemma keeps_new_tables [keeping]: "keeps Q (dentry_table_new E u l)" "keeps Q (set_leader_ip d ip)"
  unfolding dentry_table_new_def set_leader_ip_def Let_def by (intro keeping meta.below_rules)+

lemma keeps_new_mkdir [keeping]: "keeps Q (dentry_table_new_mkdir a ds l)"
  by (rule keepsI) (auto simp: dentry_table_new_mkdir_def upd_inode_def modify_def bnd_def new_dtab_def split: if_splits)

lemma keeps_check_child [keeping]: "keeps Q (check_child_inode E d n)"
  by (rule keepsI) (auto simp: check_child_inode_def split: option.splits if_splits meta_location.splits
      dest: keeps_run [OF _ _ keeps_calls(1)])

lemma keeps_pull_children: "keeps Q (pull_children E d es)"
proof (induction es)
  case Nil
  show ?case by (rule keepsI) (auto simp: ret_def)
next
  case (Cons e es)
  obtain name u where e: "e = (name, u)" by (cases e)
  have "keeps Q (\<lambda>st1. bnd (new_iobj (i st1)) (\<lambda>a. bnd (add_child_inode d name a) (\<lambda>_. pull_children E d es)) st1)" for i
    by (rule keeps_dep [where f = "\<lambda>i. bnd (new_iobj i) (\<lambda>a. bnd (add_child_inode d name a) (\<lambda>_. pull_children E d es))"])
      (intro keeping Cons.IH)
  then show ?case unfolding e by (intro keepsI) (auto elim!: keeps_run intro!: keeping meta.below_rules)
qed

lemma keeps_lease [keeping]: "keeps Q (pull_child_metadata E d)" "keeps Q (lease_dentry_table E u)" "keeps Q (lease_dentry_table_mkdir E a ds)"
proof -
  show pull: "keeps Q (pull_child_metadata E d)" for d unfolding pull_child_metadata_def by (intro keeping meta.below_rules keeps_pull_children)
  show "keeps Q (lease_dentry_table E u)" "keeps Q (lease_dentry_table_mkdir E a ds)"
    unfolding lease_dentry_table_def lease_dentry_table_mkdir_def by (auto intro!: keeping pull)
qed

lemma keeps_modify_tables [keeping]: "keeps Q (modify (\<lambda>st. st\<lparr>dentry_tables := f st\<rparr>))" "keeps Q (modify (\<lambda>st. st\<lparr>iobjs := g st\<rparr>))"
  by (simp_all add: keeps_def modify_def)

lemma keeps_get_dentry_table [keeping]: "keeps Q (get_dentry_table E u b)"
  by (rule keepsI) (auto simp: get_dentry_table_def split: option.splits if_splits elim!: keeps_run intro!: keeping)

lemma keeps_find_again [keeping]: "keeps Q (find_remote_dentry_table_again E a)"
  by (rule keepsI) (auto simp: find_remote_dentry_table_again_def split: option.splits elim!: keeps_run intro!: keeping)

lemma keeps_traverse [keeping]: "keeps Q (traverse E names p t)"
proof (induction names arbitrary: p t)
  case (Cons name names)
  show ?case by (rule keepsI) (auto elim!: keeps_run intro!: keeping Cons.IH)
qed (rule keepsI, simp add: ret_def)

lemma keeps_path_traversal [keeping]: "keeps Q (path_traversal E p)"
  unfolding path_traversal_def by (auto intro!: keeping)

end

context steady_world
begin

text \<open>The operations on a directory this client leads\<close>

lemma keeps_fragments [keeping]:
  "keeps Q (set_mtime_ctime E a)" "keeps Q (make_inode E u m)" "keeps Q (make_symlink E u m src)" "keeps Q (journal_attr E a)"
  "keeps Q (table_of E a)" "keeps Q (utimens_one E a f tv)" "keeps Q (replace_entry d a n)"
  unfolding set_mtime_ctime_def make_inode_def make_symlink_def journal_attr_def table_of_def utimens_one_def replace_entry_def
  by (intro keeping calls_keep)+

lemma keeps_local_lookups [keeping]:
  "keeps Q (local_getattr a s)" "keeps Q (local_access E a msk)" "keeps Q (local_opendir E a fi)" "keeps Q (local_releasedir a fi)"
  "keeps Q (local_readdir E a)" "keeps Q (local_readlink E a sz)" "keeps Q (local_open E a fi)" "keeps Q (local_release a fi)"
  unfolding local_getattr_def local_access_def local_opendir_def local_releasedir_def local_readdir_def local_readlink_def local_open_def
    local_release_def Let_def
  by (auto intro!: keeping calls_keep)

lemma keeps_local_changes [keeping]:
  "keeps Q (local_mkdir E a n m)" "keeps Q (local_rmdir_top E a u)" "keeps Q (local_rmdir_down E a u n)" "keeps Q (local_symlink E a src dst)"
  "keeps Q (local_create E a n m fi)" "keeps Q (local_unlink E a n)" "keeps Q (local_write E a bs off flags)" "keeps Q (local_truncate E a off)"
  "keeps Q (local_chmod E a m)" "keeps Q (local_chown E a m g)" "keeps Q (local_utimens E a t0 t1)"
  unfolding local_mkdir_def local_rmdir_top_def local_rmdir_down_def local_symlink_def local_create_def local_unlink_def local_write_def
    local_truncate_def local_chmod_def local_chown_def local_utimens_def Let_def
  by (auto intro!: keeping calls_keep data.below_rules meta.below_rules)

lemma keeps_local_rename [keeping]:
  "keeps Q (local_rename_same_parent E a old new fl)" "keeps Q (local_rename_not_same_parent_src E a old fl)"
  "keeps Q (local_rename_not_same_parent_dst E a b u new fl)"
  unfolding local_rename_same_parent_def local_rename_not_same_parent_src_def local_rename_not_same_parent_dst_def Let_def
  by (auto intro!: keeping calls_keep)

text \<open>The calls of other clients\<close>

lemma keeps_open_remote [keeping]: "keeps Q (open_remote_handle u a)"
  by (rule keepsI) (auto simp: open_remote_handle_def Let_def add_file_handler_def bnd_def ret_def split: prod.splits if_splits)

lemma keeps_rpc_lookups [keeping]:
  "keeps Q (rpc_client_getattr E ip r s)" "keeps Q (rpc_client_access E ip r msk)" "keeps Q (rpc_client_opendir E ip a r fi)"
  "keeps Q (rpc_client_readdir E ip r)" "keeps Q (rpc_client_readlink E ip r sz)" "keeps Q (rpc_client_open E ip a r fi)"
  unfolding rpc_client_getattr_def rpc_client_access_def rpc_client_opendir_def rpc_client_readdir_def rpc_client_readlink_def rpc_client_open_def Let_def
  by (auto intro!: keeping simp: stubs_keep)

lemma keeps_rpc_changes [keeping]:
  "keeps Q (rpc_client_mkdir E ip a r n m)" "keeps Q (rpc_client_rmdir_top E ip u)" "keeps Q (rpc_client_rmdir_down E ip r u n)"
  "keeps Q (rpc_client_symlink E ip r src n)" "keeps Q (rpc_client_rename_same_parent E ip r old new fl)"
  "keeps Q (rpc_client_rename_not_same_parent_src E ip r old fl)" "keeps Q (rpc_client_rename_not_same_parent_dst E ip r p u new fl)"
  "keeps Q (rpc_client_create E ip r n m fi)" "keeps Q (rpc_client_unlink E ip r n)" "keeps Q (rpc_client_write E ip a r bs off fl)"
  "keeps Q (rpc_client_chmod E ip r m)" "keeps Q (rpc_client_chown E ip r x g)" "keeps Q (rpc_client_utimens E ip r t0 t1)"
  "keeps Q (rpc_client_truncate E ip a r off)"
  unfolding rpc_client_mkdir_def rpc_client_rmdir_top_def rpc_client_rmdir_down_def rpc_client_symlink_def rpc_client_rename_same_parent_def
    rpc_client_rename_not_same_parent_src_def rpc_client_rename_not_same_parent_dst_def rpc_client_create_def rpc_client_unlink_def
    rpc_client_write_def rpc_client_chmod_def rpc_client_chown_def rpc_client_utimens_def rpc_client_truncate_def Let_def
  by (auto intro!: keeping data.below_rules meta.below_rules simp: stubs_keep)

end

lemma retry_keeps:
  "retry_remote E i code m st = Some (r, st') \<Longrightarrow> steady_world Q E \<Longrightarrow> keeps Q m \<Longrightarrow> Q (sys st) \<Longrightarrow> Q (sys st')"
proof (induction E i code m st "(r, st')" rule: retry_remote.raw_induct [rotated 1, consumes 1])
  case (1 retry E i code m st)
  obtain q st1 where m: "m st = Some (q, st1)" using 1(2) by (auto split: option.splits)
  have st1: "Q (sys st1)" using keepsD [OF 1(4,5) m] .
  show ?case
  proof (cases "\<exists>x q2 st2. q = Inr x \<and> code x = - ENOTLEADER \<and> find_remote_dentry_table_again E i st1 = Some (Inr q2, st2)")
    case True
    then obtain x q2 st2 where x: "q = Inr x" "code x = - ENOTLEADER" "find_remote_dentry_table_again E i st1 = Some (Inr q2, st2)" by blast
    have "Q (sys st2)" using keepsD [OF steady_world.keeps_find_again [OF 1(3)] st1 x(3)] .
    moreover have "retry E i code m st2 = Some (r, st')" using 1(2) m x by simp
    ultimately show ?thesis using 1(1,3,4) by blast
  next
    case False
    then show ?thesis
      using 1(2) m st1 keepsD [OF steady_world.keeps_find_again [OF 1(3)] st1] by (auto split: sum.splits if_splits option.splits)
  qed
qed

context steady_world
begin

lemma keeps_retry [keeping]: "keeps Q m \<Longrightarrow> keeps Q (retry_remote E i code m)"
  by (rule keepsI) (rule retry_keeps [OF _ steady_world_axioms])

lemma keeps_casts [keeping]: "keeps Q (remote_cast i)" "keeps Q (make_remote d n)"
proof -
  show "keeps Q (remote_cast i)" unfolding remote_cast_def by (intro keeping)
  show "keeps Q (make_remote d n)" by (rule keepsI) (auto simp: make_remote_def new_iobj_def)
qed

lemma keeps_remote [keeping]:
  "keeps Q (remote_getattr E i s)" "keeps Q (remote_access E i msk)" "keeps Q (remote_opendir E i fi)" "keeps Q (remote_readdir E i)"
  "keeps Q (remote_mkdir E i n m)" "keeps Q (remote_rmdir_top E i u)" "keeps Q (remote_rmdir_down E i u n)" "keeps Q (remote_symlink E i src n)"
  "keeps Q (remote_readlink E i sz)" "keeps Q (remote_rename_same_parent E i old new fl)" "keeps Q (remote_rename_not_same_parent_src E i old fl)"
  "keeps Q (remote_rename_not_same_parent_dst E i p u new fl)" "keeps Q (remote_open E i fi)" "keeps Q (remote_create E i n m fi)"
  "keeps Q (remote_unlink E i n)" "keeps Q (remote_write E i bs off fl)" "keeps Q (remote_chmod E i m)" "keeps Q (remote_chown E i x g)"
  "keeps Q (remote_utimens E i t0 t1)" "keeps Q (remote_truncate E i off)"
  unfolding remote_getattr_def remote_access_def remote_opendir_def remote_readdir_def remote_mkdir_def remote_rmdir_top_def remote_rmdir_down_def
    remote_symlink_def remote_readlink_def remote_rename_same_parent_def remote_rename_not_same_parent_src_def remote_rename_not_same_parent_dst_def
    remote_open_def remote_create_def remote_unlink_def remote_write_def remote_chmod_def remote_chown_def remote_utimens_def remote_truncate_def
  by (intro keeping)+

text \<open>The operations of FUSE\<close>

lemma keeps_read_program [keeping]: "keeps Q (read_program E i sz off)"
  by (rule keepsI) (auto simp: read_program_def local_read_def split: prod.splits sum.splits exn.splits dest: data.rados_read_keeps)

lemma keeps_make_root [keeping]: "keeps Q (make_root E)"
  unfolding make_root_def by (intro keeping meta.below_rules)

lemma keeps_reset [keeping]: "keeps Q (modify (\<lambda>st. st\<lparr>fh_list := f st, jrnl := j st\<rparr>))"
  by (simp add: keeps_def modify_def)

lemma keeps_finish [keeping]: "keeps Q m \<Longrightarrow> keeps Q (finish m)"
  unfolding finish_def by (intro keeping)

lemma keeps_fuse_fragments [keeping]:
  "keeps Q m \<Longrightarrow> keeps Q (catch_errors w m)" "keeps Q (handle_inode fi)" "keeps Q (path_inode E p)" "keeps Q (target_inode E info p)"
  "keeps Q m \<Longrightarrow> keeps Q m' \<Longrightarrow> keeps Q (by_location E code i x m m')" "keeps Q (parent_dir E p)"
  "keeps Q m \<Longrightarrow> (\<And>r. keeps Q (f r)) \<Longrightarrow> keeps Q (by_table E code d n x m f)" "keeps Q (file_info_of info)" "keeps Q (lease_new_dir E nd)"
  unfolding catch_errors_def handle_inode_def path_inode_def target_inode_def by_location_def parent_dir_def by_table_def file_info_of_def lease_new_dir_def
  by (auto intro!: keeping)

end

context steady_world
begin

lemma keeps_fuse_lookups [keeping]:
  "keeps Q (fuse_init E)" "keeps Q (fuse_getattr E p s info)" "keeps Q (fuse_access E p msk)" "keeps Q (fuse_readlink E p sz)"
  "keeps Q (fuse_opendir E p fi)" "keeps Q (fuse_releasedir E p info)" "keeps Q (fuse_readdir E p info)" "keeps Q (fuse_open E p fi)"
  "keeps Q (fuse_release E p info)" "keeps Q (fuse_read E p sz off info)"
  unfolding fuse_init_def directory_table_new_def fuse_getattr_def fuse_access_def fuse_readlink_def fuse_opendir_def fuse_releasedir_def fuse_readdir_def
    fuse_open_def fuse_release_def fuse_read_def Let_def
  by (auto intro!: keeping)

lemma keeps_fuse_changes [keeping]:
  "keeps Q (fuse_symlink E src dst)" "keeps Q (fuse_create E p m fi)" "keeps Q (fuse_unlink E p)" "keeps Q (fuse_write E p bs off info)"
  "keeps Q (fuse_chmod E p m info)" "keeps Q (fuse_chown E p x g info)" "keeps Q (fuse_utimens E p t0 t1 info)" "keeps Q (fuse_truncate E p off info)"
  unfolding fuse_symlink_def fuse_create_def fuse_unlink_def fuse_write_def fuse_chmod_def fuse_chown_def fuse_utimens_def fuse_truncate_def Let_def
  by (auto intro!: keeping)

lemma keeps_fuse_directories [keeping]:
  "keeps Q (rmdir_top E l a d u n)" "keeps Q (fuse_mkdir E p m)" "keeps Q (fuse_rmdir E p)"
proof -
  show top: "keeps Q (rmdir_top E l a d u n)" for l a d u n unfolding rmdir_top_def by (auto intro!: keeping)
  show "keeps Q (fuse_mkdir E p m)" "keeps Q (fuse_rmdir E p)" unfolding fuse_mkdir_def fuse_rmdir_def Let_def by (auto intro!: keeping top)
qed

lemma keeps_renames [keeping]:
  "keeps Q (rename_inside E p old new fl)" "keeps Q (rename_out E l a d old fl)" "keeps Q (rename_in E l a d b u new fl)"
  unfolding rename_inside_def rename_out_def rename_in_def Let_def by (auto intro!: keeping)

lemma keeps_fuse_rename [keeping]: "keeps Q (rename_across E p p' old new fl)" "keeps Q (fuse_rename E old new fl)"
proof -
  show across: "keeps Q (rename_across E p p' old new fl)" for p p' old new fl unfolding rename_across_def Let_def by (auto intro!: keeping)
  show "keeps Q (fuse_rename E old new fl)" unfolding fuse_rename_def Let_def by (auto intro!: keeping across)
qed

lemma keeps_get_fuse_ops: "keeps Q (get_fuse_ops E c)"
  by (cases c) (simp_all, (intro keeping)+)

end

section \<open>The service of a client\<close>

lemma leader_table_keeps:
  assumes "steady_world Q E" and "\<And>t. keeps Q (body t)"
  shows "keeps Q (leader_table E u n body)"
proof (rule keepsI)
  fix st r st' assume st: "leader_table E u n body st = Some (r, st')" "Q (sys st)"
  obtain q st1 where q: "get_dentry_table E u True st = Some (q, st1)" using st(1) by (auto simp: leader_table_def split: option.splits)
  have "Q (sys st1)" using keepsD [OF steady_world.keeps_get_dentry_table [OF assms(1)] st(2) q] .
  then show "Q (sys st')" using st(1) q keepsD [OF assms(2)] by (auto simp: leader_table_def split: sum.splits if_splits)
qed

context steady_world
begin

lemma keeps_serve [keeping]: "(\<And>t. keeps Q (body t)) \<Longrightarrow> keeps Q (leader_table E u n body)"
  by (rule leader_table_keeps [OF steady_world_axioms])

lemma keeps_server_fragments [keeping]:
  "keeps Q (request_target q t)" "keeps Q (request_inode q t)" "keeps Q (child_of t n)" "keeps Q (parent_of t)" "keeps Q (answer_permission E i msk)"
  "keeps Q (make_inode_owned E u x g m)"
  unfolding request_target_def request_inode_def child_of_def parent_of_def answer_permission_def make_inode_owned_def
  by (auto intro!: keeping calls_keep)

lemma keeps_server_lookups [keeping]:
  "keeps Q (rpc_server_check_child_inode E q1)" "keeps Q (rpc_server_get_mode E q2)" "keeps Q (rpc_server_permission_check E q3)"
  "keeps Q (rpc_server_getattr E q4)" "keeps Q (rpc_server_access E q5)" "keeps Q (rpc_server_opendir E q6)" "keeps Q (rpc_server_readdir E q7)"
  "keeps Q (rpc_server_readlink E q8)" "keeps Q (rpc_server_open E q9)"
  unfolding rpc_server_check_child_inode_def rpc_server_get_mode_def rpc_server_permission_check_def rpc_server_getattr_def rpc_server_access_def
    rpc_server_opendir_def rpc_server_readdir_def rpc_server_readlink_def rpc_server_open_def Let_def
  by (auto intro!: keeping)

lemma keeps_server_changes [keeping]:
  "keeps Q (rpc_server_mkdir E q1)" "keeps Q (rpc_server_rmdir_top E q2)" "keeps Q (rpc_server_rmdir_down E q3)" "keeps Q (rpc_server_symlink E q4)"
  "keeps Q (rpc_server_create E q5)" "keeps Q (rpc_server_unlink E q6)" "keeps Q (rpc_server_write E q7)" "keeps Q (rpc_server_chmod E q8)"
  "keeps Q (rpc_server_chown E q9)" "keeps Q (rpc_server_utimens E q10)" "keeps Q (rpc_server_truncate E q11)"
  unfolding rpc_server_mkdir_def rpc_server_rmdir_top_def rpc_server_rmdir_down_def rpc_server_symlink_def rpc_server_create_def rpc_server_unlink_def
    rpc_server_write_def rpc_server_chmod_def rpc_server_chown_def rpc_server_utimens_def rpc_server_truncate_def Let_def
  by (auto intro!: keeping calls_keep data.below_rules)

lemma keeps_server_renames [keeping]:
  "keeps Q (rpc_server_rename_same_parent E q1)" "keeps Q (rpc_server_rename_not_same_parent_src E q2)"
  "keeps Q (rpc_server_rename_not_same_parent_dst E q3)"
  unfolding rpc_server_rename_same_parent_def rpc_server_rename_not_same_parent_src_def rpc_server_rename_not_same_parent_dst_def Let_def
  by (auto intro!: keeping)

lemma keeps_rpc_server: "keeps Q (rpc_server E q)"
  by (cases q) (simp_all, (intro keeping)+)

end

section \<open>A client that calls another\<close>

text \<open>Whatever the calling client does, the serving client only goes through states it can reach: its handlers run, and the world changes.\<close>

lemma reachable_through:
  assumes "reachable E st"
  shows "reachable E (snd (through f st))"
proof -
  have "st\<lparr>sys := snd (f (sys st)), jrnl := jrnl st\<rparr> = snd (through f st)" by (cases st) (simp add: through_def split: prod.splits)
  then show ?thesis by (rule subst) (rule reachable.others [OF assms])
qed

lemma kept_through: "kept (reachable E) (through f)"
  by (simp add: kept_def reachable_through)

lemma reachable_answer:
  assumes "reachable E st" and "\<And>request. finish (handler request) = rpc_server E (call request)"
  shows "reachable E (snd (at_host host handler address request st))"
proof (cases "address = host \<and> handler request st \<noteq> None")
  case False
  then show ?thesis using assms(1) by (cases "handler request st") (auto simp: at_host_def answer_def)
next
  case True
  then obtain r st' where r: "address = host" "handler request st = Some (r, st')" by auto
  have "rpc_server E (call request) st = Some (map_sum (\<lambda>e. e) (\<lambda>_. ()) r, st')"
    unfolding assms(2) [symmetric] using r(2) by (cases r) (simp_all add: finish_def bnd_def ret_def)
  then have "reachable E st'" by (rule reachable.request [OF assms(1)])
  then show ?thesis using r by (cases r) (simp_all add: at_host_def answer_def)
qed

lemma kept_handler: "(\<And>request. finish (handler request) = rpc_server E (call request)) \<Longrightarrow> kept (reachable E) (at_host host handler address request)"
  by (simp add: kept_def reachable_answer)

lemma kept_readdir: "kept (reachable E) (stub_readdir (service E host) address request)"
proof -
  have "reachable E (snd (at_host host (rpc_server_readdir E) address request st))" if "reachable E st" for st
    by (rule reachable_answer [where call = Rpc_readdir, OF that]) simp
  then show ?thesis by (auto simp: kept_def service_def split: prod.splits option.splits) (metis snd_conv)+
qed

lemma service_keeps: "peers_keep (reachable E) (service E host)"
  unfolding peers_keep_def
proof (intro conjI allI)
  show "kept (reachable E) (stub_readdir (service E host) a q)" for a q by (rule kept_readdir)
qed (simp_all add: service_def, (rule kept_handler, rule rpc_server.simps [symmetric])+)

interpretation host: steady_world "reachable E" "via E host" for E host
  by unfold_locales (simp_all add: via_def pool_keeps_def through_ext_def kept_through service_keeps)

end
