(* ===== verification/Takeover.thy ===== *)
theory Takeover
  imports Local_Coherence
begin

text \<open>
  A client takes a directory over: it acquires the lease, loads the inode and the entries of the
  directory and the inode of every entry from the metadata pool, and registers the table. What it
  holds in memory then is what the pool holds.
\<close>

text \<open>What this relies on: a pool in which neither the clock nor the lease manager writes.\<close>

locale meta_env = librados "meta_io E" objs for E :: "'s env" and objs :: "'s \<Rightarrow> string \<rightharpoonup> bytes" +
  assumes clock_meta: "objs (snd (sys_clock E s)) = objs s"
    and lease_meta: "objs (snd (lease_rpc E request s)) = objs s"

text \<open>The directory as the pool holds it: its own inode, its entries and the inodes of the children\<close>

definition stored_dir :: "'s ext \<Rightarrow> ('s \<Rightarrow> string \<rightharpoonup> bytes) \<Rightarrow> 's \<Rightarrow> inode \<Rightarrow> dentry \<Rightarrow> (uuid \<Rightarrow> inode) \<Rightarrow> bool" where
  "stored_dir X objs s dir ds inodes \<longleftrightarrow>
     inode_at X objs s dir \<and> dentry_at X objs s ds \<and> i_ino (core dir) = this_ino ds \<and>
     (\<forall>u \<in> snd ` set (child_list ds). inode_at X objs s (inodes u) \<and> i_ino (core (inodes u)) = u)"

lemma stored_dir_same: "files_same objs {} s s' \<Longrightarrow> stored_dir X objs s' dir ds inodes \<longleftrightarrow> stored_dir X objs s dir ds inodes"
  by (simp add: stored_dir_def inode_at_same dentry_at_same)

text \<open>An inode in memory with the attributes and the link target of a stored one\<close>

definition holds_inode :: "'s client_state \<Rightarrow> nat \<Rightarrow> inode \<Rightarrow> bool" where
  "holds_inode st a i \<longleftrightarrow> core (the_inode st a) = core i \<and> link_target_name (the_inode st a) = link_target_name i"

text \<open>The part of the heap below the pointers that were there before\<close>

definition same_below :: "'s client_state \<Rightarrow> 's client_state \<Rightarrow> bool" where
  "same_below st st' \<longleftrightarrow> next_iobj st \<le> next_iobj st' \<and> (\<forall>a < next_iobj st. iobjs st' a = iobjs st a)"

text \<open>What one child becomes on the heap\<close>

definition child_obj :: "uuid \<Rightarrow> inode \<Rightarrow> iobj" where
  "child_obj u i =
     \<lparr>base = set_loc (if S_ISDIR (i_mode (core (loaded_inode i))) then UNKNOWN else LOCAL) (set_p_ino u (loaded_inode i)), remote = None\<rparr>"

lemma child_obj_simps [simp]: "core (base (child_obj u i)) = core i" "link_target_name (base (child_obj u i)) = link_target_name i"
  by (simp_all add: child_obj_def loaded_inode_def set_loc_def set_p_ino_def)

context meta_env
begin

lemma pull_child:
  assumes "inode_at (meta_io E) objs (sys st) i" and "i_ino (core i) = u" and "rm_find (child_inodes (dtabs st d)) name = None"
  obtains s where "files_same objs {} (sys st) s"
    and "pull_children E d ((name, u) # rest) st = pull_children E d rest
      (st\<lparr>sys := s, iobjs := (iobjs st)(next_iobj st := child_obj (dir_ino (dtabs st d)) i), next_iobj := Suc (next_iobj st),
          dtabs := (dtabs st)(d := (dtabs st d)\<lparr>child_inodes := child_inodes (dtabs st d) @ [(name, next_iobj st)]\<rparr>)\<rparr>)"
proof -
  obtain s where s: "inode_load (meta_io E) u (sys st) = (Inr (loaded_inode i), s)" "files_same objs {} (sys st) s"
    using inode_load_at [OF assms(1)] assms(2) by metis
  show thesis
    by (rule that [OF s(2)])
      (simp add: bnd_def on_sys_def zoom_def lift_def s(1) new_iobj_def add_child_inode_def rm_insert_new assms(3) upd_dtab_def modify_def
        ret_def child_obj_def)
qed

lemma pull_children_loads:
  assumes "rm_wf es" and "\<forall>name \<in> fst ` set es. rm_find (child_inodes (dtabs st d)) name = None"
    and "\<forall>u \<in> snd ` set es. inode_at (meta_io E) objs (sys st) (inodes u) \<and> i_ino (core (inodes u)) = u"
  shows "\<exists>s h n cs. pull_children E d es st = Some (Inr 0, st\<lparr>sys := s, iobjs := h, next_iobj := n,
        dtabs := (dtabs st)(d := (dtabs st d)\<lparr>child_inodes := child_inodes (dtabs st d) @ cs\<rparr>)\<rparr>)
      \<and> files_same objs {} (sys st) s \<and> same_below st (st\<lparr>iobjs := h, next_iobj := n\<rparr>) \<and> map fst cs = map fst es
      \<and> (\<forall>(name, a) \<in> set cs. next_iobj st \<le> a \<and> a < n)
      \<and> list_all2 (\<lambda>(_, a) (_, u). core (base (h a)) = core (inodes u) \<and> link_target_name (base (h a)) = link_target_name (inodes u)) cs es"
  using assms
proof (induction es arbitrary: st)
  case Nil
  show ?case
    by (rule exI [of _ "sys st"], rule exI [of _ "iobjs st"], rule exI [of _ "next_iobj st"], rule exI [of _ "[]"])
      (simp add: ret_def same_below_def)
next
  case (Cons e es)
  obtain name u where e: "e = (name, u)" by (cases e)
  let ?a = "next_iobj st" and ?o = "child_obj (dir_ino (dtabs st d)) (inodes u)"
  obtain s1 where s1: "files_same objs {} (sys st) s1" "pull_children E d (e # es) st = pull_children E d es
      (st\<lparr>sys := s1, iobjs := (iobjs st)(?a := ?o), next_iobj := Suc ?a,
          dtabs := (dtabs st)(d := (dtabs st d)\<lparr>child_inodes := child_inodes (dtabs st d) @ [(name, ?a)]\<rparr>)\<rparr>)"
    using pull_child [of st "inodes u" u d name es thesis] Cons.prems e by auto
  let ?st = "st\<lparr>sys := s1, iobjs := (iobjs st)(?a := ?o), next_iobj := Suc ?a,
          dtabs := (dtabs st)(d := (dtabs st d)\<lparr>child_inodes := child_inodes (dtabs st d) @ [(name, ?a)]\<rparr>)\<rparr>"
  have "\<forall>nm \<in> fst ` set es. rm_find (child_inodes (dtabs ?st d)) nm = None" 
  proof
    fix nm assume "nm \<in> fst ` set es"
    moreover have "nm \<noteq> name" using calculation Cons.prems(1) e by auto
    ultimately show "rm_find (child_inodes (dtabs ?st d)) nm = None" using Cons.prems(2) by (auto simp: map_of_append map_add_def)
  qed
  moreover have "\<forall>v \<in> snd ` set es. inode_at (meta_io E) objs (sys ?st) (inodes v) \<and> i_ino (core (inodes v)) = v"
    using Cons.prems(3) inode_at_same [OF s1(1)] by auto
  moreover have "rm_wf es" using Cons.prems(1) by simp
  ultimately obtain s h n cs where IH: "pull_children E d es ?st = Some (Inr 0, ?st\<lparr>sys := s, iobjs := h, next_iobj := n,
        dtabs := (dtabs ?st)(d := (dtabs ?st d)\<lparr>child_inodes := child_inodes (dtabs ?st d) @ cs\<rparr>)\<rparr>)"
      "files_same objs {} (sys ?st) s" "same_below ?st (?st\<lparr>iobjs := h, next_iobj := n\<rparr>)" "map fst cs = map fst es"
      "\<forall>(name, a) \<in> set cs. next_iobj ?st \<le> a \<and> a < n"
      "list_all2 (\<lambda>(_, a) (_, u). core (base (h a)) = core (inodes u) \<and> link_target_name (base (h a)) = link_target_name (inodes u)) cs es"
    using Cons.IH [of ?st] by blast
  have h: "h ?a = ?o" "Suc ?a \<le> n" using IH(3) by (simp_all add: same_below_def)
  have run: "pull_children E d (e # es) st = Some (Inr 0, st\<lparr>sys := s, iobjs := h, next_iobj := n,
        dtabs := (dtabs st)(d := (dtabs st d)\<lparr>child_inodes := child_inodes (dtabs st d) @ (name, ?a) # cs\<rparr>)\<rparr>)"
    unfolding s1(2) using IH(1) by simp
  have same: "files_same objs {} (sys st) s" using files_same_trans [OF s1(1)] IH(2) by fastforce
  have below: "same_below st (st\<lparr>iobjs := h, next_iobj := n\<rparr>)" using IH(3) by (simp add: same_below_def)
  have fresh: "\<forall>(nm, a) \<in> set ((name, ?a) # cs). ?a \<le> a \<and> a < n" using IH(5) h(2) by auto
  show ?case
    by (intro exI conjI, rule run, rule same, rule below, simp add: e IH(4), rule fresh) (simp add: e h(1) IH(6))
qed

end

lemma rel_map_of:
  assumes "list_all2 (\<lambda>(_, a) (_, u). P a u) cs es" and "map fst cs = map fst es"
  shows "rel_option P (rm_find cs name) (rm_find es name)"
  using assms by (induction rule: list_all2_induct) (auto split: prod.splits)

text \<open>What a client holds of a directory it has just taken over\<close>

definition taken_over :: "'s client_state \<Rightarrow> nat \<Rightarrow> inode \<Rightarrow> dentry \<Rightarrow> (uuid \<Rightarrow> inode) \<Rightarrow> bool" where
  "taken_over st d dir ds inodes \<longleftrightarrow>
     rm_find (dentry_tables st) (this_ino ds) = Some d \<and> dtable_ok st d \<and> dt_dentries (dtabs st d) = Some ds \<and>
     (\<exists>a. this_dir_inode (dtabs st d) = Some a \<and> holds_inode st a dir) \<and>
     (\<forall>name u. children ds name = Some u \<longrightarrow> (\<exists>a. rm_find (child_inodes (dtabs st d)) name = Some a \<and> holds_inode st a (inodes u)))"

context meta_env
begin

lemma lc_acquire_keeps:
  assumes "lc_acquire E u ip st = Some (r, st')"
  obtains t s where "st' = st\<lparr>leases := t, sys := s\<rparr>" and "objs s = objs (sys st)"
proof -
  let ?s1 = "snd (sys_clock E (sys st))"
  obtain r1 t s where l: "lease_client_acquire (lease_rpc E) (fst (sys_clock E (sys st))) (self_remote st) u ip (leases st, ?s1) = (r1, t, s)"
    by (cases "lease_client_acquire (lease_rpc E) (fst (sys_clock E (sys st))) (self_remote st) u ip (leases st, ?s1)") auto
  then have "objs s = objs (sys st)"
    using lease_meta [of "make_lease_request (self_remote st) u" ?s1]
    by (auto simp: lease_client_acquire_def Let_def clock_meta split: if_splits prod.splits option.splits)
  moreover have "st' = st\<lparr>leases := t, sys := s\<rparr>"
    using assms l by (cases "sys_clock E (sys st)") (simp add: lc_acquire_def bnd_def sys_call_def)
  ultimately show thesis by (rule that [rotated])
qed

lemma pull_table_loads:
  assumes "stored_dir (meta_io E) objs (sys st) dir ds inodes" and "rm_find (dentry_tables st) (this_ino ds) = None"
  shows "\<exists>d st'. bnd (dentry_table_new E (this_ino ds) LOCAL) (\<lambda>d. bnd (set_leader_ip d ip) (\<lambda>_. bnd (pull_child_metadata E d) (\<lambda>_.
      bnd (add_dentry_table (this_ino ds) d) (\<lambda>_. ret (Some d))))) st = Some (Inr (Some d), st')
    \<and> taken_over st' d dir ds inodes \<and> files_same objs {} (sys st) (sys st') \<and> leases st' = leases st"
proof -
  let ?u = "this_ino ds" and ?a = "next_iobj st" and ?d = "next_dtab st"
  note sd = assms(1) [unfolded stored_dir_def]
  obtain s1 where s1: "inode_load (meta_io E) ?u (sys st) = (Inr (loaded_inode dir), s1)" "files_same objs {} (sys st) s1"
    using sd inode_load_at by metis
  have "dentry_at (meta_io E) objs s1 ds" using sd dentry_at_same [OF s1(2)] by simp
  then obtain s2 where s2: "dentry_new (meta_io E) ?u False s1 = (Inr ds, s2)" "files_same objs {} s1 s2"
    by (rule dentry_load_at)
  have same: "files_same objs {} (sys st) s2" using files_same_trans [OF s1(2) s2(2)] by simp
  let ?o = "\<lparr>base = set_loc LOCAL (loaded_inode dir), remote = None\<rparr>"
  let ?t = "\<lparr>dir_ino = ?u, this_dir_inode = Some ?a, dt_dentries = Some ds, child_inodes = [], dt_loc = LOCAL, leader_ip = ip\<rparr>"
  let ?st = "st\<lparr>iobjs := (iobjs st)(?a := ?o), next_iobj := Suc ?a, next_dtab := Suc ?d, sys := s2, dtabs := (dtabs st)(?d := ?t)\<rparr>"
  have wf: "rm_wf (child_list ds)" using sd by (simp add: dentry_at_def wf_dentry_def wf_children_def)
  have kids: "\<forall>u \<in> snd ` set (child_list ds). inode_at (meta_io E) objs (sys ?st) (inodes u) \<and> i_ino (core (inodes u)) = u"
    using sd inode_at_same [OF same] by simp
  have none: "\<forall>name \<in> fst ` set (child_list ds). rm_find (child_inodes (dtabs ?st ?d)) name = None" by simp
  obtain s h n cs where p: "pull_children E ?d (child_list ds) ?st = Some (Inr 0, ?st\<lparr>sys := s, iobjs := h, next_iobj := n,
        dtabs := (dtabs ?st)(?d := (dtabs ?st ?d)\<lparr>child_inodes := child_inodes (dtabs ?st ?d) @ cs\<rparr>)\<rparr>)"
      "files_same objs {} (sys ?st) s" "same_below ?st (?st\<lparr>iobjs := h, next_iobj := n\<rparr>)" "map fst cs = map fst (child_list ds)"
      "list_all2 (\<lambda>(_, a) (_, u). core (base (h a)) = core (inodes u) \<and> link_target_name (base (h a)) = link_target_name (inodes u)) cs (child_list ds)"
    using pull_children_loads [OF wf none kids] by blast
  let ?st' = "st\<lparr>sys := s, iobjs := h, next_iobj := n, dtabs := (dtabs st)(?d := ?t\<lparr>child_inodes := cs\<rparr>), next_dtab := Suc ?d,
      dentry_tables := dentry_tables st @ [(?u, ?d)]\<rparr>"
  have "bnd (dentry_table_new E ?u LOCAL) (\<lambda>d. bnd (set_leader_ip d ip) (\<lambda>_. bnd (pull_child_metadata E d) (\<lambda>_.
      bnd (add_dentry_table ?u d) (\<lambda>_. ret (Some d))))) st = Some (Inr (Some ?d), ?st')"
    using p(1) assms(2)
    by (simp add: dentry_table_new_def Let_def bnd_def on_sys_def zoom_def lift_def s1(1) new_iobj_def new_dtab_def set_leader_ip_def upd_dtab_def
        modify_def pull_child_metadata_def gets_def s2(1) add_dentry_table_def rm_insert_new ret_def)
  moreover have "taken_over ?st' ?d dir ds inodes"
  proof -
    have rel: "rel_option (\<lambda>a u. core (base (h a)) = core (inodes u) \<and> link_target_name (base (h a)) = link_target_name (inodes u))
        (rm_find cs name) (rm_find (child_list ds) name)" for name
      using rel_map_of [OF p(5,4)] .
    have ino: "i_ino (core (inodes u)) = u" if "rm_find (child_list ds) name = Some u" for name u
      using kids map_of_SomeD [OF that] by force
    have "children ds name = map_option (ino_of ?st') (rm_find cs name)" for name
      using rel [of name] ino [of name] by (cases "rm_find cs name"; cases "rm_find (child_list ds) name") auto
    then have "dtable_ok ?st' ?d" using wf p(4) by (simp add: dtable_ok_def)
    moreover have "h ?a = ?o" using p(3) by (simp add: same_below_def)
    then have "holds_inode ?st' ?a dir" by (simp add: holds_inode_def set_loc_def loaded_inode_def)
    moreover have "\<exists>a. rm_find cs name = Some a \<and> holds_inode ?st' a (inodes u)" if "children ds name = Some u" for name u
      using rel [of name] that by (cases "rm_find cs name") (auto simp: holds_inode_def)
    ultimately show ?thesis using assms(2) by (simp add: taken_over_def map_of_snoc)
  qed
  moreover have "files_same objs {} (sys st) s" using files_same_trans [OF same] p(2) by fastforce
  ultimately show ?thesis by (intro exI [of _ ?d] exI [of _ ?st']) simp
qed

end

context meta_env
begin

text \<open>When the manager grants the lease of a directory that has no table yet, the table is what the pool holds.\<close>

lemma takeover_loads:
  assumes "stored_dir (meta_io E) objs (sys st) dir ds inodes" and "rm_find (dentry_tables st) (this_ino ds) = None"
    and "lease_rpc E (make_lease_request (self_remote st) (this_ino ds)) (snd (sys_clock E (sys st))) = (Some response, s1)"
    and "res_ret response = 0"
  shows "\<exists>d st'. get_dentry_table E (this_ino ds) False st = Some (Inr (Some d), st')
    \<and> taken_over st' d dir ds inodes \<and> files_same objs {} (sys st) (sys st')"
proof -
  let ?u = "this_ino ds"
  obtain st1 where l: "lc_acquire E ?u [] st = Some (Inr (0, []), st1)"
    using assms(3,4) that
    by (cases "sys_clock E (sys st)", cases "is_mine (fst (sys_clock E (sys st))) (leases st) ?u")
      (auto simp: lc_acquire_def bnd_def sys_call_def lease_client_acquire_def Let_def)
  then obtain t s where st1: "st1 = st\<lparr>leases := t, sys := s\<rparr>" "objs s = objs (sys st)" by (rule lc_acquire_keeps)
  have same: "files_same objs {} (sys st) s" using st1(2) by (simp add: files_same_def rados_file_def rados_present_def)
  have "stored_dir (meta_io E) objs (sys st1) dir ds inodes" using assms(1) stored_dir_same [OF same] st1(1) by simp
  moreover have "rm_find (dentry_tables st1) ?u = None" using assms(2) st1(1) by simp
  ultimately obtain d st' where p: "bnd (dentry_table_new E ?u LOCAL) (\<lambda>d. bnd (set_leader_ip d []) (\<lambda>_. bnd (pull_child_metadata E d) (\<lambda>_.
      bnd (add_dentry_table ?u d) (\<lambda>_. ret (Some d))))) st1 = Some (Inr (Some d), st')"
    "taken_over st' d dir ds inodes" "files_same objs {} (sys st1) (sys st')"
    using pull_table_loads by blast
  have "get_dentry_table E ?u False st = Some (Inr (Some d), st')"
    using l p(1) assms(2) by (simp add: get_dentry_table_def lease_dentry_table_def bnd_def [of "lc_acquire E ?u []"])
  moreover have "files_same objs {} (sys st) (sys st')" using files_same_trans [OF same] p(3) st1(1) by fastforce
  ultimately show ?thesis using p(2) by blast
qed

end

end
