(* ===== verification/System.thy ===== *)
theory System
  imports World_Frame Fuse_Spec Takeover
begin

text \<open>
  The parts together: the answers of a client's service and of the manager keep the contract that
  the operations of a client rely on, so that clients may be put behind each other; from the start,
  through any sequence of operations and requests, a client stays consistent.
\<close>

section \<open>What a service answers\<close>

definition yields :: "('a \<Rightarrow> bool) \<Rightarrow> ('a, 's) cprog \<Rightarrow> bool" where
  "yields P m \<longleftrightarrow> (\<forall>st x st'. m st = Some (Inr x, st') \<longrightarrow> P x)"

named_theorems yielding "rules about the answers of a program"

lemma yields_ret [yielding]: "P x \<Longrightarrow> yields P (ret x)"
  by (simp add: yields_def ret_def)

lemma yields_bnd [yielding]: "(\<And>x. yields P (f x)) \<Longrightarrow> yields P (bnd m f)"
  by (auto simp: yields_def bnd_def split: option.splits sum.splits prod.splits)

lemma yields_if [yielding]: "(b \<Longrightarrow> yields P m) \<Longrightarrow> (\<not> b \<Longrightarrow> yields P n) \<Longrightarrow> yields P (if b then m else n)"
  by simp

lemma yields_pair [yielding]: "(\<And>a b. yields P (f a b)) \<Longrightarrow> yields P (case p of (a, b) \<Rightarrow> f a b)"
  by (cases p) simp

lemma yields_leader_table [yielding]:
  "P not_leader \<Longrightarrow> (\<And>t. yields P (body t)) \<Longrightarrow> yields P (leader_table E u not_leader body)"
  by (auto simp: yields_def leader_table_def split: option.splits sum.splits prod.splits if_splits)

lemma mkdir_yields: "yields (\<lambda>a. a_mkdir_ret a = 0 \<or> a_mkdir_ret a = - ENOTLEADER) (rpc_server_mkdir E q)"
  unfolding rpc_server_mkdir_def Let_def by (auto intro!: yielding)

lemma rename_src_yields:
  "yields (\<lambda>a. a_rename_ret a = 0 \<or> a_rename_ret a = - ENOTLEADER \<or> a_rename_ret a = - ENOSYS)
     (rpc_server_rename_not_same_parent_src E q)"
  unfolding rpc_server_rename_not_same_parent_src_def by (auto intro!: yielding simp: no_rename_respond_def rename_target.defs)

lemma answer_yields: "yields P (handler q) \<Longrightarrow> at_host host handler address q st = (Some a, st') \<Longrightarrow> P a"
  by (auto simp: yields_def at_host_def answer_def split: option.splits sum.splits if_splits prod.splits)

lemma manager_answers: "res_ret (fst (lease_impl_acquire X now1 now2 request t)) \<in> {0, - 1}"
  by (auto simp: lease_impl_acquire_def lease_answer_def lease_table_acquire_def acquire_cas_def acquire_insert_def
      lease_entry_new_def Let_def split: prod.splits option.splits)

text \<open>A client behind a client: the service of the one is the world of the other.\<close>

locale serving = services E for E :: "'s env" + fixes host :: string

sublocale serving \<subseteq> caller: services "via E host"
proof
  fix q s response s'
  assume "lease_rpc (via E host) q s = (Some response, s')"
  then show "res_ret response = 0 \<or> res_ret response = - 1"
    using lease_answers by (auto simp: via_def through_def split: prod.splits)
next
  fix ad qm s om s'
  assume "stub_mkdir (peers (via E host)) ad qm s = (Some om, s')"
  then show "a_mkdir_ret om = 0 \<or> a_mkdir_ret om = - ENOTLEADER"
    using answer_yields [OF mkdir_yields] by (simp add: via_def service_def)
next
  fix ad qr s orr s'
  assume "stub_rename_src (peers (via E host)) ad qr s = (Some orr, s')"
  then show "a_rename_ret orr = 0 \<or> a_rename_ret orr = - ENOTLEADER \<or> a_rename_ret orr = - ENOSYS"
    using answer_yields [OF rename_src_yields] by (simp add: via_def service_def)
qed

context serving
begin

lemma caller_services: "services (via E host)"
  by (rule caller.services_axioms)

end

lemma services_via: "services E \<Longrightarrow> services (via E host)"
  by (rule serving.caller_services) (simp add: serving_def)

section \<open>A world with a manager\<close>

text \<open>The pool, the table of the manager, a clock that stands still between the steps and a generator.\<close>

record world =
  objects :: "string \<rightharpoonup> bytes"
  manager :: lease_table
  clock :: int
  generated :: nat

definition on_pool :: "((string \<rightharpoonup> bytes) \<Rightarrow> 'a \<times> (string \<rightharpoonup> bytes)) \<Rightarrow> world \<Rightarrow> 'a \<times> world" where
  "on_pool f w = (case f (objects w) of (x, M) \<Rightarrow> (x, w\<lparr>objects := M\<rparr>))"

definition world_ext :: "world ext" where
  "world_ext =
     \<lparr>io_read = (\<lambda>k n off. on_pool (io_read mem_ext k n off)), io_write = (\<lambda>k bs off. on_pool (io_write mem_ext k bs off)),
      io_stat = (\<lambda>k. on_pool (io_stat mem_ext k)), io_remove = (\<lambda>k. on_pool (io_remove mem_ext k)),
      io_trunc = (\<lambda>k n. on_pool (io_trunc mem_ext k n)), uuid_text = uuid_text mem_ext\<rparr>"

text \<open>The stub of the manager runs \<open>lease_impl::acquire\<close>.\<close>

definition manager_acquire :: "lease_request \<Rightarrow> world \<Rightarrow> lease_response option \<times> world" where
  "manager_acquire request w =
     (case lease_impl_acquire world_ext (clock w) (clock w) request (manager w) of
        (response, t) \<Rightarrow> (Some response, w\<lparr>manager := t\<rparr>))"

definition world_env :: "world env" where
  "world_env =
     \<lparr>meta_io = world_ext, data_io = world_ext, sys_clock = (\<lambda>w. (clock w, w)), utc_time = (\<lambda>w. (Some \<lparr>tv_sec = 7, tv_nsec = 8\<rparr>, w)),
      new_uuid = (\<lambda>w. (replicate 15 CHR ''w'' @ [char_of (generated w)], w\<lparr>generated := Suc (generated w)\<rparr>)),
      lease_rpc = manager_acquire, peers = nobody_answers\<rparr>"

interpretation wrld: cluster world_ext objects
  by unfold_locales (auto simp: world_ext_def on_pool_def mem_ext_def split: option.splits)

text \<open>A client alone with the manager, and one that calls it\<close>

interpretation node: serving world_env "''B''"
proof (unfold_locales, goal_cases)
  case (1 q s response s')
  then show ?case using manager_answers [of world_ext "clock s" "clock s" q "manager s"]
    by (auto simp: world_env_def manager_acquire_def split: prod.splits)
qed (simp_all add: world_env_def nobody_answers_def)

interpretation wmeta: meta_env world_env objects
  by unfold_locales
    (auto simp: world_env_def world_ext_def on_pool_def mem_ext_def manager_acquire_def split: option.splits prod.splits)

section \<open>The first mount\<close>

text \<open>On an empty pool \<open>init\<close> makes the root directory, takes its lease and loads it.\<close>

lemma fuse_init_mounts:
  assumes meta: "meta_env E objs" and utc: "\<And>s. objs (snd (utc_time E s)) = objs s" and ok: "store_ok objs (sys st)"
    and absent: "\<not> rados_present objs (sys st) INODE (uuid_to_string (meta_io E) get_root_ino)" and none: "dentry_tables st = []"
    and grant: "\<And>s. make_root E st = Some (Inr (), st\<lparr>sys := s\<rparr>) \<Longrightarrow>
      \<exists>response s'. lease_rpc E (make_lease_request (self_remote st) get_root_ino) (snd (sys_clock E s)) = (Some response, s') \<and> res_ret response = 0"
  shows "\<exists>d st' ts. fuse_init E st = Some (Inr (), st')
    \<and> taken_over st' d (new_root ts (this_client st)) \<lparr>this_ino = get_root_ino, child_list = []\<rparr> (\<lambda>_. new_root ts (this_client st))
    \<and> fh_list st' = [] \<and> jrnl st' = journal_new"
proof -
  have lib: "librados (meta_io E) objs" using meta by (simp add: meta_env_def)
  let ?d = "\<lparr>this_ino = get_root_ino, child_list = []\<rparr>"
  obtain ts s where s: "make_root E st = Some (Inr (), st\<lparr>sys := s\<rparr>)" "inode_at (meta_io E) objs s (new_root ts (this_client st))"
    "dentry_at (meta_io E) objs s ?d"
    by (rule make_root_ok [OF lib ok utc absent])
  let ?r = "new_root ts (this_client st)"
  have "stored_dir (meta_io E) objs (sys (st\<lparr>sys := s\<rparr>)) ?r ?d (\<lambda>_. ?r)"
    using s(2,3) by (simp add: stored_dir_def new_root_def set_size_def inode_new_def)
  moreover obtain response s' where "lease_rpc E (make_lease_request (self_remote st) get_root_ino) (snd (sys_clock E s)) = (Some response, s')"
    "res_ret response = 0" using grant [OF s(1)] by blast
  ultimately obtain d st1 where st1: "get_dentry_table E get_root_ino False (st\<lparr>sys := s\<rparr>) = Some (Inr (Some d), st1)"
    "taken_over st1 d ?r ?d (\<lambda>_. ?r)"
    using meta_env.takeover_loads [OF meta, of "st\<lparr>sys := s\<rparr>" ?r ?d "\<lambda>_. ?r" response s'] none by auto
  let ?st = "st1\<lparr>fh_list := [], jrnl := journal_new\<rparr>"
  have "fuse_init E st = Some (Inr (), ?st)"
    by (simp add: fuse_init_def bnd_def s(1) directory_table_new_def st1(1) ret_def modify_def)
  moreover have "taken_over ?st d ?r ?d (\<lambda>_. ?r)" using st1(2) by (simp add: taken_over_def dtable_ok_def holds_inode_def split: option.splits)
  ultimately show ?thesis by (intro exI [of _ d] exI [of _ ?st] exI [of _ ts]) simp
qed

section \<open>Directories change hands\<close>

lemma dir_at_stored:
  assumes "dir_at X objs s u (Some m)" and "inode_at X objs s dir" and "i_ino (core dir) = u"
    and "\<And>w. w \<in> ran m \<Longrightarrow> inode_at X objs s (inodes w) \<and> i_ino (core (inodes w)) = w"
  obtains ds where "stored_dir X objs s dir ds inodes" and "this_ino ds = u" and "children ds = m"
proof -
  obtain ds where ds: "dentry_at X objs s ds" "this_ino ds = u" "children ds = m" using assms(1) by (auto simp: dir_at_def)
  have wf: "rm_wf (child_list ds)" using ds(1) by (simp add: dentry_at_def wf_dentry_def wf_children_def)
  have "w \<in> ran m" if w: "w \<in> snd ` set (child_list ds)" for w
  proof -
    obtain name where "(name, w) \<in> set (child_list ds)" using w by auto
    then have "children ds name = Some w" using wf by simp
    then show ?thesis using ds(3) by (auto simp: ran_def)
  qed
  then have "stored_dir X objs s dir ds inodes" using ds(1,2) assms(2-4) by (simp add: stored_dir_def)
  then show thesis using ds(2,3) by (rule that)
qed

text \<open>A cluster in memory whose manager knows one client, and that client when it starts\<close>

definition sole_env :: "(string \<rightharpoonup> bytes) env" where
  "sole_env = mem_env\<lparr>lease_rpc := (\<lambda>_ s. (Some \<lparr>res_ret = 0, res_due = 1000, res_remote_addr = []\<rparr>, s))\<rparr>"

definition new_client :: "'s \<Rightarrow> 's client_state" where
  "new_client s =
     \<lparr>iobjs = (\<lambda>_. \<lparr>base = inode_blank UNKNOWN, remote = None\<rparr>), next_iobj = 0,
      dtabs = (\<lambda>_. \<lparr>dir_ino = nil_uuid, this_dir_inode = None, dt_dentries = None, child_inodes = [], dt_loc = UNKNOWN, leader_ip = []\<rparr>),
      next_dtab = 0, dentry_tables = [], leases = [], self_remote = ''A'', fh_list = [], next_fh = 0, jrnl = journal_new,
      this_client = \<lparr>client_id = 1, client_uid = 0, client_gid = 0\<rparr>, sys = s\<rparr>"

lemma new_client_simps [simp]:
  "sys (new_client s) = s" "dentry_tables (new_client s) = []" "fresh_client (new_client s)" "self_remote (new_client s) = ''A''"
  by (simp_all add: new_client_def fresh_client_def)

interpretation sole: services sole_env
  by unfold_locales (auto simp: sole_env_def mem_env_def nobody_answers_def)

interpretation smeta: meta_env sole_env "\<lambda>M. M"
  by unfold_locales (auto simp: sole_env_def mem_env_def mem_ext_def)

lemma sole_io [simp]: "meta_io sole_env = mem_ext" "utc_time sole_env s = (Some \<lparr>tv_sec = 7, tv_nsec = 8\<rparr>, s)" "sys_clock sole_env s = (0, s)"
  "lease_rpc sole_env q s = (Some \<lparr>res_ret = 0, res_due = 1000, res_remote_addr = []\<rparr>, s)"
  by (simp_all add: sole_env_def mem_env_def)

lemma sole_mount:
  obtains d st' where "fuse_init sole_env (new_client Map.empty) = Some (Inr (), st')" and "rm_find (dentry_tables st') get_root_ino = Some d"
    and "dtable_ok st' d" and "dt_dentries (dtabs st' d) = Some \<lparr>this_ino = get_root_ino, child_list = []\<rparr>"
  using fuse_init_mounts [OF smeta.meta_env_axioms, of "new_client Map.empty"] mem_empty_ok
  by (auto simp: rados_present_def taken_over_def)

section \<open>Bounds of a read\<close>

lemma yields_catch [yielding]: "yields P m \<Longrightarrow> (\<And>e. yields P (h e)) \<Longrightarrow> yields P (catch m h)"
  by (auto simp: yields_def catch_def split: option.splits sum.splits prod.splits)

lemma yields_throw [yielding]: "yields P (throw e)"
  by (simp add: yields_def throw_def)

lemma chunk_then_rest: "cursor < stop \<Longrightarrow> chunk_len cursor stop + (stop - next_bound cursor) = stop - cursor"
  using next_bound_greater [of cursor] by (auto simp: chunk_len_def)

context librados
begin

lemma read_obj_bounds: "read_obj X key len off s = (Inr bs, s') \<Longrightarrow> length bs \<le> len"
  using read_absent [of s key len off] read_present [of s key _ len off]
  by (cases "objs s key") (auto simp: read_obj_def ENOENT_def split: if_splits)

lemma read_loop_bounds:
  "read_loop X p_key cursor stop val s = (r, bs, s') \<Longrightarrow>
   length bs \<le> length val + (stop - cursor) \<and> (\<forall>n. r = Inr n \<or> r = Inl (No_such_object n) \<longrightarrow> n = length bs)"
proof (induction "stop - cursor" arbitrary: cursor val s rule: less_induct)
  case less
  let ?key = "obj_key p_key (drop_bit OBJ_BITS cursor)"
  obtain q s1 where q: "read_obj X ?key (chunk_len cursor stop) (mask_lo cursor) s = (q, s1)" by fastforce
  show ?case
  proof (cases "cursor < stop")
    case False
    then show ?thesis using less.prems by (subst (asm) read_loop.simps) auto
  next
    case more: True
    show ?thesis
    proof (cases q)
      case (Inl e)
      then show ?thesis using less.prems q more by (subst (asm) read_loop.simps) (auto split: exn.splits)
    next
      case (Inr cs)
      then have "read_loop X p_key (next_bound cursor) stop (val @ cs) s1 = (r, bs, s')"
        using less.prems q more by (subst (asm) read_loop.simps) simp
      then have "length bs \<le> length (val @ cs) + (stop - next_bound cursor) \<and> (\<forall>n. r = Inr n \<or> r = Inl (No_such_object n) \<longrightarrow> n = length bs)"
        by (rule less.hyps [rotated]) (use more next_bound_greater [of cursor] in linarith)
      moreover have "length cs \<le> chunk_len cursor stop" using read_obj_bounds q Inr by blast
      ultimately show ?thesis using chunk_then_rest [OF more] by auto
    qed
  qed
qed

end

section \<open>Two clients\<close>

text \<open>The steps of a pair: operations and requests of the calling client, whose calls run in the serving client, operations of the serving
  client and requests that others make of it, changes of the world and of the journals.\<close>

inductive pair_run :: "'s env \<Rightarrow> string \<Rightarrow> 's client_state client_state \<Rightarrow> bool" for E host where
  start: "fresh_client A \<Longrightarrow> fresh_client (sys A) \<Longrightarrow> pair_run E host A"
| caller_operation: "pair_run E host A \<Longrightarrow> get_fuse_ops (via E host) c A = Some (r, A') \<Longrightarrow> pair_run E host A'"
| caller_request: "pair_run E host A \<Longrightarrow> rpc_server (via E host) q A = Some (r, A') \<Longrightarrow> pair_run E host A'"
| server_operation: "pair_run E host A \<Longrightarrow> get_fuse_ops E c (sys A) = Some (r, B) \<Longrightarrow> pair_run E host (A\<lparr>sys := B\<rparr>)"
| server_request: "pair_run E host A \<Longrightarrow> rpc_server E q (sys A) = Some (r, B) \<Longrightarrow> pair_run E host (A\<lparr>sys := B\<rparr>)"
| world: "pair_run E host A \<Longrightarrow> pair_run E host (A\<lparr>sys := (sys A)\<lparr>sys := s, jrnl := k\<rparr>, jrnl := j\<rparr>)"

lemma reachable_again: "reachable E A \<Longrightarrow> reachable E (A\<lparr>sys := s\<rparr>)"
proof -
  assume "reachable E A"
  moreover have "A\<lparr>sys := s, jrnl := jrnl A\<rparr> = A\<lparr>sys := s\<rparr>" by (cases A) simp
  ultimately show ?thesis by (metis reachable.others)
qed

lemma pair_reachable: "pair_run E host A \<Longrightarrow> reachable (via E host) A \<and> reachable E (sys A)"
proof (induction rule: pair_run.induct)
  case (start A)
  then show ?case by (simp add: reachable.start)
next
  case (caller_operation A c r A')
  then show ?case using keepsD [OF host.keeps_get_fuse_ops, of E A host c r A'] reachable.operation [of "via E host" A c r A'] by blast
next
  case (caller_request A q r A')
  then show ?case using keepsD [OF host.keeps_rpc_server, of E A host q r A'] reachable.request [of "via E host" A q r A'] by blast
next
  case (server_operation A c r B)
  then show ?case using reachable.operation [of E "sys A" c r B] by (simp add: reachable_again)
next
  case (server_request A q r B)
  then show ?case using reachable.request [of E "sys A" q r B] by (simp add: reachable_again)
next
  case (world A s k j)
  then show ?case by (simp add: reachable.others)
qed

end

