(* ===== verification/Spec2Isabelle.thy ===== *)
theory Spec2Isabelle
  imports Durable_Ops Bench_Io Diagnostics Rpc_Channels Lease_Protocol Session Path Local_Coherence Local_Data Fuse_Spec System
begin

text \<open>
  Verification of nmfs, a distributed file system on RADOS.

  The parts of the program. A client (\<open>client/\<close>) serves FUSE. Every directory has at most one \<^emph>\<open>leader\<close>
  at a time, the client that holds its lease; the lease and session managers (\<open>manager/\<close>) grant leases
  and client ids. A client runs an operation on a directory it leads itself, on tables in memory
  (\<open>in_memory/\<close>, \<open>fs_ops/local_ops.cpp\<close>), and records it in a journal whose threads write the changes to
  the pool of metadata (\<open>journal/\<close>). An operation on any other directory goes to its leader by a remote
  call (\<open>fs_ops/remote_ops.cpp\<close>, \<open>rpc/\<close>). Data goes to the pool of data directly. Files of both pools are
  striped over RADOS objects (\<open>lib/rados_io/\<close>).

  The model. RADOS, gRPC, the clock, the generator of UUIDs and the world they act on are parameters: a
  record of functions on a world of any type (\<open>External\<close>, \<open>env\<close> in \<open>Client_State\<close>). What the program relies
  on is stated as laws of locales: \<open>librados\<close> says that the calls behave as a store of objects, and it is
  interpreted on the store in memory that the witnesses use. A client is a record (\<open>client_state\<close>) of its
  tables, inodes, open files, leases and journal, with objects behind pointers in maps from addresses, so
  that aliasing is visible. An operation is a function from the state to \<^const>\<open>None\<close> (it does not
  return) or a result and the new state, where a result is an exception or a value. The exceptions
  include following a null pointer.

  \<^descr> \<open>Nmfs_Prelude\<close>, \<open>External\<close>: lemmas on words, lists and bytes; the interface of librados.
  \<^descr> \<open>Rados_Io\<close>, \<open>Rados_Spec\<close>, \<open>File_Store\<close>: \<open>lib/rados_io/rados_io.cpp\<close>. Reads, writes, truncation, stat and
    removal refine operations on one byte sequence per file, for all offsets and object boundaries.
  \<^descr> \<open>Uuid\<close>, \<open>Path\<close>: \<open>util/uuid.cpp\<close>, \<open>util/path.cpp\<close>. Halves of UUIDs and splitting of paths.
  \<^descr> \<open>Inode\<close>, \<open>Dentry\<close>: \<open>client/meta/inode.cpp\<close>, \<open>dentry.cpp\<close>. Object formats round trip; permissions.
  \<^descr> \<open>Transaction\<close>, \<open>Transaction_Spec\<close>, \<open>Transaction_Sync\<close>: \<open>client/journal/transaction.cpp\<close>. A transaction denotes
    a function on directories; its operations compose it and \<open>sync\<close> applies it to the pool.
  \<^descr> \<open>Journal\<close>, \<open>Journal_Spec\<close>: \<open>client/journal/\<close>. The table of open transactions and the threads as steps of a
    transition system; at every moment the pool together with what is open, queued or committed is the
    original directory changed by the completed operations in order. \<open>Journal_Inodes\<close>: the same for the inodes of
    files, each of which must go through the transactions of one directory.
  \<^descr> \<open>Lease_Manager\<close>, \<open>Lease_Client\<close>, \<open>Lease_Protocol\<close>, \<open>Session\<close>: \<open>manager/lease/\<close>, \<open>client/lease/\<close>, \<open>manager/session/\<close>,
    \<open>client/client/\<close>. Two clients never both believe to hold a lease, for every interleaving of the critical
    sections; ids are distinct across restarts.
  \<^descr> \<open>Client_State\<close>, \<open>File_Handler\<close>, \<open>Dentry_Table\<close>, \<open>Directory_Table\<close>: \<open>client/meta/file_handler.cpp\<close>, \<open>remote_inode.cpp\<close>,
    \<open>client/in_memory/\<close>. The state of a client, the tables, path traversal and the choice between leading and
    following a directory.
  \<^descr> \<open>Local_Ops\<close>, \<open>Local_Spec\<close>, \<open>Local_Coherence\<close>, \<open>Local_Data\<close>: \<open>client/fs_ops/local_ops.cpp\<close>. Each operation changes the
    entries in memory and the view of the journal alike (\<open>tab_ok\<close>), and the data operations refine byte
    sequences and keep the size of the inode.
  \<^descr> \<open>Rpc_Messages\<close>, \<open>Rpc_Client\<close>, \<open>Rpc_Server\<close>, \<open>Remote_Ops\<close>: \<open>client/rpc/\<close>, \<open>client/fs_ops/remote_ops.cpp\<close>. The
    messages, the calls with their requests and answers, and the handlers at the leader.
  \<^descr> \<open>Fuse_Ops\<close>: \<open>client/fs_ops/fuse_ops.cpp\<close>. The entry points, with the loops that look for the leader.
  \<^descr> \<open>Cluster\<close>, \<open>Remote_Spec\<close>, \<open>Remote_Rename\<close>, \<open>Fuse_Spec\<close>: two clients together. The world of the calling client is
    the state of the serving one, so the calls of one run the handlers of the other. Remote operations
    change the directory at the leader as local ones do; a client without the lease refuses; the codes of
    the protocol do not reach the kernel.
  \<^descr> \<open>Client_Types\<close>, \<open>Client_Calm\<close>, \<open>Table_Types\<close>, \<open>Local_Types\<close>, \<open>Rpc_Types\<close>, \<open>Fuse_Types\<close>: a type system for the programs of a
    client. \<open>client_ok\<close> is the invariant of the heap of inodes and tables, \<open>evolves\<close> its extension, and
    \<open>typed \<Gamma> m T\<close> says that a program on references of the kinds \<open>\<Gamma>\<close> keeps the invariant, returns references of
    the kinds \<open>T\<close> and throws no \<open>internal_error\<close>. Each operation of the client is typed along its text. The
    locale \<open>services\<close> is the contract of the manager and of the other clients: which codes they answer.
  \<^descr> \<open>Client_Runs\<close>: the table of operations that \<open>get_fuse_ops\<close> fills, the service that \<open>rpc_server.hpp\<close> declares, and
    the states a client can reach through them.
  \<^descr> \<open>World_Frame\<close>: what the functions of the environment keep of the world (\<open>steady_world\<close>), every operation of a
    client keeps; interpreted on a client that calls another one.
  \<^descr> \<open>Takeover\<close>: \<open>lease_dentry_table\<close> and \<open>pull_child_metadata\<close> from the pool (locale \<open>meta_env\<close>): the table of a
    directory that a client takes over is what the pool holds.
  \<^descr> \<open>System\<close>: the answers of the handlers and of the manager keep the contract \<open>services\<close>, a world with a manager
    on which the locales are interpreted, the first mount, the bounds of a read and the runs of two clients.
    The properties below rest on it: a handover keeps every completed operation, a created file survives, two clients stay
    consistent, listing and lookup agree, the first mount succeeds, a read stays in its buffer.
  \<^descr> \<open>Durable_Ops\<close>: a call of the journal inside an operation is a run of the transition system, so that what \<open>create\<close> records takes
    the way of the threads to the pool; with \<open>Takeover\<close>, a created file reaches the next leader.
  \<^descr> \<open>Startup\<close>: \<open>main\<close> of both processes, \<open>util/config\<close>, \<open>init\<close> and \<open>destroy\<close> of \<open>fuse_ops.cpp\<close>, the server thread, constructor and
    destructor of \<open>rados_io\<close>. A process may leave by \<open>exit\<close> or an uncaught exception. Connections are given back, a wrong
    configuration ends the process before it contacts anything, the manager serves where the clients call; with \<open>System\<close>, the first mount.
  \<^descr> \<open>Rpc_Channels\<close>: \<open>get_rpc_client\<close> of \<open>client/meta/remote_inode.cpp\<close>, one connection for each address.
  \<^descr> \<open>Diagnostics\<close>: \<open>lib/logger\<close> and \<open>util/dump.cpp\<close>, the text they print. \<open>Bench_Io\<close>: the \<open>rados_io\<close> of \<open>client/bench\<close>, a map
    from keys to values, and \<open>io_test\<close>.

  Loops. The loops of the program that may not end are \<open>partial_function\<close>s into \<open>option\<close>: \<open>None\<close> is not
  returning (\<open>stat_loop\<close>, \<open>remove_loop\<close> and \<open>trunc_tail_loop\<close> of \<open>Rados_Io\<close>, \<open>journal_apply\<close> and \<open>check_loop\<close> of
  \<open>Journal\<close>, \<open>deserialize_f_inodes\<close> of \<open>Transaction\<close>, \<open>retry_remote\<close> of \<open>Fuse_Ops\<close>). Results state that they return:
  the loops over objects on every file the pool holds, the loop of a journal operation because the table
  replaces a transaction that has been committed, the loop around a remote operation after any finite
  number of rounds that name another leader. The loops that read, write and fill a range and the
  one over the names of a path are total functions with a measure, so no fuel is chosen anywhere.

  Concurrency. The journal threads and the critical sections of the lease service are steps that
  interleave freely. A single operation of a client runs without another one of the same client in
  between, as the mutex of the directory enforces for its part on a table. A call of gRPC is one step: the
  message arrives and is answered, or the status is not \<open>OK\<close>.

  Not modelled: \<open>client/bench/multithread.cpp\<close>, which only calls the operating system; the calls of the logger inside the operations, which
  change no state of the file system; the cache of \<open>Rpc_Channels\<close> inside the remote operations, whose stubs take the address; the
  delays and wake-ups of threads (any order of steps is allowed). What gRPC does with an exception that leaves a handler is left open: it is the outcome of the
  handler.
\<close>

section \<open>Directories change hands\<close>



text \<open>C4. A file outlives its maker. A client that leads a directory creates a file in it; its journal threads go on, in any order and together with
  operations on other directories, until nothing of the directory is under way; then another client takes the directory over. It finds the
  entries the first client had and the new one, whose inode has the number that was drawn and the mode that was asked for.\<close>

theorem created_file_survives:
  assumes "meta_env E objs" and "boost_uuid (meta_io E)" and "store_ok objs s0" and "dirs_ok (meta_io E) objs s0" and "is_uuid u"
    and "jrun (meta_io E) objs (jinit s0) tr s" and "jn s = jrnl st" and "held s u = None" and "ino_of st p = u"
    and "dir_at (meta_io E) objs s0 u v0" and "fold op_effect (ops_of u tr) v0 = Some (dir_children st d)"
    and "leased E' st u d" and "dir_ok v st p d" and "fh_fresh st" and "name_ok name" and "dir_children st d name = None"
    and "\<not> S_ISLNK (mode OR S_IFREG)" and "drawn_ino E' (snd (sys_clock E' (sys st))) = w" and "fresh_ino st p d w"
    and "local_create E' p name mode fi st = Some (r, st')"
    and "jrun (meta_io E) objs (s\<lparr>jn := jrnl st'\<rparr>) l s'" and "ops_of u l = []" and "path s' u = []" and "owned u w (tr @ l)" and "no_dir s' w"
    and "inode_at (meta_io E) objs (pool s') dir" and "i_ino (core dir) = u"
    and "\<And>x. x \<in> ran (dir_children st d) \<Longrightarrow> inode_at (meta_io E) objs (pool s') (inodes x) \<and> i_ino (core (inodes x)) = x"
    and "sys stB = pool s'" and "rm_find (dentry_tables stB) u = None"
    and "lease_rpc E (make_lease_request (self_remote stB) u) (snd (sys_clock E (sys stB))) = (Some response, sB)" and "res_ret response = 0"
  shows "r = Inr (fi\<lparr>fi_fh := next_fh st\<rparr>) \<and> (\<exists>dB stB' a. get_dentry_table E u False stB = Some (Inr (Some dB), stB')
    \<and> dtable_ok stB' dB \<and> dir_children stB' dB = (dir_children st d)(name \<mapsto> w)
    \<and> rm_find (child_inodes (dtabs stB' dB)) name = Some a \<and> ino_of stB' a = w \<and> i_mode (core (the_inode stB' a)) = mode OR S_IFREG)"
proof -
  let ?X = "meta_io E" and ?m = "(dir_children st d)(name \<mapsto> w)"
  have cl: "cluster ?X objs" using assms(1,2) by (simp add: cluster_def meta_env_def)
  have inv: "jinv ?X objs s" by (rule cluster.jrun_inv [OF cl assms(6) jinv_init [OF assms(3,4)]])
  obtain n f where c: "r = Inr (fi\<lparr>fi_fh := next_fh st\<rparr>)" "jrun ?X objs s [(u, Mkreg n name f)] (s\<lparr>jn := jrnl st'\<rparr>)"
    "i_ino (core f) = w" "i_mode (core f) = mode OR S_IFREG"
    by (rule local_create_run [where st = st and p = p and d = d and v = v and E = E' and name = name and mode = mode and fi = fi and r = r and st' = st', OF inv assms(7)])
      (use assms in simp_all)
  let ?tr = "tr @ [(u, Mkreg n name f)] @ l"
  have run: "jrun ?X objs (jinit s0) ?tr s'" using jrun_append [OF assms(21) jrun_append [OF c(2) assms(6)]] by simp
  have ops: "ops_of u ?tr = ops_of u tr @ [Mkreg n name f]" using assms(22) by (simp add: ops_of_def)
  have dir: "dir_at ?X objs (pool s') u (Some ?m)"
    using cluster.jrun_durable [OF cl run assms(3,4,5,10,23)] unfolding ops fold_append o_apply assms(11) by (simp add: c(3))
  have "carried ?X objs s0 u ?tr s' w (inode_copy f)"
    using assms(19,24,25) c(3)
    unfolding carried_def ops by (auto simp: ops_say_def op_says_def fresh_ino_def ino_ok_def owned_def)
  then have new: "inode_at ?X objs (pool s') (inode_copy f) \<and> i_ino (core (inode_copy f)) = w"
    by (rule cluster.carried_stored [OF cl run assms(3,4,23)])
  have "w \<notin> ran (dir_children st d)" using assms(19) by (simp add: fresh_ino_def)
  then have files: "\<And>x. x \<in> ran ?m \<Longrightarrow> inode_at ?X objs (pool s') ((inodes(w := inode_copy f)) x) \<and> i_ino (core ((inodes(w := inode_copy f)) x)) = x"
    using assms(28) new by (auto simp: ran_def split: if_splits)
  obtain ds where ds: "stored_dir ?X objs (pool s') dir ds (inodes(w := inode_copy f))" "this_ino ds = u" "children ds = ?m"
    by (rule dir_at_stored [OF dir assms(26,27) files])
  then obtain dB stB' where B: "get_dentry_table E u False stB = Some (Inr (Some dB), stB')" "taken_over stB' dB dir ds (inodes(w := inode_copy f))"
    using meta_env.takeover_loads [OF assms(1), of stB dir ds "inodes(w := inode_copy f)" response sB] assms(29-32) by auto
  have "children ds name = Some w" using ds(3) by simp
  then have "\<exists>a. rm_find (child_inodes (dtabs stB' dB)) name = Some a \<and> holds_inode stB' a ((inodes(w := inode_copy f)) w)"
    using B(2) unfolding taken_over_def by blast
  then obtain a where a: "rm_find (child_inodes (dtabs stB' dB)) name = Some a" "core (the_inode stB' a) = core f"
    by (auto simp: holds_inode_def inode_copy_def)
  have "dtable_ok stB' dB" "dir_children stB' dB = ?m" using B(2) ds(3) by (simp_all add: taken_over_def)
  then show ?thesis using B(1) c a by (intro conjI exI [of _ dB] exI [of _ stB'] exI [of _ a]) simp_all
qed

theorem created_file_survives_witness:
  "\<exists>s st' s' dB stB' a. local_create mem_env 0 ''g'' 0x1A4 \<lparr>fi_flags = 0, fi_fh = 0\<rparr> (sample_leader s) = Some (Inr \<lparr>fi_flags = 0, fi_fh = 0\<rparr>, st')
     \<and> jrun mem_ext (\<lambda>M. M) (s\<lparr>jn := jrnl st'\<rparr>) [] s'
     \<and> get_dentry_table sole_env get_root_ino False (new_client (pool s')) = Some (Inr (Some dB), stB')
     \<and> dir_children stB' dB = [''f'' \<mapsto> replicate 16 CHR ''u'', ''g'' \<mapsto> replicate 16 CHR ''w'']
     \<and> rm_find (child_inodes (dtabs stB' dB)) ''g'' = Some a \<and> i_mode (core (the_inode stB' a)) = 0x1A4 OR S_IFREG"
proof -
  let ?w = "replicate 16 CHR ''w''"
  obtain s st' s' dir where s: "jrun mem_ext (\<lambda>M. M) (jinit Map.empty) sample_ops s" "sample_open s" "txs (jn s) 0 = sample_tx"
    and c: "local_create mem_env 0 ''g'' 0x1A4 \<lparr>fi_flags = 0, fi_fh = 0\<rparr> (sample_leader s) = Some (Inr \<lparr>fi_flags = 0, fi_fh = 0\<rparr>, st')"
    and s': "jrun mem_ext (\<lambda>M. M) (s\<lparr>jn := jrnl st'\<rparr>) [] s'" "path s' get_root_ino = []" "no_dir s' ?w"
    and stored: "inode_at mem_ext (\<lambda>M. M) (pool s') dir" "i_ino (core dir) = get_root_ino" "inode_at mem_ext (\<lambda>M. M) (pool s') (inode_copy sample_file)"
    using sample_create_stored .
  have inv: "jinv mem_ext (\<lambda>M. M) s" by (rule mem.jrun_inv [OF s(1) jinv_init [OF mem_empty_ok mem_dirs_ok]])
  note dir = sample_leader_dir_ok [OF inv s(2,3)]
  have w: "ino_ok ?w" "?w \<noteq> get_root_ino" "?w \<noteq> replicate 16 CHR ''u''" by code_simp+
  have fresh: "fresh_ino (sample_leader s) 0 0 ?w" using w by (simp add: fresh_ino_def dir(2) sample_tx_files(1))
  have entries: "fold op_effect (ops_of get_root_ino sample_ops) None = Some (dir_children (sample_leader s) 0)"
    by (simp add: ops_of_def sample_inos)
  have own: "owned get_root_ino ?w (sample_ops @ [])" by (simp add: owned_def)
  have held: "held s get_root_ino = None" using s(2) by (simp add: sample_open_def)
  have others: "x \<in> ran (dir_children (sample_leader s) 0) \<Longrightarrow> inode_at mem_ext (\<lambda>M. M) (pool s') (inode_copy sample_file) \<and> i_ino (core (inode_copy sample_file)) = x" for x
    using stored(3) by (auto simp: inode_copy_def sample_inos split: if_splits)
  have boost: "boost_uuid (meta_io sole_env)" using mem.boost_uuid_axioms by simp
  have "Inr \<lparr>fi_flags = 0, fi_fh = 0\<rparr> = (Inr (\<lparr>fi_flags = 0, fi_fh = 0\<rparr>\<lparr>fi_fh := next_fh (sample_leader s)\<rparr>) :: exn + fuse_file_info)
    \<and> (\<exists>dB stB' a. get_dentry_table sole_env get_root_ino False (new_client (pool s')) = Some (Inr (Some dB), stB')
      \<and> dtable_ok stB' dB \<and> dir_children stB' dB = (dir_children (sample_leader s) 0)(''g'' \<mapsto> ?w)
      \<and> rm_find (child_inodes (dtabs stB' dB)) ''g'' = Some a \<and> ino_of stB' a = ?w \<and> i_mode (core (the_inode stB' a)) = 0x1A4 OR S_IFREG)"
    by (rule created_file_survives [OF smeta.meta_env_axioms boost mem_empty_ok _ is_uuid_root _ _ held _ _ entries _ dir(1) _ sample_names(2) _ sample_modes(1) _ fresh c,
          where inodes = "\<lambda>_. inode_copy sample_file" and stB = "new_client (pool s')" and dir = dir and l = "[]"
            and response = "\<lparr>res_ret = 0, res_due = 1000, res_remote_addr = []\<rparr>" and sB = "pool s'"])
      (use s(1) s' own stored others mem_dirs_ok mem_empty_dir sample_leader_leased in \<open>simp_all add: ops_of_def\<close>)
  then obtain dB stB' a where "get_dentry_table sole_env get_root_ino False (new_client (pool s')) = Some (Inr (Some dB), stB')"
    "dir_children stB' dB = [''f'' \<mapsto> replicate 16 CHR ''u'', ''g'' \<mapsto> ?w]" "rm_find (child_inodes (dtabs stB' dB)) ''g'' = Some a"
    "i_mode (core (the_inode stB' a)) = 0x1A4 OR S_IFREG"
    unfolding sample_leader_simps by blast
  then show ?thesis using c s'(1)
    by (intro exI [of _ s] exI [of _ st'] exI [of _ s'] exI [of _ dB] exI [of _ stB'] exI [of _ a] conjI)
qed

section \<open>Clients stay consistent\<close>





text \<open>C7. A client stays consistent. From its start, through any sequence of its own operations and of requests of other clients, each
  of them ending normally or with an exception, and through any change of the world and of its journal in between: its references lead to
  objects of the right kind, every registered table is complete, with the same names in its entries and its inodes, and every open file
  refers to an inode of the kind its location says.\<close>

theorem client_invariant:
  assumes "services E" and "reachable E st"
  shows "client_ok st"
  using assms by (rule services.reachable_ok)

theorem client_invariant_witness:
  "\<exists>st. get_fuse_ops sole_env Init (new_client Map.empty) = Some (Inr (), st) \<and> client_ok st \<and> rm_find (dentry_tables st) get_root_ino \<noteq> None"
proof -
  obtain st d where st: "fuse_init sole_env (new_client Map.empty) = Some (Inr (), st)" "rm_find (dentry_tables st) get_root_ino = Some d"
    using sole_mount by metis
  have "reachable sole_env st" 
    by (rule reachable.operation [OF reachable.start, of "new_client Map.empty" _ Init "Inr ()"]) (simp_all add: st)
  from client_invariant [OF sole.services_axioms this] show ?thesis using st by auto
qed

text \<open>C29. In a reachable state listing and looking up agree: the names \<open>readdir\<close> lists for a directory this client leads are
  exactly those that \<open>get_child_inode\<close> finds, and each has an inode on the heap.\<close>

theorem listing_matches_lookup:
  assumes "services E" and "reachable E st" and "rm_find (dentry_tables st) u = Some d" and "dt_loc (dtabs st d) = LOCAL"
  shows "\<exists>names. table_fill_filler d st = Some (Inr names, st) \<and>
    set names = {''.'', ''..''} \<union> c_string ` {name. \<exists>a st'. get_child_inode d name nil_uuid st = Some (Inr (Some a), st') \<and> a < next_iobj st}"
proof -
  have ok: "client_ok st" using assms(1,2) by (rule services.reachable_ok)
  then have d: "d < next_dtab st" "table_ready (dtabs st d)" using map_of_SomeD [OF assms(3)] by (auto simp: client_ok_def)
  then obtain ds where ds: "dt_dentries (dtabs st d) = Some ds" "fst ` set (child_list ds) = fst ` set (child_inodes (dtabs st d))"
    using assms(4) by (auto simp: table_ready_def split: option.splits)
  have heap: "a < next_iobj st" if "rm_find (child_inodes (dtabs st d)) name = Some a" for name a
    by (rule client_ok_inodes [OF ok d(1)]) (use map_of_SomeD [OF that] in \<open>force simp: table_inodes_def\<close>)
  have "(\<exists>a st'. get_child_inode d name nil_uuid st = Some (Inr (Some a), st') \<and> a < next_iobj st) \<longleftrightarrow> name \<in> fst ` set (child_list ds)" for name
    unfolding ds(2) using heap [of name] assms(4) map_of_eq_None_iff [of "child_inodes (dtabs st d)" name]
    by (cases "rm_find (child_inodes (dtabs st d)) name") (simp_all add: get_child_inode_def bnd_def upd_inode_def modify_def ret_def)
  then have "{name. \<exists>a st'. get_child_inode d name nil_uuid st = Some (Inr (Some a), st') \<and> a < next_iobj st} = fst ` set (child_list ds)"
    by blast
  then show ?thesis using ds(1) by (simp add: table_fill_filler_def fill_filler_def image_image)
qed

theorem listing_matches_lookup_witness:
  "\<exists>st d. get_fuse_ops sole_env Init (new_client Map.empty) = Some (Inr (), st) \<and> rm_find (dentry_tables st) get_root_ino = Some d
     \<and> (\<exists>names. table_fill_filler d st = Some (Inr names, st) \<and>
          set names = {''.'', ''..''} \<union> c_string ` {name. \<exists>a st'. get_child_inode d name nil_uuid st = Some (Inr (Some a), st') \<and> a < next_iobj st})"
proof -
  obtain st d where st: "fuse_init sole_env (new_client Map.empty) = Some (Inr (), st)" "rm_find (dentry_tables st) get_root_ino = Some d"
    "dtable_ok st d" "dt_dentries (dtabs st d) = Some \<lparr>this_ino = get_root_ino, child_list = []\<rparr>"
    using sole_mount by metis
  have "reachable sole_env st"
    by (rule reachable.operation [OF reachable.start, of "new_client Map.empty" _ Init "Inr ()"]) (simp_all add: st)
  from listing_matches_lookup [OF sole.services_axioms this st(2)] st(3)
  show ?thesis using st(1,2) by (auto simp: dtable_ok_def)
qed

section \<open>Mounting and reading\<close>

text \<open>C24. The first mount. Started on an empty pool with a complete configuration, \<open>init\<close> succeeds when the cluster answers, the manager registers the
  client and grants the lease of the root directory: the client then holds one connection to each pool and leads the root, which is empty,
  belongs to the user who mounts and has mode 0777; no file is open and the journal is empty.\<close>

theorem first_mount:
  assumes "config_complete P conf" and "\<And>b h c. 0 \<le> rados_ctx P b h c"
    and "mount (manager_at P conf) (sys (globals p)) = (Some cid, s)" and "E (manager_at P conf) = E0"
    and "identified P conf cid uid gid s (globals p) = st"
    and "meta_env E0 objs" and "\<And>s. objs (snd (utc_time E0 s)) = objs s" and "store_ok objs s"
    and "\<not> rados_present objs s INODE (uuid_to_string (meta_io E0) get_root_ino)" and "dentry_tables (globals p) = []"
    and "\<And>s. make_root E0 st = Some (Inr (), st\<lparr>sys := s\<rparr>) \<Longrightarrow>
      \<exists>response s'. lease_rpc E0 (make_lease_request (service_at P conf) get_root_ino) (snd (sys_clock E0 s)) = (Some response, s') \<and> res_ret response = 0"
  shows "\<exists>d p' a. fuse_start P E mount conf uid gid p = Some (Inr (service_at P conf), p')
    \<and> handles_open (rados_ctx P True) [] (meta_conn p') = 1 \<and> handles_open (rados_ctx P False) [] (data_conn p') = 1
    \<and> (let st' = globals p' in rm_find (dentry_tables st') get_root_ino = Some d
      \<and> dtable_ok st' d \<and> dir_children st' d = Map.empty \<and> this_dir_inode (dtabs st' d) = Some a
      \<and> i_ino (core (the_inode st' a)) = get_root_ino \<and> i_mode (core (the_inode st' a)) = S_IFDIR OR 0x1FF
      \<and> i_uid (core (the_inode st' a)) = uid \<and> fh_list st' = [] \<and> jrnl st' = journal_new)"
proof -
  have st: "sys st = s" "dentry_tables st = []" "self_remote st = service_at P conf" "client_uid (this_client st) = uid"
    using assms(5,10) by (auto simp: identified_def)
  obtain d st' ts where st': "fuse_init E0 st = Some (Inr (), st')" "fh_list st' = []" "jrnl st' = journal_new"
    "taken_over st' d (new_root ts (this_client st)) \<lparr>this_ino = get_root_ino, child_list = []\<rparr> (\<lambda>_. new_root ts (this_client st))"
    using fuse_init_mounts [OF assms(6,7), of st] assms(8,9,11) st by auto
  then obtain a where a: "this_dir_inode (dtabs st' d) = Some a" "core (the_inode st' a) = core (new_root ts (this_client st))"
    by (auto simp: taken_over_def holds_inode_def)
  obtain p' where p': "fuse_start P E mount conf uid gid p = Some (Inr (service_at P conf), p')" "globals p' = st'"
    "handles_open (rados_ctx P True) [] (meta_conn p') = 1" "handles_open (rados_ctx P False) [] (data_conn p') = 1"
    using fuse_start_inits [where P = P and conf = conf and mount = mount and p = p and E = E and uid = uid and gid = gid, OF assms(1-3)]
      st'(1) assms(4,5) by blast
  show ?thesis
    by (rule exI [of _ d], rule exI [of _ p'], rule exI [of _ a])
      (use p' st' st a in \<open>simp add: taken_over_def new_root_def set_size_def inode_new_def\<close>)
qed

theorem first_mount_witness:
  "\<exists>d p'. fuse_start good_platform (\<lambda>_. sole_env) (\<lambda>_ s. (Some 1, s)) ''nmfs.cfg'' 5 6 (new_process (new_client Map.empty))
       = Some (Inr (service_at good_platform ''nmfs.cfg''), p')
     \<and> rm_find (dentry_tables (globals p')) get_root_ino = Some d \<and> dir_children (globals p') d = Map.empty"
proof -
  have up: "\<And>b h c. 0 \<le> rados_ctx good_platform b h c" by (rule good_platform_answers)
  show ?thesis
    using first_mount [where P = good_platform and conf = "''nmfs.cfg''" and mount = "\<lambda>_ s. (Some 1, s)" and E = "\<lambda>_. sole_env" and uid = 5 and gid = 6
        and p = "new_process (new_client Map.empty)" and s = Map.empty and cid = 1, OF good_platform_answers(1) up _ refl refl smeta.meta_env_axioms]
      mem_empty_ok
    by (auto simp: new_process_def Let_def rados_present_def)
qed

text \<open>C28. \<open>read\<close> never stores more than the buffer of the caller holds, whatever the state of the pool and however many objects the
  range crosses, and the count it returns is the number of bytes it has stored, unless it has stored none.\<close>

theorem fuse_read_bounds:
  assumes "librados (data_io E) objs" and "unat sz < 2 ^ 31" and "fuse_read E pathname sz offset info st = Some (Inr (r, bs), st')"
  shows "length bs \<le> unat sz \<and> (r = int (length bs) \<or> bs = [])"
proof -
  let ?P = "\<lambda>(r, bs). length bs \<le> unat sz \<and> (r = int (length bs) \<or> bs = [])"
  have small: "to_int (int n) = int n" if "n \<le> unat sz" for n
    using that assms(2) by (simp add: to_int_def signed_of_int signed_take_bit_int_eq_self del: of_int_of_nat_eq)
  have "yields ?P (read_program E i sz offset)" for i
    unfolding yields_def
  proof (intro allI impI)
    fix s x s' assume run: "read_program E i sz offset s = Some (Inr x, s')"
    obtain q bs s1 where q: "rados_read (data_io E) DATA (uuid_to_string (data_io E) (ino_of s i)) (unat sz) (unat offset) (sys s) = (q, bs, s1)"
      by (metis prod_cases3)
    then have "length bs \<le> unat sz" "\<forall>n. q = Inr n \<or> q = Inl (No_such_object n) \<longrightarrow> n = length bs"
      using librados.read_loop_bounds [OF assms(1)] by (fastforce simp: rados_read_def)+
    then show "?P x" using run q small by (auto simp: read_program_def local_read_def split: sum.splits exn.splits)
  qed
  then have "yields ?P (fuse_read E pathname sz offset info)"
    unfolding fuse_read_def by (intro yielding) (auto intro!: yielding split: exn.split)
  then show ?thesis using assms(3) by (auto simp: yields_def)
qed

theorem fuse_read_bounds_witness:
  "\<exists>M r bs st'. fuse_read mem_env [] 2 1 (Some \<lparr>fi_flags = 0, fi_fh = 0\<rparr>)
       ((sample_client M)\<lparr>fh_list := [(0, \<lparr>fh_ino = replicate 16 CHR ''u'', fh_loc = LOCAL, fh_no = 0, fh_i = Some 1, fh_remote_i = None\<rparr>)]\<rparr>)
       = Some (Inr (r, bs), st') \<and> bs = ''bc'' \<and> length bs \<le> 2 \<and> r = int (length bs)"
proof -
  let ?u = "replicate 16 CHR ''u''"
  let ?fh = "\<lparr>fh_ino = ?u, fh_loc = LOCAL, fh_no = 0, fh_i = Some 1, fh_remote_i = None\<rparr>" and ?fi = "\<lparr>fi_flags = 0, fi_fh = 0\<rparr>"
  obtain M where M: "rados_file (\<lambda>M. M) M DATA ?u ''abc''" using mem_file_exists [of "''abc''"] by blast
  let ?st = "(sample_client M)\<lparr>fh_list := [(0, ?fh)]\<rparr>"
  obtain s1 where q: "rados_read mem_ext DATA ?u 2 1 M = (Inr 2, ''bc'', s1)"
    using mem.pool_read [OF M, of 1 2] by (auto simp: numeral_2_eq_2)
  have io: "data_io mem_env = mem_ext" "uuid_to_string mem_ext u = u" for u by (simp_all add: mem_env_def mem_ext_def uuid_to_string_def)
  have inode: "target_inode mem_env (Some ?fi) [] ?st = Some (Inr 1, ?st)"
    by (simp add: target_inode_def handle_inode_def bnd_def get_file_handler_def get_open_inode_info_def from_result_def deref_def ret_def)
  have "ino_of ?st 1 = ?u" using sample_client_simps(2) [of M] by simp
  then obtain r st' where run: "fuse_read mem_env [] 2 1 (Some ?fi) ?st = Some (Inr (r, ''bc''), st')"
    using q inode by (auto simp: fuse_read_def catch_def bnd_def read_program_def local_read_def io)
  have "librados (data_io mem_env) (\<lambda>M. M)" by (simp add: io mem_librados)
  from fuse_read_bounds [OF this _ run] show ?thesis using run by auto
qed

end
